(* ===== verification/Prelude.thy ===== *)
theory Prelude
  imports Main "HOL-Library.List_Lexorder" "HOL-Library.Char_ord"
begin

text \<open>
  What every component of the development shares: Python exceptions as values, the
  combinators in which the checks of the source are written (sequencing, short-circuit
  \<open>or\<close> and \<open>and\<close>, \<open>next(...)\<close>, loops that append reasons), and the lemmas that let a
  proof about a composed check be read off from the proofs about its parts. Nothing here
  translates a line of the program: it is the language the translation is written in.
\<close>

section \<open>Exceptions and results\<close>

text \<open>
  The class of an exception and its message. The messages of exceptions the interpreter
  raises itself (a missing key, a wrong type) are not modelled and left empty; the
  messages the source writes are kept.
\<close>

datatype exn_class =
    KeyError | TypeError | AttributeError | ValueError | OverflowError | ValidationError
  | PermissionError | RuntimeError | TimeoutError | FileNotFoundError
  | OtherError string

datatype exn = Raise (exn_kind: exn_class) (exn_message: string)

fun exn_name :: "exn_class \<Rightarrow> string" where
  "exn_name KeyError = ''KeyError''"
| "exn_name TypeError = ''TypeError''"
| "exn_name AttributeError = ''AttributeError''"
| "exn_name ValueError = ''ValueError''"
| "exn_name OverflowError = ''OverflowError''"
| "exn_name ValidationError = ''ValidationError''"
| "exn_name PermissionError = ''PermissionError''"
| "exn_name RuntimeError = ''RuntimeError''"
| "exn_name TimeoutError = ''TimeoutError''"
| "exn_name FileNotFoundError = ''FileNotFoundError''"
| "exn_name (OtherError n) = n"

type_synonym 'a res = "exn + 'a"

definition throw :: "exn_class \<Rightarrow> 'a res" where
  "throw c = Inl (Raise c '''')"

definition throw_msg :: "exn_class \<Rightarrow> string \<Rightarrow> 'a res" where
  "throw_msg c m = Inl (Raise c m)"

definition bindE :: "'a res \<Rightarrow> ('a \<Rightarrow> 'b res) \<Rightarrow> 'b res" where
  "bindE m f = (case m of Inl e \<Rightarrow> Inl e | Inr x \<Rightarrow> f x)"

definition orE :: "bool res \<Rightarrow> bool res \<Rightarrow> bool res" where
  "orE a b = bindE a (\<lambda>x. if x then Inr True else b)"

definition andE :: "bool res \<Rightarrow> bool res \<Rightarrow> bool res" where
  "andE a b = bindE a (\<lambda>x. if x then b else Inr False)"

definition negE :: "bool res \<Rightarrow> bool res" where
  "negE a = bindE a (\<lambda>x. Inr (\<not> x))"

text \<open>\<open>if c: reasons.append(s)\<close>, as the list of reasons it contributes.\<close>

definition flag :: "bool \<Rightarrow> string \<Rightarrow> string list" where
  "flag c s = (if c then [s] else [])"

definition flagE :: "bool res \<Rightarrow> string \<Rightarrow> string list res" where
  "flagE c s = bindE c (\<lambda>b. Inr (flag b s))"

text \<open>Two stretches of code that each append reasons, one after the other.\<close>

definition appendE :: "'a list res \<Rightarrow> 'a list res \<Rightarrow> 'a list res" where
  "appendE a b = bindE a (\<lambda>xs. bindE b (\<lambda>ys. Inr (xs @ ys)))"

text \<open>\<open>for x in xs: ...\<close>, where the body appends to a list.\<close>

primrec collectE :: "('a \<Rightarrow> 'b list res) \<Rightarrow> 'a list \<Rightarrow> 'b list res" where
  "collectE f [] = Inr []"
| "collectE f (x # xs) = appendE (f x) (collectE f xs)"

primrec mapE :: "('a \<Rightarrow> 'b res) \<Rightarrow> 'a list \<Rightarrow> 'b list res" where
  "mapE f [] = Inr []"
| "mapE f (x # xs) = bindE (f x) (\<lambda>y. bindE (mapE f xs) (\<lambda>ys. Inr (y # ys)))"

text \<open>\<open>next((x for x in xs if p(x)), None)\<close>: stops at the first hit.\<close>

primrec findE :: "('a \<Rightarrow> bool res) \<Rightarrow> 'a list \<Rightarrow> 'a option res" where
  "findE p [] = Inr None"
| "findE p (x # xs) = bindE (p x) (\<lambda>b. if b then Inr (Some x) else findE p xs)"

text \<open>\<open>sorted(set(reasons))\<close> on strings.\<close>

definition sorted_set :: "string list \<Rightarrow> string list" where
  "sorted_set xs = sort (remdups xs)"

section \<open>Reading results\<close>

named_theorems res_defs "definitions of the result combinators"
named_theorems res_iff "what a successful composed result says of its parts"

lemmas [res_defs] = bindE_def orE_def andE_def negE_def flagE_def appendE_def
  throw_def throw_msg_def

lemma throw_simps [simp]:
  "throw c \<noteq> Inr x" "throw_msg c m \<noteq> Inr x" "Inr x \<noteq> throw c" "Inr x \<noteq> throw_msg c m"
  by (simp_all add: throw_def throw_msg_def)

lemma bindE_simps [simp]:
  "bindE (Inr x) f = f x" "bindE (Inl e) f = Inl e"
  "bindE (throw c) f = throw c" "bindE (throw_msg c m) f = throw_msg c m"
  by (simp_all add: res_defs)

lemma bindE_Inr_iff [res_iff]: "bindE m f = Inr y \<longleftrightarrow> (\<exists>x. m = Inr x \<and> f x = Inr y)"
  by (cases m) (auto simp: bindE_def)

lemma bindE_Inl_iff: "bindE m f = Inl e \<longleftrightarrow> m = Inl e \<or> (\<exists>x. m = Inr x \<and> f x = Inl e)"
  by (cases m) (auto simp: bindE_def)

lemma bindE_assoc: "bindE (bindE m f) g = bindE m (\<lambda>x. bindE (f x) g)"
  by (cases m) simp_all

lemma orE_simps [simp]: "orE (Inr True) b = Inr True" "orE (Inr False) b = b"
  "orE (Inl e) b = Inl e"
  by (simp_all add: orE_def)

lemma andE_simps [simp]: "andE (Inr True) b = b" "andE (Inr False) b = Inr False"
  "andE (Inl e) b = Inl e"
  by (simp_all add: andE_def)

lemma negE_simps [simp]: "negE (Inr b) = Inr (\<not> b)" "negE (Inl e) = Inl e"
  by (simp_all add: negE_def)

lemma orE_False_iff [res_iff]: "orE a b = Inr False \<longleftrightarrow> a = Inr False \<and> b = Inr False"
  by (cases a) (auto simp: orE_def)

lemma orE_True_iff [res_iff]:
  "orE a b = Inr True \<longleftrightarrow> a = Inr True \<or> (a = Inr False \<and> b = Inr True)"
  by (cases a) (auto simp: orE_def)

lemma andE_True_iff [res_iff]: "andE a b = Inr True \<longleftrightarrow> a = Inr True \<and> b = Inr True"
  by (cases a) (auto simp: andE_def)

lemma andE_False_iff [res_iff]:
  "andE a b = Inr False \<longleftrightarrow> a = Inr False \<or> (a = Inr True \<and> b = Inr False)"
  by (cases a) (auto simp: andE_def)

lemma negE_iff [res_iff]: "negE a = Inr b \<longleftrightarrow> a = Inr (\<not> b)"
  by (cases a) auto

lemma flag_simps [simp]: "flag True s = [s]" "flag False s = []" "flag c s = [] \<longleftrightarrow> \<not> c"
  by (simp_all add: flag_def)

lemma set_flag [simp]: "set (flag c s) = (if c then {s} else {})"
  by (simp add: flag_def)

lemma flagE_Nil_iff [res_iff]: "flagE c s = Inr [] \<longleftrightarrow> c = Inr False"
  by (cases c) (auto simp: flagE_def)

lemma flagE_simps [simp]: "flagE (Inr b) s = Inr (flag b s)" "flagE (Inl e) s = Inl e"
  by (simp_all add: flagE_def)

lemma appendE_simps [simp]: "appendE (Inr xs) (Inr ys) = Inr (xs @ ys)"
  "appendE (Inl e) b = Inl e" "appendE (Inr xs) (Inl e) = Inl e"
  by (simp_all add: appendE_def)

lemma appendE_Nil_iff [res_iff]: "appendE a b = Inr [] \<longleftrightarrow> a = Inr [] \<and> b = Inr []"
  by (cases a; cases b) (auto simp: appendE_def)

lemma collectE_Nil_iff [res_iff]: "collectE f xs = Inr [] \<longleftrightarrow> (\<forall>x\<in>set xs. f x = Inr [])"
  by (induction xs) (simp_all add: appendE_Nil_iff)

lemma findE_Some: "findE p xs = Inr (Some x) \<Longrightarrow> x \<in> set xs \<and> p x = Inr True"
  by (induction xs) (auto simp: bindE_Inr_iff split: if_splits)

lemma findE_None: "findE p xs = Inr None \<Longrightarrow> x \<in> set xs \<Longrightarrow> p x = Inr False"
  by (induction xs) (auto simp: bindE_Inr_iff split: if_splits)

lemma findE_first:
  "findE p xs = Inr (Some x) \<Longrightarrow>
     \<exists>ys zs. xs = ys @ x # zs \<and> p x = Inr True \<and> (\<forall>y\<in>set ys. p y = Inr False)"
proof (induction xs)
  case Nil
  then show ?case by simp
next
  case (Cons a xs)
  then obtain b where b: "p a = Inr b" by (auto simp: bindE_Inr_iff)
  show ?case
  proof (cases b)
    case True
    with b Cons.prems have "a # xs = [] @ x # xs" "p x = Inr True" by simp_all
    then show ?thesis by fastforce
  next
    case False
    with b Cons.prems have "findE p xs = Inr (Some x)" by simp
    from Cons.IH [OF this] obtain ys zs where
      "xs = ys @ x # zs" "p x = Inr True" "\<forall>y\<in>set ys. p y = Inr False" by blast
    with b False have "a # xs = (a # ys) @ x # zs" "\<forall>y\<in>set (a # ys). p y = Inr False"
      by simp_all
    with \<open>p x = Inr True\<close> show ?thesis by blast
  qed
qed

lemma mapE_Inr_iff: "mapE f xs = Inr ys \<longleftrightarrow> list_all2 (\<lambda>x y. f x = Inr y) xs ys"
  by (induction xs arbitrary: ys) (auto simp: bindE_Inr_iff list_all2_Cons1)

lemma mapE_length: "mapE f xs = Inr ys \<Longrightarrow> length ys = length xs"
  by (simp add: mapE_Inr_iff list_all2_lengthD)

lemma mapE_member: "mapE f xs = Inr ys \<Longrightarrow> y \<in> set ys \<Longrightarrow> \<exists>x\<in>set xs. f x = Inr y"
  by (induction xs arbitrary: ys) (auto simp: bindE_Inr_iff)

section \<open>Sorted sets of reasons\<close>

lemma set_sorted_set [simp]: "set (sorted_set xs) = set xs"
  by (simp add: sorted_set_def)

lemma sorted_set_Nil_iff [simp]: "sorted_set xs = [] \<longleftrightarrow> xs = []"
proof
  assume "sorted_set xs = []"
  then have "set (sorted_set xs) = {}" by simp
  then show "xs = []" by simp
qed (simp add: sorted_set_def)

lemma sorted_sorted_set: "sorted (sorted_set xs)"
  by (simp add: sorted_set_def)

lemma distinct_sorted_set: "distinct (sorted_set xs)"
  by (simp add: sorted_set_def)

lemma sorted_set_cong: "set xs = set ys \<Longrightarrow> sorted_set xs = sorted_set ys"
  by (intro sorted_distinct_set_unique) (auto simp: sorted_set_def)

section \<open>Association lists\<close>

text \<open>Python's \<open>d[k] = v\<close> on an insertion-ordered dict.\<close>

fun dict_set :: "'k \<Rightarrow> 'v \<Rightarrow> ('k \<times> 'v) list \<Rightarrow> ('k \<times> 'v) list" where
  "dict_set k v [] = [(k, v)]"
| "dict_set k v ((k', v') # d) = (if k = k' then (k, v) # d else (k', v') # dict_set k v d)"

lemma map_of_dict_set [simp]: "map_of (dict_set k v d) = (map_of d)(k \<mapsto> v)"
  by (induction d) auto

lemma keys_dict_set: "set (map fst (dict_set k v d)) = insert k (set (map fst d))"
  by (simp flip: dom_map_of_conv_image_fst)

lemma distinct_dict_set:
  "distinct (map fst d) \<Longrightarrow> distinct (map fst (dict_set k v d))"
proof (induction d)
  case (Cons p d)
  obtain k' v' where p: "p = (k', v')" by (cases p)
  have "k' \<notin> set (map fst (dict_set k v d))" if "k \<noteq> k'"
    unfolding keys_dict_set using Cons.prems that by (simp add: p)
  with Cons show ?case by (simp add: p)
qed simp

text \<open>A dict without one of its keys.\<close>

definition without_key :: "'k \<Rightarrow> ('k \<times> 'v) list \<Rightarrow> ('k \<times> 'v) list" where
  "without_key k d = filter (\<lambda>(k', _). k' \<noteq> k) d"

lemma map_of_without: "k \<noteq> k' \<Longrightarrow> map_of (without_key k' d) k = map_of d k"
  by (induction d) (auto simp: without_key_def)

lemma distinct_without: "distinct (map fst d) \<Longrightarrow> distinct (map fst (without_key k d))"
  by (induction d) (auto simp: without_key_def)

lemma size_map_of: "map_of d k = Some v \<Longrightarrow> size v < Suc (size_list (size_prod (\<lambda>_. 0) size) d)"
  by (induction d) (auto split: if_splits)

end
