(* ===== verification/PyValue.thy ===== *)
theory PyValue
  imports Prelude Complex_Main
begin

text \<open>
  The untyped Python values the program reads out of JSON documents (the manifest, the
  authority context, payloads, policy-version lists) and the operators it applies to them,
  with the exceptions each operator raises. A Python \<open>str\<close> is held as its UTF-8 bytes, so
  that equality, code-point order, \<open>startswith\<close>, substring and \<open>encode("utf-8")\<close> are those
  of the list of bytes; floats are finite and held by their exact rational value (the
  program's commitments reject NaN and infinities); dict keys are strings, as in every JSON
  document. The record \<open>prims\<close> holds the primitives of the Python runtime that are not
  defined here: the digest, number and ISO-8601 parsing and printing, the local time zone,
  the \<open>repr\<close> of containers (and of strings, in messages), and the two sources of nondeterminism, \<open>uuid.uuid4\<close> and the
  system clock, each as a sequence of answers.
\<close>

section \<open>Values\<close>

datatype pyval =
    PNone
  | PBool bool
  | PInt int
  | PFloat rat
  | PStr string
  | PList "pyval list"
  | PDict "(string \<times> pyval) list"

type_synonym pydict = "(string \<times> pyval) list"

datatype pydatetime = Naive int | Aware int
  \<comment> \<open>microseconds since the epoch: of the wall clock, or of the instant in UTC\<close>

record prims =
  sha256_hex :: "string \<Rightarrow> string"
  float_repr :: "rat \<Rightarrow> string"
  parse_int :: "string \<Rightarrow> int option"
  parse_float :: "string \<Rightarrow> rat option"
  fromisoformat :: "string \<Rightarrow> pydatetime option"
  isoformat_utc :: "int \<Rightarrow> string"
  local_to_utc :: "int \<Rightarrow> int"
  container_repr :: "pyval \<Rightarrow> string"
  uuid4 :: "nat \<Rightarrow> string"
  clock :: "nat \<Rightarrow> int"

section \<open>Well-formed values\<close>

text \<open>A dict has each key once, at every depth.\<close>

fun wf_pyval :: "pyval \<Rightarrow> bool" where
  "wf_pyval (PList xs) = list_all wf_pyval xs"
| "wf_pyval (PDict d) = (distinct (map fst d) \<and> list_all (\<lambda>(k, v). wf_pyval v) d)"
| "wf_pyval _ = True"

section \<open>Equality and truth\<close>

fun num_of :: "pyval \<Rightarrow> rat option" where
  "num_of (PBool b) = Some (if b then 1 else 0)"
| "num_of (PInt n) = Some (of_int n)"
| "num_of (PFloat q) = Some q"
| "num_of _ = None"

text \<open>
  Python's \<open>==\<close>: \<open>True == 1 == 1.0\<close>, lists pointwise, dicts by their items whatever the
  insertion order.
\<close>

function py_eq :: "pyval \<Rightarrow> pyval \<Rightarrow> bool" where
  "py_eq PNone w = (w = PNone)"
| "py_eq (PStr s) w = (w = PStr s)"
| "py_eq (PBool b) w = (num_of w = num_of (PBool b))"
| "py_eq (PInt n) w = (num_of w = num_of (PInt n))"
| "py_eq (PFloat q) w = (num_of w = num_of (PFloat q))"
| "py_eq (PList xs) w = (case w of
      PList ys \<Rightarrow> length xs = length ys \<and> list_all (\<lambda>(x, y). py_eq x y) (zip xs ys)
    | _ \<Rightarrow> False)"
| "py_eq (PDict d) w = (case w of
      PDict e \<Rightarrow> length d = length e \<and>
        list_all (\<lambda>(k, v). case map_of e k of None \<Rightarrow> False | Some v' \<Rightarrow> py_eq v v') d
    | _ \<Rightarrow> False)"
  by pat_completeness auto
termination
proof (relation "measure (\<lambda>(v, w). size v)", goal_cases)
  case (2 xs w ys z x y)
  then have "x \<in> set xs" by (auto dest: set_zip_leftD)
  then have "size x < Suc (size_list size xs)"
    by (metis less_Suc_eq_le size_list_estimation' order_refl)
  then show ?case by simp
next
  case (3 d w e z k v v')
  then obtain k' where "(k', v) \<in> set d" by blast
  then have "size v < Suc (size_list (size_prod (\<lambda>_. 0) size) d)"
    by (induction d) auto
  then show ?case by simp
qed simp

lemma py_eq_PStr_right [simp]: "py_eq v (PStr s) \<longleftrightarrow> v = PStr s"
  by (cases v) auto

lemma py_eq_PNone_right [simp]: "py_eq v PNone \<longleftrightarrow> v = PNone"
  by (cases v) auto

lemma py_eq_refl: "wf_pyval v \<Longrightarrow> py_eq v v"
proof (induction v)
  case (PList xs)
  then show ?case
    by (auto simp: list_all_iff set_zip)
next
  case (PDict d)
  have "map_of d k = Some v" if "(k, v) \<in> set d" for k v
    using PDict.prems that by simp
  with PDict show ?case
    by (fastforce simp: list_all_iff)
qed simp_all

fun truthy :: "pyval \<Rightarrow> bool" where
  "truthy PNone = False"
| "truthy (PBool b) = b"
| "truthy (PInt n) = (n \<noteq> 0)"
| "truthy (PFloat q) = (q \<noteq> 0)"
| "truthy (PStr s) = (s \<noteq> [])"
| "truthy (PList xs) = (xs \<noteq> [])"
| "truthy (PDict d) = (d \<noteq> [])"

text \<open>\<open>x or y\<close>\<close>

definition py_or :: "pyval \<Rightarrow> pyval \<Rightarrow> pyval" where
  "py_or v w = (if truthy v then v else w)"

lemma py_or_simps [simp]: "truthy v \<Longrightarrow> py_or v w = v" "\<not> truthy v \<Longrightarrow> py_or v w = w"
  by (simp_all add: py_or_def)

section \<open>Dictionaries\<close>

text \<open>\<open>d.get(k, default)\<close> on a known dict, \<open>v.get(k, default)\<close> on any value, and \<open>v[k]\<close>.\<close>

definition dget_or :: "pydict \<Rightarrow> string \<Rightarrow> pyval \<Rightarrow> pyval" where
  "dget_or d k w = (case map_of d k of None \<Rightarrow> w | Some v \<Rightarrow> v)"

abbreviation dget :: "pydict \<Rightarrow> string \<Rightarrow> pyval" where
  "dget d k \<equiv> dget_or d k PNone"

definition ditem :: "pydict \<Rightarrow> string \<Rightarrow> pyval res" where
  "ditem d k = (case map_of d k of None \<Rightarrow> throw KeyError | Some v \<Rightarrow> Inr v)"

definition vget_or :: "pyval \<Rightarrow> string \<Rightarrow> pyval \<Rightarrow> pyval res" where
  "vget_or v k w = (case v of PDict d \<Rightarrow> Inr (dget_or d k w) | _ \<Rightarrow> throw AttributeError)"

abbreviation vget :: "pyval \<Rightarrow> string \<Rightarrow> pyval res" where
  "vget v k \<equiv> vget_or v k PNone"

definition vitem :: "pyval \<Rightarrow> string \<Rightarrow> pyval res" where
  "vitem v k = (case v of PDict d \<Rightarrow> ditem d k | _ \<Rightarrow> throw TypeError)"

lemma vget_PDict [simp]: "vget_or (PDict d) k w = Inr (dget_or d k w)"
  by (simp add: vget_or_def)

lemma vitem_PDict [simp]: "vitem (PDict d) k = ditem d k"
  by (simp add: vitem_def)

lemma vget_Inr_iff: "vget_or v k w = Inr x \<longleftrightarrow> (\<exists>d. v = PDict d \<and> x = dget_or d k w)"
  by (cases v) (auto simp: vget_or_def)

lemma vitem_Inr_iff: "vitem v k = Inr x \<longleftrightarrow> (\<exists>d. v = PDict d \<and> map_of d k = Some x)"
  by (cases v) (auto simp: vitem_def ditem_def split: option.splits)

lemma ditem_Inr_iff: "ditem d k = Inr x \<longleftrightarrow> map_of d k = Some x"
  by (auto simp: ditem_def split: option.splits)

lemma ditem_dget: "ditem d k = Inr x \<Longrightarrow> dget_or d k w = x"
  by (auto simp: ditem_Inr_iff dget_or_def)

lemma vitem_vget: "vitem v k = Inr x \<Longrightarrow> vget_or v k w = Inr x"
  by (auto simp: vitem_Inr_iff dget_or_def)

section \<open>Iteration, membership, sets\<close>

text \<open>
  \<open>for x in v\<close>: a list's elements, a dict's keys. Iterating a string would give its
  characters: one-character strings, here the UTF-8 sequences of its code points.
\<close>

definition utf8_cont :: "char \<Rightarrow> bool" where
  "utf8_cont c = (128 \<le> (of_char c :: nat) \<and> (of_char c :: nat) < 192)"

function utf8_chars :: "string \<Rightarrow> string list" where
  "utf8_chars [] = []"
| "utf8_chars (c # cs) = (c # takeWhile utf8_cont cs) # utf8_chars (dropWhile utf8_cont cs)"
  by pat_completeness auto
termination
  by (relation "measure length") (auto simp: length_dropWhile_le le_imp_less_Suc)

definition py_iter :: "pyval \<Rightarrow> pyval list res" where
  "py_iter v = (case v of
      PList xs \<Rightarrow> Inr xs
    | PDict d \<Rightarrow> Inr (map (\<lambda>(k, _). PStr k) d)
    | PStr s \<Rightarrow> Inr (map PStr (utf8_chars s))
    | _ \<Rightarrow> throw TypeError)"

lemma py_iter_PList [simp]: "py_iter (PList xs) = Inr xs"
  by (simp add: py_iter_def)

definition hashable :: "pyval \<Rightarrow> bool" where
  "hashable v = (case v of PList _ \<Rightarrow> False | PDict _ \<Rightarrow> False | _ \<Rightarrow> True)"

lemma hashable_PStr [simp]: "hashable (PStr s)"
  by (simp add: hashable_def)

text \<open>\<open>set(v)\<close>, as a list of its elements; unhashable elements raise.\<close>

definition py_set :: "pyval \<Rightarrow> pyval list res" where
  "py_set v = bindE (py_iter v)
     (\<lambda>xs. if list_all hashable xs then Inr xs else throw TypeError)"

definition py_mem :: "pyval \<Rightarrow> pyval list \<Rightarrow> bool" where
  "py_mem x xs = list_ex (py_eq x) xs"

lemma py_mem_PStr [simp]: "py_mem (PStr s) xs \<longleftrightarrow> PStr s \<in> set xs"
  by (auto simp: py_mem_def list_ex_iff)

fun starts_with :: "string \<Rightarrow> string \<Rightarrow> bool" where
  "starts_with [] s = True"
| "starts_with (p # ps) [] = False"
| "starts_with (p # ps) (c # s) = (p = c \<and> starts_with ps s)"

lemma starts_with_iff: "starts_with p s \<longleftrightarrow> (\<exists>r. s = p @ r)"
  by (induction p s rule: starts_with.induct) auto

fun has_substr :: "string \<Rightarrow> string \<Rightarrow> bool" where
  "has_substr t [] = (t = [])"
| "has_substr t (c # s) = (starts_with t (c # s) \<or> has_substr t s)"

text \<open>\<open>x in v\<close>\<close>

definition py_in :: "pyval \<Rightarrow> pyval \<Rightarrow> bool res" where
  "py_in x v = (case v of
      PList xs \<Rightarrow> Inr (py_mem x xs)
    | PDict d \<Rightarrow> if hashable x then Inr (py_mem x (map (\<lambda>(k, _). PStr k) d)) else throw TypeError
    | PStr s \<Rightarrow> (case x of PStr t \<Rightarrow> Inr (has_substr t s) | _ \<Rightarrow> throw TypeError)
    | _ \<Rightarrow> throw TypeError)"

lemma py_in_PList [simp]: "py_in x (PList xs) = Inr (py_mem x xs)"
  by (simp add: py_in_def)

section \<open>Numbers\<close>

text \<open>
  \<open>float(n)\<close> of an int rounds to the nearest double, ties to even, and overflows beyond
  the range of doubles. Below \<open>2^53\<close> it is exact.
\<close>

function int_exp :: "int \<Rightarrow> nat" where
  \<comment> \<open>how many low bits of a magnitude do not fit in 53\<close>
  "int_exp a = (if a < 2 ^ 53 then 0 else Suc (int_exp (a div 2)))"
  by pat_completeness auto
termination by (relation "measure nat") auto

declare int_exp.simps [simp del]

definition round53 :: "int \<Rightarrow> int" where
  "round53 a = (let e = int_exp a; q = a div 2 ^ e; r = a mod 2 ^ e
     in if e = 0 then a
        else if 2 * r > 2 ^ e \<or> (2 * r = 2 ^ e \<and> odd q) then (q + 1) * 2 ^ e else q * 2 ^ e)"

definition float_of_int :: "int \<Rightarrow> rat res" where
  "float_of_int n = (let m = round53 \<bar>n\<bar>
     in if m < 2 ^ 1024 then Inr (of_int (sgn n * m)) else throw OverflowError)"

lemma float_of_int_exact:
  assumes "\<bar>n\<bar> < 2 ^ 53"
  shows "float_of_int n = Inr (of_int n)"
proof -
  have "int_exp \<bar>n\<bar> = 0"
    using assms by (subst int_exp.simps) simp
  then have m: "round53 \<bar>n\<bar> = \<bar>n\<bar>" by (simp add: round53_def)
  have "(2::int) ^ 53 \<le> 2 ^ 1024" by (rule power_increasing) auto
  with assms have "\<bar>n\<bar> < 2 ^ 1024" by linarith
  then show ?thesis
    by (simp add: float_of_int_def m Let_def sgn_mult_abs del: power_numeral)
qed

text \<open>\<open>float(v)\<close> and \<open>int(v)\<close>; \<open>int\<close> truncates a float towards zero.\<close>

definition trunc :: "rat \<Rightarrow> int" where
  "trunc q = (if 0 \<le> q then \<lfloor>q\<rfloor> else \<lceil>q\<rceil>)"

definition py_float :: "prims \<Rightarrow> pyval \<Rightarrow> rat res" where
  "py_float P v = (case v of
      PFloat q \<Rightarrow> Inr q
    | PInt n \<Rightarrow> float_of_int n
    | PBool b \<Rightarrow> Inr (if b then 1 else 0)
    | PStr s \<Rightarrow> (case parse_float P s of Some q \<Rightarrow> Inr q | None \<Rightarrow> throw ValueError)
    | _ \<Rightarrow> throw TypeError)"

definition py_int :: "prims \<Rightarrow> pyval \<Rightarrow> int res" where
  "py_int P v = (case v of
      PInt n \<Rightarrow> Inr n
    | PBool b \<Rightarrow> Inr (if b then 1 else 0)
    | PFloat q \<Rightarrow> Inr (trunc q)
    | PStr s \<Rightarrow> (case parse_int P s of Some n \<Rightarrow> Inr n | None \<Rightarrow> throw ValueError)
    | _ \<Rightarrow> throw TypeError)"

lemma py_int_PInt [simp]: "py_int P (PInt n) = Inr n"
  by (simp add: py_int_def)

lemma py_float_PFloat [simp]: "py_float P (PFloat q) = Inr q"
  by (simp add: py_float_def)

section \<open>Sorting raw values\<close>

text \<open>
  \<open>a < b\<close> on raw values: strings by code point, numbers by value; anything else (and a mix)
  raises. \<open>sorted(v)\<close> of fewer than two elements compares nothing.
\<close>

definition all_str :: "pyval list \<Rightarrow> bool" where
  "all_str xs = list_all (\<lambda>v. case v of PStr _ \<Rightarrow> True | _ \<Rightarrow> False) xs"

definition all_num :: "pyval list \<Rightarrow> bool" where
  "all_num xs = list_all (\<lambda>v. num_of v \<noteq> None) xs"

fun str_of :: "pyval \<Rightarrow> string" where
  "str_of (PStr s) = s"
| "str_of _ = ''''"

definition py_sorted :: "pyval \<Rightarrow> pyval list res" where
  "py_sorted v = bindE (py_iter v) (\<lambda>xs.
     if length xs < 2 then Inr xs
     else if all_str xs then Inr (map PStr (sort (map str_of xs)))
     else if all_num xs then Inr (sort_key (\<lambda>x. the (num_of x)) xs)
     else throw TypeError)"

section \<open>Text\<close>

text \<open>Decimal digits of an integer, \<open>str(v)\<close>, and the message-free \<open>isinstance(v, str)\<close>.\<close>

fun digits_nat :: "nat \<Rightarrow> string" where
  "digits_nat n = (if n < 10 then [char_of (48 + n)] else digits_nat (n div 10) @ [char_of (48 + n mod 10)])"

declare digits_nat.simps [simp del]

definition digits_int :: "int \<Rightarrow> string" where
  "digits_int n = (if n < 0 then CHR ''-'' # digits_nat (nat (- n)) else digits_nat (nat n))"

definition py_str :: "prims \<Rightarrow> pyval \<Rightarrow> string" where
  "py_str P v = (case v of
      PNone \<Rightarrow> ''None''
    | PBool b \<Rightarrow> (if b then ''True'' else ''False'')
    | PInt n \<Rightarrow> digits_int n
    | PFloat q \<Rightarrow> float_repr P q
    | PStr s \<Rightarrow> s
    | _ \<Rightarrow> container_repr P v)"

lemma py_str_PStr [simp]: "py_str P (PStr s) = s"
  by (simp add: py_str_def)

text \<open>
  Pydantic's \<open>str\<close> field: a string is accepted, anything else is a validation error; and its
  \<open>list[dict]\<close> field.
\<close>

definition expect_str :: "pyval \<Rightarrow> string res" where
  "expect_str v = (case v of PStr s \<Rightarrow> Inr s | _ \<Rightarrow> throw ValidationError)"

definition expect_dict :: "pyval \<Rightarrow> pydict res" where
  "expect_dict v = (case v of PDict d \<Rightarrow> Inr d | _ \<Rightarrow> throw ValidationError)"

definition expect_dict_list :: "pyval \<Rightarrow> pydict list res" where
  "expect_dict_list v = (case v of PList xs \<Rightarrow> mapE expect_dict xs | _ \<Rightarrow> throw ValidationError)"

lemma expect_str_Inr_iff [res_iff]: "expect_str v = Inr s \<longleftrightarrow> v = PStr s"
  by (cases v) (auto simp: expect_str_def)

lemma expect_dict_Inr_iff [res_iff]: "expect_dict v = Inr d \<longleftrightarrow> v = PDict d"
  by (cases v) (auto simp: expect_dict_def)

lemma expect_dict_list_Inr_iff: "expect_dict_list v = Inr ds \<longleftrightarrow> v = PList (map PDict ds)"
proof -
  have "list_all2 (\<lambda>x y. x = PDict y) xs ds \<longleftrightarrow> xs = map PDict ds" for xs
    by (induction xs arbitrary: ds) (auto simp: list_all2_Cons1 Cons_eq_map_conv)
  then show ?thesis
    by (cases v) (auto simp: expect_dict_list_def mapE_Inr_iff expect_dict_Inr_iff)
qed

text \<open>Whether \<open>s.strip()\<close> is empty: the white space of Python's \<open>str.strip\<close>, in UTF-8.\<close>

definition ws_bytes :: "nat list list" where
  "ws_bytes = map (\<lambda>n. [n]) [9, 10, 11, 12, 13, 28, 29, 30, 31, 32] @
     [[194, 133], [194, 160], [225, 154, 128]] @
     map (\<lambda>n. [226, 128, n]) ([128 ..< 139] @ [168, 169, 175]) @
     [[226, 129, 159], [227, 128, 128]]"

function blank :: "string \<Rightarrow> bool" where
  "blank s = (if s = [] then True
     else (case List.find (\<lambda>w. starts_with (map char_of w) s) ws_bytes of
        None \<Rightarrow> False
      | Some w \<Rightarrow> blank (drop (length w) s)))"
  by pat_completeness auto
termination
proof (relation "measure length", goal_cases)
  case (2 s w)
  then have "w \<in> set ws_bytes" by (metis find_Some_iff nth_mem)
  then have "length w > 0" by (auto simp: ws_bytes_def)
  with 2 show ?case by simp
qed simp

declare blank.simps [simp del]

lemma blank_Nil [simp]: "blank []"
  by (simp add: blank.simps)

lemma not_blank:
  assumes "33 \<le> (of_char c :: nat)" "(of_char c :: nat) \<le> 126"
  shows "\<not> blank (c # cs)"
proof -
  have ws: "\<forall>w\<in>set ws_bytes. w \<noteq> [] \<and> (hd w < 33 \<or> 126 < hd w) \<and> hd w < 256"
    by (simp add: ws_bytes_def)
  have "\<not> starts_with (map char_of w) (c # cs)" if "w \<in> set ws_bytes" for w
  proof
    assume "starts_with (map char_of w) (c # cs)"
    with ws that have "char_of (hd w) = c" by (cases w) auto
    then have "(of_char c :: nat) = hd w mod 256" by (metis of_char_of)
    with ws that assms show False by auto
  qed
  then have "List.find (\<lambda>w. starts_with (map char_of w) (c # cs)) ws_bytes = None"
    by (simp add: find_None_iff)
  then show ?thesis by (subst blank.simps) simp
qed

text \<open>\<open>s.strip()\<close>: no white space left at either end.\<close>

function trim :: "string list \<Rightarrow> string \<Rightarrow> string" where
  "trim ws s = (case List.find (\<lambda>w. w \<noteq> [] \<and> starts_with w s) ws of
      None \<Rightarrow> s
    | Some w \<Rightarrow> trim ws (drop (length w) s))"
  by pat_completeness auto
termination
proof (relation "measure (\<lambda>(ws, s). length s)", goal_cases)
  case (2 ws s w)
  then have "w \<noteq> [] \<and> starts_with w s" by (auto simp: find_Some_iff)
  then show ?case by (cases w; cases s) auto
qed simp

declare trim.simps [simp del]

definition strip :: "string \<Rightarrow> string" where
  "strip s = (let ws = map (map char_of) ws_bytes in rev (trim (map rev ws) (rev (trim ws s))))"

lemma strip_Nil [simp]: "strip [] = []"
  by (simp add: strip_def Let_def trim.simps ws_bytes_def)

text \<open>Text with printable ends is not changed.\<close>

definition printable :: "char \<Rightarrow> bool" where
  "printable c = (33 \<le> (of_char c :: nat) \<and> (of_char c :: nat) \<le> 126)"

lemma trim_stop:
  assumes "printable c" "\<forall>w\<in>set ws. w = [] \<or> \<not> printable (hd w)"
  shows "trim ws (c # cs) = c # cs"
proof -
  have "\<not> (w \<noteq> [] \<and> starts_with w (c # cs))" if "w \<in> set ws" for w
    using assms that by (cases w) auto
  then have "List.find (\<lambda>w. w \<noteq> [] \<and> starts_with w (c # cs)) ws = None"
    by (simp add: find_None_iff)
  then show ?thesis by (subst trim.simps) simp
qed

lemma strip_plain:
  assumes "printable c" "printable (last (c # cs))"
  shows "strip (c # cs) = c # cs"
proof -
  have "trim (map (map char_of) ws_bytes) (c # cs) = c # cs"
    by (rule trim_stop [OF assms(1)]) (simp add: ws_bytes_def printable_def)
  moreover have "trim (map rev (map (map char_of) ws_bytes)) (last (c # cs) # rev (butlast (c # cs))) =
      last (c # cs) # rev (butlast (c # cs))"
    by (rule trim_stop [OF assms(2)]) (simp add: ws_bytes_def printable_def)
  moreover have "rev (c # cs) = last (c # cs) # rev (butlast (c # cs))"
    by (metis append_butlast_last_id list.distinct(1) rev.simps(2) rev_rev_ident)
  ultimately show ?thesis
    by (simp only: strip_def Let_def) (metis append_butlast_last_id list.distinct(1) rev.simps(2) rev_rev_ident)
qed

text \<open>ASCII lower case. The other characters whose lower case holds an ASCII letter give an i or a k.\<close>

definition lower_char :: "char \<Rightarrow> char" where
  "lower_char c = (if 65 \<le> (of_char c :: nat) \<and> (of_char c :: nat) \<le> 90 then char_of ((of_char c :: nat) + 32) else c)"

end
