(* ===== verification/PyTime.thy ===== *)
theory PyTime
  imports PyValue
begin

text \<open>
  Time as \<open>bounded.py\<close> uses it (\<open>_now\<close>, \<open>_iso\<close>, \<open>_parse\<close>, \<open>_fresh\<close>). An instant is a
  number of microseconds since the epoch in UTC. A naive datetime compared with an aware one
  raises \<open>TypeError\<close>. \<open>total_seconds()\<close> is compared exactly: the rounding of its float
  result cannot change a comparison with an integer below \<open>2^33\<close> seconds.
\<close>

definition replace_Z :: "string \<Rightarrow> string" where
  "replace_Z s = concat (map (\<lambda>c. if c = CHR ''Z'' then ''+00:00'' else [c]) s)"

text \<open>\<open>_parse\<close>: malformed text raises, a naive time is read as UTC.\<close>

definition parse_time :: "prims \<Rightarrow> string \<Rightarrow> int res" where
  "parse_time P s = (case fromisoformat P (replace_Z s) of
      None \<Rightarrow> throw ValueError
    | Some (Naive t) \<Rightarrow> Inr t
    | Some (Aware t) \<Rightarrow> Inr t)"

text \<open>\<open>_parse\<close> on a value read from a document: only a string has \<open>replace\<close>.\<close>

definition parse_value :: "prims \<Rightarrow> pyval \<Rightarrow> int res" where
  "parse_value P v = (case v of PStr s \<Rightarrow> parse_time P s | _ \<Rightarrow> throw AttributeError)"

lemma parse_value_PStr [simp]: "parse_value P (PStr s) = parse_time P s"
  by (simp add: parse_value_def)

definition to_utc :: "prims \<Rightarrow> pydatetime \<Rightarrow> int" where
  "to_utc P d = (case d of Aware t \<Rightarrow> t | Naive t \<Rightarrow> local_to_utc P t)"

definition iso :: "prims \<Rightarrow> pydatetime \<Rightarrow> string" where
  "iso P d = isoformat_utc P (to_utc P d)"

text \<open>The instant of a datetime that is compared with an aware one.\<close>

definition instant :: "pydatetime \<Rightarrow> int res" where
  "instant d = (case d of Aware t \<Rightarrow> Inr t | Naive _ \<Rightarrow> throw TypeError)"

lemma instant_Inr_iff [res_iff]: "instant d = Inr t \<longleftrightarrow> d = Aware t"
  by (cases d) (auto simp: instant_def)

lemma instant_Aware [simp]: "instant (Aware t) = Inr t"
  by (simp add: instant_def)

definition seconds :: "int \<Rightarrow> int" where
  "seconds n = n * 1000000"

lemma seconds_mono: "m \<le> n \<Longrightarrow> seconds m \<le> seconds n"
  by (simp add: seconds_def)

text \<open>\<open>_fresh\<close>: the tolerance is the workflow's \<open>clock_tolerance_seconds\<close>.\<close>

definition fresh :: "prims \<Rightarrow> int \<Rightarrow> string \<Rightarrow> pydatetime \<Rightarrow> int \<Rightarrow> bool res" where
  "fresh P tol observed_at now max_age =
     bindE (parse_time P observed_at) (\<lambda>observed.
     bindE (instant now) (\<lambda>t.
       Inr (if observed > t + seconds tol then False else t - observed \<le> seconds max_age)))"

text \<open>
  The time window a fresh observation lies in, and its shape independent of parsing.
\<close>

definition in_window :: "int \<Rightarrow> int \<Rightarrow> int \<Rightarrow> int \<Rightarrow> bool" where
  "in_window tol max_age observed t \<longleftrightarrow>
     t - seconds max_age \<le> observed \<and> observed \<le> t + seconds tol"

lemma fresh_True_iff [res_iff]:
  "fresh P tol s now a = Inr True \<longleftrightarrow>
     (\<exists>obs t. parse_time P s = Inr obs \<and> now = Aware t \<and> in_window tol a obs t)"
  by (cases "parse_time P s"; cases now) (auto simp: fresh_def in_window_def instant_def)

lemma fresh_window_moves:
  "in_window tol a obs t \<Longrightarrow> in_window tol a obs t' \<Longrightarrow> t \<le> u \<Longrightarrow> u \<le> t' \<Longrightarrow> in_window tol a obs u"
  by (simp add: in_window_def)

end
