(* ===== verification/CanonicalJson.thy ===== *)
theory CanonicalJson
  imports PyValue
begin

text \<open>
  Canonical bytes and commitments (\<open>_canonical_bytes\<close> and \<open>commitment\<close> of
  \<open>bounded.py\<close>, mirrored by \<open>decision_input_profile.py\<close>): \<open>json.dumps\<close> with sorted keys,
  compact separators and no ASCII escaping, encoded as UTF-8, and SHA-256 of it. The main
  result is that the canonical bytes determine the document up to the order of its keys, so
  that two documents with equal commitments are equal or collide under SHA-256.
\<close>

section \<open>The serialiser\<close>

definition hexdig :: "nat \<Rightarrow> char" where
  "hexdig n = (if n < 10 then char_of (48 + n) else char_of (87 + n))"

text \<open>One character of a JSON string under \<open>ensure_ascii=False\<close>.\<close>

definition esc_char :: "char \<Rightarrow> string" where
  "esc_char c =
     (if c = CHR 0x22 then [CHR 0x5C, CHR 0x22]
      else if c = CHR 0x5C then [CHR 0x5C, CHR 0x5C]
      else if c = CHR 0x0A then [CHR 0x5C, CHR ''n'']
      else if c = CHR 0x0D then [CHR 0x5C, CHR ''r'']
      else if c = CHR 0x09 then [CHR 0x5C, CHR ''t'']
      else if c = CHR 0x0C then [CHR 0x5C, CHR ''f'']
      else if c = CHR 0x08 then [CHR 0x5C, CHR ''b'']
      else if of_char c < (32 :: nat)
        then [CHR 0x5C, CHR ''u'', CHR ''0'', CHR ''0'', hexdig (of_char c div 16), hexdig (of_char c mod 16)]
      else [c])"

definition quoted :: "string \<Rightarrow> string" where
  "quoted s = CHR 0x22 # concat (map esc_char s) @ [CHR 0x22]"

fun commas :: "string list \<Rightarrow> string" where
  "commas [] = []"
| "commas [s] = s"
| "commas (s # t # ss) = s @ CHR '','' # commas (t # ss)"

text \<open>
  The serialiser with sorted keys and compact separators, for any way to print a string: the
  commitments of this theory print text as it is, signatures escape what is not ASCII.
\<close>

fun json_of :: "(string \<Rightarrow> string) \<Rightarrow> prims \<Rightarrow> pyval \<Rightarrow> string" where
  "json_of q P PNone = ''null''"
| "json_of q P (PBool b) = (if b then ''true'' else ''false'')"
| "json_of q P (PInt n) = digits_int n"
| "json_of q P (PFloat x) = float_repr P x"
| "json_of q P (PStr s) = q s"
| "json_of q P (PList xs) = CHR ''['' # commas (map (json_of q P) xs) @ '']''"
| "json_of q P (PDict d) = CHR ''{'' #
     commas (map (\<lambda>(k, s). q k @ CHR '':'' # s)
       (sort_key fst (map (\<lambda>(k, v). (k, json_of q P v)) d))) @ ''}''"

definition canonical_bytes :: "prims \<Rightarrow> pyval \<Rightarrow> string" where
  "canonical_bytes P v = json_of quoted P v"

definition commitment :: "prims \<Rightarrow> pyval \<Rightarrow> string" where
  "commitment P v = ''sha256:'' @ sha256_hex P (canonical_bytes P v)"

text \<open>The document with the keys of every dict sorted: what the bytes determine.\<close>

fun key_norm :: "pyval \<Rightarrow> pyval" where
  "key_norm (PList xs) = PList (map key_norm xs)"
| "key_norm (PDict d) = PDict (sort_key fst (map (\<lambda>(k, v). (k, key_norm v)) d))"
| "key_norm v = v"

section \<open>Key order\<close>

lemma insort_key_map_snd:
  "insort_key fst (k, f v) (map (\<lambda>(k, v). (k, f v)) xs) =
     map (\<lambda>(k, v). (k, f v)) (insort_key fst (k, v) xs)"
  by (induction xs) auto

lemma sort_key_map_snd:
  "sort_key fst (map (\<lambda>(k, v). (k, f v)) xs) = map (\<lambda>(k, v). (k, f v)) (sort_key fst xs)"
proof (induction xs)
  case (Cons x xs)
  then show ?case
    by (cases x) (simp add: sort_key_def insort_key_map_snd)
qed simp

lemma json_of_PDict:
  "json_of q P (PDict d) = CHR ''{'' #
     commas (map (\<lambda>(k, v). q k @ CHR '':'' # json_of q P v) (sort_key fst d)) @ ''}''"
proof -
  have "(\<lambda>(k, s). q k @ CHR '':'' # s) \<circ> (\<lambda>(k, v). (k, json_of q P v)) =
      (\<lambda>(k, v). q k @ CHR '':'' # json_of q P v)"
    by auto
  then show ?thesis by (simp add: sort_key_map_snd)
qed

lemma key_norm_PDict: "key_norm (PDict d) = PDict (map (\<lambda>(k, v). (k, key_norm v)) (sort_key fst d))"
  by (simp add: sort_key_map_snd)

lemma sort_key_distinct_unique:
  assumes "distinct (map fst d)" "distinct (map fst e)" "set d = set e"
  shows "sort_key fst d = sort_key fst (e :: (string \<times> 'a) list)"
proof (rule map_sorted_distinct_set_unique [of fst])
  show "inj_on fst (set (sort_key fst d) \<union> set (sort_key fst e))"
    using assms by (simp add: distinct_map)
  show "distinct (map fst (sort_key fst d))" "distinct (map fst (sort_key fst e))"
    using assms(1,2) by (simp_all add: distinct_map)
qed (use assms(3) in simp_all)

lemma key_norm_order:
  assumes "distinct (map fst d)" "distinct (map fst e)" "set d = set e"
  shows "key_norm (PDict d) = key_norm (PDict e)"
  by (simp only: key_norm_PDict sort_key_distinct_unique [OF assms])

section \<open>Escaping is a prefix code\<close>

text \<open>Decoding one escape sequence back.\<close>

definition hexval :: "char \<Rightarrow> nat" where
  "hexval c = (if of_char c < (58 :: nat) then of_char c - 48 else of_char c - 87)"

definition unescape :: "string \<Rightarrow> char \<times> string" where
  "unescape s = (if hd s \<noteq> CHR 0x5C then (hd s, tl s)
     else if s ! 1 = CHR ''u'' then (char_of (16 * hexval (s ! 4) + hexval (s ! 5)), drop 6 s)
     else (if s ! 1 = CHR ''n'' then CHR 0x0A else if s ! 1 = CHR ''r'' then CHR 0x0D
           else if s ! 1 = CHR ''t'' then CHR 0x09 else if s ! 1 = CHR ''f'' then CHR 0x0C
           else if s ! 1 = CHR ''b'' then CHR 0x08 else s ! 1, drop 2 s))"

lemma hexval_hexdig: "n < 16 \<Longrightarrow> hexval (hexdig n) = n"
  by (auto simp: hexdig_def hexval_def of_char_of)

lemma esc_char_neq_Nil [simp]: "esc_char c \<noteq> []"
  by (simp add: esc_char_def)

lemma esc_char_not_quote: "esc_char c @ x \<noteq> CHR 0x22 # y"
  by (simp add: esc_char_def)

lemma unescape_esc_char: "unescape (esc_char c @ x) = (c, x)"
proof -
  have "char_of (16 * (of_char c div 16) + of_char c mod 16 :: nat) = c" by simp
  moreover have "of_char c div 16 < (16 :: nat)"
    by (rule less_mult_imp_div_less) simp
  ultimately show ?thesis
    by (simp add: esc_char_def unescape_def hexval_hexdig)
qed

lemma esc_char_prefix: "esc_char c @ x = esc_char d @ y \<Longrightarrow> c = d \<and> x = y"
  by (metis Pair_inject unescape_esc_char)

lemma escapes_prefix:
  "concat (map esc_char s) @ CHR 0x22 # x = concat (map esc_char t) @ CHR 0x22 # y
     \<Longrightarrow> s = t \<and> x = y"
proof (induction s arbitrary: t)
  case Nil
  then show ?case
    by (cases t) (auto simp: esc_char_not_quote [symmetric])
next
  case (Cons c s)
  show ?case
  proof (cases t)
    case Nil
    with Cons.prems show ?thesis by (simp add: esc_char_not_quote)
  next
    case (Cons d t')
    with Cons.prems
    have eq: "esc_char c @ concat (map esc_char s) @ CHR 0x22 # x =
        esc_char d @ concat (map esc_char t') @ CHR 0x22 # y" by simp
    from esc_char_prefix [OF eq] Cons.IH [of t'] Cons show ?thesis by simp
  qed
qed

lemma quoted_prefix: "quoted s @ x = quoted t @ y \<Longrightarrow> s = t \<and> x = y"
  using escapes_prefix [of s x t y] by (simp add: quoted_def)

section \<open>Numbers\<close>

fun digits_val :: "nat \<Rightarrow> string \<Rightarrow> nat" where
  "digits_val a [] = a"
| "digits_val a (c # cs) = digits_val (10 * a + (of_char c - 48)) cs"

lemma digits_val_append: "digits_val a (s @ t) = digits_val (digits_val a s) t"
  by (induction a s rule: digits_val.induct) simp_all

lemma digits_val_digits: "digits_val 0 (digits_nat n) = n"
proof (induction n rule: digits_nat.induct)
  case (1 n)
  have last: "of_char (char_of (48 + n mod 10) :: char) - 48 = n mod 10"
    by (simp add: of_char_of)
  show ?case
  proof (cases "n < 10")
    case True
    then show ?thesis by (subst digits_nat.simps) (simp add: of_char_of)
  next
    case False
    with 1 last show ?thesis
      by (subst digits_nat.simps) (simp add: digits_val_append)
  qed
qed

definition is_digit :: "char \<Rightarrow> bool" where
  "is_digit c \<longleftrightarrow> 48 \<le> (of_char c :: nat) \<and> (of_char c :: nat) \<le> 57"

definition num_char :: "char \<Rightarrow> bool" where
  "num_char c \<longleftrightarrow> is_digit c \<or> c = CHR ''-'' \<or> c = CHR ''+'' \<or> c = CHR ''.'' \<or> c = CHR ''e''"

lemma is_digit_char_of: "n < (10 :: nat) \<Longrightarrow> is_digit (char_of (48 + n))"
  by (simp add: is_digit_def of_char_of)

lemma digits_nat_chars: "list_all is_digit (digits_nat n)"
proof (induction n rule: digits_nat.induct)
  case (1 n)
  then show ?case
    by (subst digits_nat.simps) (simp add: is_digit_char_of)
qed

lemma digits_nat_neq_Nil [simp]: "digits_nat n \<noteq> []"
  by (subst digits_nat.simps) simp

lemma not_digit: "\<not> is_digit c \<Longrightarrow> c \<notin> set (digits_nat n)"
  using digits_nat_chars [of n] by (auto simp: list_all_iff)

lemma digits_int_neg: "CHR ''-'' \<in> set (digits_int k) \<longleftrightarrow> k < 0"
  by (simp add: digits_int_def not_digit is_digit_def)

lemma digits_int_inj:
  assumes eq: "digits_int m = digits_int n"
  shows "m = n"
proof -
  have sign: "m < 0 \<longleftrightarrow> n < 0"
    using digits_int_neg [of m] digits_int_neg [of n] eq by argo
  have "nat \<bar>m\<bar> = nat \<bar>n\<bar>"
  proof (cases "m < 0")
    case True
    with sign eq have "digits_nat (nat (- m)) = digits_nat (nat (- n))"
      by (simp add: digits_int_def)
    then have "nat (- m) = nat (- n)" by (metis digits_val_digits)
    with True sign show ?thesis by simp
  next
    case False
    with sign eq have "digits_nat (nat m) = digits_nat (nat n)"
      by (simp add: digits_int_def)
    then have "nat m = nat n" by (metis digits_val_digits)
    with False sign show ?thesis by simp
  qed
  with sign show ?thesis by linarith
qed

text \<open>
  What is relied on of the runtime's float printing: it prints with digits, sign, point and
  exponent only, never like an integer, and distinct floats differently.
\<close>

definition float_repr_ok :: "prims \<Rightarrow> bool" where
  "float_repr_ok P \<longleftrightarrow> inj (float_repr P) \<and>
     (\<forall>q. float_repr P q \<noteq> [] \<and> list_all num_char (float_repr P q) \<and>
          (CHR ''.'' \<in> set (float_repr P q) \<or> CHR ''e'' \<in> set (float_repr P q)))"

lemma digits_int_chars: "list_all num_char (digits_int n)"
  using digits_nat_chars [of "nat n"] digits_nat_chars [of "nat (- n)"]
  by (auto simp: digits_int_def num_char_def list_all_iff)

lemma digits_int_neq_Nil [simp]: "digits_int n \<noteq> []"
  by (simp add: digits_int_def)

lemma digits_int_integral:
  "CHR ''.'' \<notin> set (digits_int n)" "CHR ''e'' \<notin> set (digits_int n)"
  by (simp_all add: digits_int_def not_digit is_digit_def)

lemma digits_int_float_repr: "float_repr_ok P \<Longrightarrow> digits_int n \<noteq> float_repr P q"
  using digits_int_integral [of n] unfolding float_repr_ok_def by metis

section \<open>Canonical bytes determine the document\<close>

definition closes :: "string \<Rightarrow> bool" where
  "closes r \<longleftrightarrow> r = [] \<or> hd r \<in> set '',]}''"

lemma closes_Cons [simp]: "closes (c # r) \<longleftrightarrow> c \<in> set '',]}''"
  by (simp add: closes_def)

lemma closes_Nil [simp]: "closes []"
  by (simp add: closes_def)

lemma takeWhile_num:
  assumes "list_all num_char x" "closes r"
  shows "takeWhile num_char (x @ r) = x"
proof -
  have "takeWhile num_char r = []"
    using assms(2) by (cases r) (auto simp: num_char_def is_digit_def)
  with assms(1) show ?thesis by (simp add: list_all_iff)
qed

lemma num_prefix:
  assumes "list_all num_char x" "closes r" "list_all num_char y" "closes s" "x @ r = y @ s"
  shows "x = y \<and> r = s"
proof -
  have "x = y"
    using takeWhile_num [OF assms(1,2)] takeWhile_num [OF assms(3,4)] assms(5) by metis
  with assms(5) show ?thesis by simp
qed

lemma commas_prefix:
  assumes uniq: "\<And>x y r s. x \<in> set xs \<Longrightarrow> y \<in> set ys \<Longrightarrow> closes r \<Longrightarrow> closes s \<Longrightarrow> f x @ r = f y @ s \<Longrightarrow> g x = g y \<and> r = s"
    and head: "\<And>x r. f x @ r \<noteq> c # r'" "\<And>x r t. f x @ r \<noteq> c # t"
    and c: "c \<in> set '']}''"
    and eq: "commas (map f xs) @ c # r = commas (map f ys) @ c # s"
  shows "map g xs = map g ys \<and> r = s"
  using uniq eq
proof (induction xs arbitrary: ys)
  case Nil
  show ?case
  proof (cases ys)
    case (Cons y ys')
    with Nil(2) show ?thesis
      by (cases ys') (simp_all add: head(2) [symmetric])
  qed (use Nil in simp)
next
  case (Cons x xs)
  obtain y ys' where ys: "ys = y # ys'"
    using Cons.prems(2) by (cases xs; cases ys) (auto simp: head(2))
  let ?rest = "\<lambda>zs t. if zs = [] then c # t else CHR '','' # commas (map f zs) @ c # t"
  have split: "commas (map f (z # zs)) @ c # t = f z @ ?rest zs t" for z zs t
    by (cases zs) simp_all
  have "f x @ ?rest xs r = f y @ ?rest ys' s"
    using Cons.prems(2) by (simp only: ys split)
  moreover have "closes (?rest zs t)" for zs t using c by auto
  ultimately have first: "g x = g y" and rest: "?rest xs r = ?rest ys' s"
    using Cons.prems(1) [of x y "?rest xs r" "?rest ys' s"] by (simp_all add: ys)
  have "map g xs = map g ys' \<and> r = s"
  proof (cases "xs = []")
    case True
    with rest c show ?thesis by (auto split: if_splits)
  next
    case False
    with rest c have "ys' \<noteq> []" "commas (map f xs) @ c # r = commas (map f ys') @ c # s"
      by (auto split: if_splits)
    moreover have "\<And>z y r s. z \<in> set xs \<Longrightarrow> y \<in> set ys' \<Longrightarrow> closes r \<Longrightarrow> closes s \<Longrightarrow> f z @ r = f y @ s \<Longrightarrow>
        g z = g y \<and> r = s"
      using Cons.prems(1) unfolding ys by (meson list.set_intros(2))
    ultimately show ?thesis using Cons.IH [of ys'] by blast
  qed
  with first ys show ?case by simp
qed

text \<open>The first character of a serialised value tells its kind.\<close>

fun kind :: "pyval \<Rightarrow> nat" where
  "kind PNone = 0"
| "kind (PBool b) = 1"
| "kind (PStr s) = 3"
| "kind (PList xs) = 4"
| "kind (PDict d) = 5"
| "kind v = 2"

definition kind_of_char :: "char \<Rightarrow> nat" where
  "kind_of_char c =
     (if c = CHR ''n'' then 0 else if c = CHR ''t'' \<or> c = CHR ''f'' then 1
      else if c = CHR 0x22 then 3 else if c = CHR ''['' then 4 else if c = CHR ''{'' then 5 else 2)"

lemma not_num_char:
  "\<not> num_char (CHR ''n'')" "\<not> num_char (CHR ''t'')" "\<not> num_char (CHR ''f'')" "\<not> num_char (CHR 0x22)"
  "\<not> num_char (CHR ''['')" "\<not> num_char (CHR ''{'')" "\<not> num_char (CHR '']'')" "\<not> num_char (CHR ''}'')"
  by (simp_all add: num_char_def is_digit_def)

lemma kind_of_num_char: "num_char c \<Longrightarrow> kind_of_char c = 2 \<and> c \<notin> set '']}''"
  using not_num_char by (auto simp: kind_of_char_def)

lemma number_head:
  assumes "list_all num_char x" "x \<noteq> []"
  shows "\<exists>c t. x = c # t \<and> kind_of_char c = 2 \<and> c \<notin> set '']}''"
proof -
  obtain c t where x: "x = c # t" using assms(2) by (cases x) auto
  with assms(1) have "num_char c" by simp
  from kind_of_num_char [OF this] x show ?thesis by blast
qed

definition item :: "(string \<Rightarrow> string) \<Rightarrow> prims \<Rightarrow> string \<times> pyval \<Rightarrow> string" where
  "item q P = (\<lambda>(k, v). q k @ CHR '':'' # json_of q P v)"

text \<open>
  What a printer of strings has to promise: every printed string starts with a quote, and among the
  strings it can print, no printed one is the beginning of another.
\<close>

locale string_printer =
  fixes q :: "string \<Rightarrow> string" and ok :: "string \<Rightarrow> bool"
  assumes opens: "\<exists>t. q s = CHR 0x22 # t"
    and prefix: "ok s \<Longrightarrow> ok t \<Longrightarrow> q s @ x = q t @ y \<Longrightarrow> s = t \<and> x = y"

text \<open>All the strings of a document, keys included.\<close>

fun strings_ok :: "(string \<Rightarrow> bool) \<Rightarrow> pyval \<Rightarrow> bool" where
  "strings_ok ok (PStr s) = ok s"
| "strings_ok ok (PList xs) = list_all (strings_ok ok) xs"
| "strings_ok ok (PDict d) = list_all (\<lambda>(k, v). ok k \<and> strings_ok ok v) d"
| "strings_ok ok v = True"

lemma strings_ok_trivial: "strings_ok (\<lambda>s. True) v"
  by (induction v) (auto simp: list_all_iff)

context string_printer
begin

lemma json_head:
  assumes "float_repr_ok P"
  shows "\<exists>c t. json_of q P v = c # t \<and> kind_of_char c = kind v \<and> c \<notin> set '']}''"
proof (cases v)
  case (PInt n)
  then show ?thesis using number_head [OF digits_int_chars] by simp
next
  case (PFloat x)
  with assms show ?thesis using number_head [of "float_repr P x"] by (simp add: float_repr_ok_def)
next
  case (PStr s)
  then show ?thesis using opens [of s] by (auto simp: kind_of_char_def)
qed (simp_all add: kind_of_char_def)

lemma json_kind: "float_repr_ok P \<Longrightarrow> json_of q P a @ r = json_of q P b @ s \<Longrightarrow> kind a = kind b"
  using json_head [of P a] json_head [of P b] by fastforce

lemma json_not_close: "float_repr_ok P \<Longrightarrow> c \<in> set '']}'' \<Longrightarrow> json_of q P v @ r \<noteq> c # t"
  using json_head [of P v] by (metis append_Cons list.inject)

lemma item_not_close: "item q P x @ r \<noteq> CHR ''}'' # t"
  using opens [of "fst x"] by (cases x) (auto simp: item_def)

lemma number_prefix:
  assumes P: "float_repr_ok P" and num: "kind a = 2" "kind b = 2"
    and "closes r" "closes s" and eq: "json_of q P a @ r = json_of q P b @ s"
  shows "key_norm a = key_norm b \<and> r = s"
proof -
  have chars: "list_all num_char (json_of q P v)" if "kind v = 2" for v
    using that P digits_int_chars by (cases v) (auto simp: float_repr_ok_def)
  then have same: "json_of q P a = json_of q P b" "r = s"
    using num_prefix [OF chars [OF num(1)] assms(4) chars [OF num(2)] assms(5) eq] by simp_all
  have "key_norm a = key_norm b"
    using num same(1) P digits_int_inj digits_int_float_repr [OF P]
      digits_int_float_repr [OF P, symmetric]
    by (cases a; cases b) (auto simp: float_repr_ok_def dest: injD)
  with same(2) show ?thesis by simp
qed

theorem json_prefix:
  assumes P: "float_repr_ok P"
  shows "strings_ok ok a \<Longrightarrow> strings_ok ok b \<Longrightarrow> closes r \<Longrightarrow> closes s \<Longrightarrow> json_of q P a @ r = json_of q P b @ s \<Longrightarrow>
    key_norm a = key_norm b \<and> r = s"
proof (induction a arbitrary: b r s)
  case PNone
  with json_kind [OF P PNone(5)] show ?case by (cases b) auto
next
  case (PBool x)
  with json_kind [OF P PBool(5)] show ?case by (cases b) (auto split: if_splits)
next
  case (PInt n)
  with json_kind [OF P PInt(5)] show ?case by (intro number_prefix [OF P]) simp_all
next
  case (PFloat z)
  with json_kind [OF P PFloat(5)] show ?case by (intro number_prefix [OF P]) simp_all
next
  case (PStr x)
  with json_kind [OF P PStr(5)] obtain y where "b = PStr y" by (cases b) auto
  with PStr show ?case by (auto dest: prefix)
next
  case (PList xs)
  with json_kind [OF P PList.prems(5)] obtain ys where b: "b = PList ys" by (cases b) auto
  have "map key_norm xs = map key_norm ys \<and> r = s"
  proof (rule commas_prefix [where f = "json_of q P" and c = "CHR '']''"])
    show "commas (map (json_of q P) xs) @ CHR '']'' # r = commas (map (json_of q P) ys) @ CHR '']'' # s"
      using PList.prems(5) by (simp add: b)
  qed (use PList.IH PList.prems(1,2) json_not_close [OF P] in \<open>auto simp: b list_all_iff\<close>)
  then show ?case by (simp add: b)
next
  case (PDict d)
  with json_kind [OF P PDict.prems(5)] obtain e where b: "b = PDict e" by (cases b) auto
  have "map (\<lambda>(k, v). (k, key_norm v)) (sort_key fst d) = map (\<lambda>(k, v). (k, key_norm v)) (sort_key fst e) \<and> r = s"
  proof (rule commas_prefix [where f = "item q P" and c = "CHR ''}''"])
    show "commas (map (item q P) (sort_key fst d)) @ CHR ''}'' # r =
        commas (map (item q P) (sort_key fst e)) @ CHR ''}'' # s"
      using PDict.prems(5) by (simp only: b json_of_PDict item_def) simp
    fix x y r s
    assume x: "x \<in> set (sort_key fst d)" "y \<in> set (sort_key fst e)" and rs: "closes r" "closes s"
      and eq: "item q P x @ r = item q P y @ s"
    obtain k v k' v' where xy: "x = (k, v)" "y = (k', v')" by (cases x; cases y)
    with eq have "q k @ CHR '':'' # json_of q P v @ r = q k' @ CHR '':'' # json_of q P v' @ s"
      by (simp add: item_def)
    moreover have oks: "ok k" "ok k'" "strings_ok ok v" "strings_ok ok v'"
      using x PDict.prems(1,2) unfolding b xy by (auto simp: list_all_iff)
    ultimately have k: "k = k'" and vs: "json_of q P v @ r = json_of q P v' @ s"
      using prefix by blast+
    have "(k, v) \<in> set d" "v \<in> Basic_BNFs.snds (k, v)" using x xy by auto
    from PDict.IH [OF this oks(3,4) rs vs] k xy
    show "(case x of (k, v) \<Rightarrow> (k, key_norm v)) = (case y of (k, v) \<Rightarrow> (k, key_norm v)) \<and> r = s" by simp
  qed (simp_all add: item_not_close)
  then show ?case by (simp only: b key_norm_PDict)
qed

end

interpretation plain: string_printer quoted "\<lambda>s. True"
  by unfold_locales (simp add: quoted_def, rule quoted_prefix)

lemma canonical_bytes_inj:
  "float_repr_ok P \<Longrightarrow> canonical_bytes P a = canonical_bytes P b \<Longrightarrow> key_norm a = key_norm b"
  using plain.json_prefix [of P a b "[]" "[]"] by (simp add: canonical_bytes_def strings_ok_trivial)

section \<open>Reading a committed document\<close>

lemma map_of_map_key_norm: "map_of (map (\<lambda>(k, v). (k, key_norm v)) d) k = map_option key_norm (map_of d k)"
  by (induction d) auto

text \<open>Documents with the same canonical form agree on every key.\<close>

lemma key_norm_lookup:
  assumes "key_norm (PDict d) = key_norm (PDict e)" "distinct (map fst d)" "distinct (map fst e)"
  shows "map_option key_norm (map_of d k) = map_option key_norm (map_of e k)"
proof -
  have sorted: "map_of (sort_key fst d) = map_of d" if "distinct (map fst d)" for d :: pydict
    using that by (subst map_of_inject_set) (simp_all add: distinct_map)
  from assms(1) have "map_of (map (\<lambda>(k, v). (k, key_norm v)) (sort_key fst d)) k =
      map_of (map (\<lambda>(k, v). (k, key_norm v)) (sort_key fst e)) k"
    by (simp only: key_norm_PDict pyval.inject)
  then show ?thesis by (simp only: map_of_map_key_norm sorted [OF assms(2)] sorted [OF assms(3)])
qed

text \<open>
  Two documents whose digests do not collide; the only way a commitment can fail to identify
  what was committed to.
\<close>

definition no_collision :: "prims \<Rightarrow> pyval \<Rightarrow> pyval \<Rightarrow> bool" where
  "no_collision P v w \<longleftrightarrow> (sha256_hex P (canonical_bytes P v) = sha256_hex P (canonical_bytes P w) \<longrightarrow>
     canonical_bytes P v = canonical_bytes P w)"

lemma commitment_binding:
  "float_repr_ok P \<Longrightarrow> no_collision P v w \<Longrightarrow> commitment P v = commitment P w \<Longrightarrow> key_norm v = key_norm w"
  by (auto simp: commitment_def no_collision_def intro: canonical_bytes_inj)

section \<open>A float printer with the assumed properties\<close>

definition ratio_repr :: "rat \<Rightarrow> string" where
  "ratio_repr q = (case quotient_of q of (n, d) \<Rightarrow> digits_int n @ CHR ''.'' # digits_int d)"

lemma split_at_char: "x \<notin> set a \<Longrightarrow> x \<notin> set b \<Longrightarrow> a @ x # r = b @ x # s \<Longrightarrow> a = b \<and> r = s"
proof (induction a arbitrary: b)
  case Nil
  then show ?case by (cases b) auto
next
  case (Cons c a)
  then show ?case by (cases b) auto
qed

lemma ratio_repr_ok: "float_repr_ok (P\<lparr>float_repr := ratio_repr\<rparr>)"
proof -
  have "inj ratio_repr"
  proof (rule injI)
    fix p q
    assume eq: "ratio_repr p = ratio_repr q"
    obtain n d m e where pq: "quotient_of p = (n, d)" "quotient_of q = (m, e)"
      by (cases "quotient_of p"; cases "quotient_of q")
    with eq have "digits_int n @ CHR ''.'' # digits_int d = digits_int m @ CHR ''.'' # digits_int e"
      by (simp add: ratio_repr_def)
    then have "digits_int n = digits_int m \<and> digits_int d = digits_int e"
      by (rule split_at_char [OF digits_int_integral(1) digits_int_integral(1)])
    then have "n = m" "d = e" by (auto dest: digits_int_inj)
    with pq show "p = q" by (simp add: quotient_of_inject_eq [symmetric])
  qed
  moreover have "list_all num_char (ratio_repr q)" "CHR ''.'' \<in> set (ratio_repr q)" "ratio_repr q \<noteq> []" for q
    using digits_int_chars by (cases "quotient_of q"; simp add: ratio_repr_def num_char_def)+
  ultimately show ?thesis by (simp add: float_repr_ok_def)
qed

end
