(* ===== verification/BoundedModels.thy ===== *)
theory BoundedModels
  imports PyTime CanonicalJson
begin

text \<open>
  The records of \<open>bounded.py\<close>: what is proposed, what the resolver reports, what a decision
  binds, and what the run record keeps. A class and its tenant-aware subclass
  (\<open>RuntimeProposal\<close> and \<open>TenantRuntimeProposal\<close>, \<open>AuthorizationBinding\<close> and
  \<open>TenantAuthorizationBinding\<close>) are one record whose tenant is \<open>None\<close> for the base class;
  equality of two objects of different classes is then equality of the record too.
\<close>

section \<open>Proposals\<close>

record proposal =
  p_manifest_id :: string
  p_manifest_version :: string
  p_manifest_digest :: string
  p_actor :: string
  p_principal :: string
  p_action_id :: string
  p_adapter_id :: string
  p_target :: string
  p_payload :: pydict
  p_payload_commitment :: string
  p_requested_permissions :: "string list"
  p_amount :: rat
  p_unit :: string
  p_effects :: int
  p_authority_context_ref :: "string option"
  p_requirement_id :: "string option"
  p_risk_metadata :: pydict
  p_not_before :: "string option"
  p_expires_at :: "string option"
  p_correlation_id :: "string option"
  p_run_id :: "string option"
  p_expected_side_effects :: "string list"
  p_evidence_refs :: "string list"
  p_tenant_id :: "string option"

text \<open>
  What the field constraints of the two classes admit: non-negative amount and effect count,
  and a tenant of 1 to 128 characters.
\<close>

definition proposal_valid :: "proposal \<Rightarrow> bool" where
  "proposal_valid p \<longleftrightarrow> 0 \<le> p_amount p \<and> 0 \<le> p_effects p \<and>
     (case p_tenant_id p of None \<Rightarrow> True
      | Some t \<Rightarrow> 1 \<le> length (utf8_chars t) \<and> length (utf8_chars t) \<le> 128)"

definition opt_str :: "string option \<Rightarrow> pyval" where
  "opt_str x = (case x of None \<Rightarrow> PNone | Some s \<Rightarrow> PStr s)"

lemma opt_str_inj [simp]: "opt_str x = opt_str y \<longleftrightarrow> x = y"
  by (simp add: opt_str_def split: option.splits)

lemma opt_str_eq_iff [simp]: "opt_str x = PStr s \<longleftrightarrow> x = Some s" "opt_str x = PNone \<longleftrightarrow> x = None"
  by (simp_all add: opt_str_def split: option.splits)

abbreviation str_list :: "string list \<Rightarrow> pyval" where
  "str_list xs \<equiv> PList (map PStr xs)"

text \<open>\<open>proposal.model_dump(mode="json", exclude_none=False)\<close>\<close>

definition dump_proposal :: "proposal \<Rightarrow> pyval" where
  "dump_proposal p = PDict (
     [(''manifest_id'', PStr (p_manifest_id p)),
      (''manifest_version'', PStr (p_manifest_version p)),
      (''manifest_digest'', PStr (p_manifest_digest p)),
      (''actor'', PStr (p_actor p)),
      (''principal'', PStr (p_principal p)),
      (''action_id'', PStr (p_action_id p)),
      (''adapter_id'', PStr (p_adapter_id p)),
      (''target'', PStr (p_target p)),
      (''payload'', PDict (p_payload p)),
      (''payload_commitment'', PStr (p_payload_commitment p)),
      (''requested_permissions'', str_list (p_requested_permissions p)),
      (''amount'', PFloat (p_amount p)),
      (''unit'', PStr (p_unit p)),
      (''effects'', PInt (p_effects p)),
      (''authority_context_ref'', opt_str (p_authority_context_ref p)),
      (''requirement_id'', opt_str (p_requirement_id p)),
      (''risk_metadata'', PDict (p_risk_metadata p)),
      (''not_before'', opt_str (p_not_before p)),
      (''expires_at'', opt_str (p_expires_at p)),
      (''correlation_id'', opt_str (p_correlation_id p)),
      (''run_id'', opt_str (p_run_id p)),
      (''expected_side_effects'', str_list (p_expected_side_effects p)),
      (''evidence_refs'', str_list (p_evidence_refs p))]
     @ (case p_tenant_id p of None \<Rightarrow> [] | Some t \<Rightarrow> [(''tenant_id'', PStr t)]))"

definition proposal_commitment :: "prims \<Rightarrow> proposal \<Rightarrow> string" where
  "proposal_commitment P p = commitment P (dump_proposal p)"

section \<open>What the resolver reports\<close>

datatype grant_state = GrantActive | GrantSuspended | GrantRevoked | GrantUnknown

fun grant_state_str :: "grant_state \<Rightarrow> string" where
  "grant_state_str GrantActive = ''active''"
| "grant_state_str GrantSuspended = ''suspended''"
| "grant_state_str GrantRevoked = ''revoked''"
| "grant_state_str GrantUnknown = ''unknown''"

record grant_status =
  gs_grant_id :: string
  gs_revision :: string
  gs_status :: grant_state
  gs_observed_at :: string
  gs_version :: string
  gs_status_ref :: string
  gs_authority_basis_ref :: string
  gs_institution_id :: string
  gs_authority_domain :: string
  gs_tenant_id :: "string option"
  gs_superseded_by :: "string option"

datatype approval_state = ApprovalActive | ApprovalRevoked | ApprovalUnknown

fun approval_state_str :: "approval_state \<Rightarrow> string" where
  "approval_state_str ApprovalActive = ''active''"
| "approval_state_str ApprovalRevoked = ''revoked''"
| "approval_state_str ApprovalUnknown = ''unknown''"

record approval_status =
  as_approval_ref :: string
  as_role_id :: string
  as_approver :: string
  as_grant_id :: string
  as_grant_revision :: string
  as_proposal_commitment :: string
  as_policy_versions :: "pydict list"
  as_status :: approval_state
  as_observed_at :: string
  as_institution_id :: string
  as_authority_domain :: string
  as_tenant_id :: "string option"

datatype evidence_state = EvidenceCurrent | EvidenceStale | EvidenceUnknown

fun evidence_state_str :: "evidence_state \<Rightarrow> string" where
  "evidence_state_str EvidenceCurrent = ''current''"
| "evidence_state_str EvidenceStale = ''stale''"
| "evidence_state_str EvidenceUnknown = ''unknown''"

record evidence_status =
  es_obligation_id :: string
  es_state :: evidence_state
  es_observed_at :: string
  es_source_ref :: string
  es_institution_id :: string
  es_authority_domain :: string

datatype policy_state = PolicyActive | PolicySuperseded | PolicyUnknown

fun policy_state_str :: "policy_state \<Rightarrow> string" where
  "policy_state_str PolicyActive = ''active''"
| "policy_state_str PolicySuperseded = ''superseded''"
| "policy_state_str PolicyUnknown = ''unknown''"

record policy_status =
  ps_ref :: string
  ps_version :: string
  ps_status :: policy_state
  ps_observed_at :: string
  ps_institution_id :: string
  ps_authority_domain :: string
  ps_tenant_id :: "string option"

datatype conflict_state = ConflictClear | ConflictPresent | ConflictUnknown

record conflict_status =
  cs_requirement_id :: string
  cs_state :: conflict_state
  cs_observed_at :: string
  cs_institution_id :: string
  cs_authority_domain :: string
  cs_conflict_refs :: "string list"

record identity_status =
  is_identity :: string
  is_principal :: string
  is_authenticated :: bool
  is_delegation_valid :: bool
  is_observed_at :: string
  is_institution_id :: string
  is_authority_domain :: string
  is_chain :: "string list"

record mandate_status =
  ms_issuer :: string
  ms_issuer_role :: string
  ms_issuance_record_ref :: string
  ms_mandate_valid :: bool
  ms_observed_at :: string
  ms_institution_id :: string
  ms_authority_domain :: string

record role_mapping_status =
  rm_institution_id :: string
  rm_version :: string
  rm_digest :: string
  rm_aliases :: "(string \<times> string list) list"

section \<open>Decisions, attempts, observations\<close>

record binding =
  b_proposal_commitment :: string
  b_manifest_id :: string
  b_manifest_version :: string
  b_manifest_digest :: string
  b_actor :: string
  b_principal :: string
  b_action_id :: string
  b_adapter_id :: string
  b_target :: string
  b_payload_commitment :: string
  b_requested_permissions :: "string list"
  b_amount :: rat
  b_unit :: string
  b_effects :: int
  b_authority_context_id :: string
  b_authority_context_version :: string
  b_authority_context_status :: string
  b_requirement_id :: string
  b_requirement_commitment :: string
  b_grant_id :: string
  b_grant_revision :: string
  b_policy_versions :: "pydict list"
  b_role_mapping_version :: string
  b_role_mapping_digest :: string
  b_effective_max_effects :: int
  b_tenant_id :: "string option"

text \<open>
  Python's \<open>==\<close> on two bindings: same class, and every field equal; the policy versions are
  raw dicts, compared as Python compares them.
\<close>

definition policies_eq :: "pydict list \<Rightarrow> pydict list \<Rightarrow> bool" where
  "policies_eq xs ys = py_eq (PList (map PDict xs)) (PList (map PDict ys))"

definition binding_eq :: "binding \<Rightarrow> binding \<Rightarrow> bool" where
  "binding_eq a b \<longleftrightarrow>
     a\<lparr>b_policy_versions := []\<rparr> = b\<lparr>b_policy_versions := []\<rparr> \<and>
     policies_eq (b_policy_versions a) (b_policy_versions b)"

datatype decision_result = Authorized | Hold | Deny

record decision =
  d_decision_id :: string
  d_effect_id :: string
  d_result :: decision_result
  d_reasons :: "string list"
  d_decided_at :: string
  d_binding :: "binding option"

fun option_eq :: "('a \<Rightarrow> 'a \<Rightarrow> bool) \<Rightarrow> 'a option \<Rightarrow> 'a option \<Rightarrow> bool" where
  "option_eq eq None None = True"
| "option_eq eq (Some x) (Some y) = eq x y"
| "option_eq eq _ _ = False"

fun_cases option_eq_SomeE: "option_eq eq x (Some y)"

lemma option_eq_Some: "option_eq eq x (Some y) \<longleftrightarrow> (\<exists>z. x = Some z \<and> eq z y)"
  by (auto elim: option_eq_SomeE)

definition decision_eq :: "decision \<Rightarrow> decision \<Rightarrow> bool" where
  "decision_eq a b \<longleftrightarrow> a\<lparr>d_binding := None\<rparr> = b\<lparr>d_binding := None\<rparr> \<and>
     option_eq binding_eq (d_binding a) (d_binding b)"

datatype attempt_status = Attempted | Acknowledged | AttemptUnknown | AttemptFailed | AttemptPartial

record attempt =
  a_attempt_id :: string
  a_effect_id :: string
  a_decision_id :: string
  a_started_at :: string
  a_status :: attempt_status
  a_acknowledgement :: pydict
  a_error :: "string option"

datatype input_type = InGrant | InPolicy | InApproval | InEvidence | InRoleMapping

record refusal_input =
  ri_input_type :: input_type
  ri_input_id :: string
  ri_expected_version :: string
  ri_observed_version :: string

record refusal =
  r_refusal_id :: string
  r_decision_id :: string
  r_effect_id :: string
  r_recorded_at :: string
  r_reasons :: "string list"
  r_changed_inputs :: "refusal_input list"

datatype observed_state = ObsAbsent | ObsApplied | ObsPartial | ObsUnknown

fun observed_state_str :: "observed_state \<Rightarrow> string" where
  "observed_state_str ObsAbsent = ''absent''"
| "observed_state_str ObsApplied = ''applied''"
| "observed_state_str ObsPartial = ''partial''"
| "observed_state_str ObsUnknown = ''unknown''"

record observation =
  o_effect_id :: string
  o_observed_at :: "string option"
  o_state :: observed_state
  o_destination_state :: pydict

record observation_policy =
  op_max_age_seconds :: int
  op_clock_tolerance_seconds :: int

text \<open>What the field constraints of \<open>ObservationPolicy\<close> admit.\<close>

definition observation_policy_valid :: "observation_policy \<Rightarrow> bool" where
  "observation_policy_valid op \<longleftrightarrow> 0 < op_max_age_seconds op \<and> 0 \<le> op_clock_tolerance_seconds op"

datatype reconciliation_outcome = RecApplied | RecObservedAbsent | RecSafeToRetry | RecHold

record reconciliation =
  rec_effect_id :: string
  rec_reconciled_at :: string
  rec_result :: reconciliation_outcome
  rec_observation :: "observation option"
  rec_observation_accepted :: bool
  rec_retry_eligible :: bool
  rec_reasons :: "string list"
  rec_evaluation_time :: "string option"
  rec_observation_max_age_seconds :: "int option"
  rec_observation_clock_tolerance_seconds :: "int option"

record run_record =
  rr_run_id :: string
  rr_decisions :: "decision list"
  rr_refusals :: "refusal list"
  rr_attempts :: "attempt list"
  rr_observations :: "observation list"
  rr_reconciliations :: "reconciliation list"

section \<open>Equality of bindings and decisions\<close>

lemma binding_eq_fields:
  assumes "binding_eq a b"
  shows "b_proposal_commitment a = b_proposal_commitment b" "b_grant_id a = b_grant_id b"
    "b_grant_revision a = b_grant_revision b" "b_target a = b_target b" "b_amount a = b_amount b"
    "b_unit a = b_unit b" "b_effects a = b_effects b" "b_adapter_id a = b_adapter_id b"
    "b_payload_commitment a = b_payload_commitment b" "b_actor a = b_actor b"
    "b_principal a = b_principal b" "b_requirement_commitment a = b_requirement_commitment b"
    "b_effective_max_effects a = b_effective_max_effects b" "b_tenant_id a = b_tenant_id b"
    "b_role_mapping_version a = b_role_mapping_version b"
    "b_role_mapping_digest a = b_role_mapping_digest b"
    "b_requirement_id a = b_requirement_id b" "b_authority_context_id a = b_authority_context_id b"
    "b_action_id a = b_action_id b" "b_manifest_digest a = b_manifest_digest b"
proof -
  from assms have eq: "a\<lparr>b_policy_versions := []\<rparr> = b\<lparr>b_policy_versions := []\<rparr>"
    by (simp add: binding_eq_def)
  show "b_proposal_commitment a = b_proposal_commitment b" "b_grant_id a = b_grant_id b"
    "b_grant_revision a = b_grant_revision b" "b_target a = b_target b" "b_amount a = b_amount b"
    "b_unit a = b_unit b" "b_effects a = b_effects b" "b_adapter_id a = b_adapter_id b"
    "b_payload_commitment a = b_payload_commitment b" "b_actor a = b_actor b"
    "b_principal a = b_principal b" "b_requirement_commitment a = b_requirement_commitment b"
    "b_effective_max_effects a = b_effective_max_effects b" "b_tenant_id a = b_tenant_id b"
    "b_role_mapping_version a = b_role_mapping_version b"
    "b_role_mapping_digest a = b_role_mapping_digest b"
    "b_requirement_id a = b_requirement_id b" "b_authority_context_id a = b_authority_context_id b"
    "b_action_id a = b_action_id b" "b_manifest_digest a = b_manifest_digest b"
    using eq by (cases a; cases b; simp)+
qed

lemma policies_eq_refl: "list_all (\<lambda>d. wf_pyval (PDict d)) xs \<Longrightarrow> policies_eq xs xs"
  unfolding policies_eq_def by (rule py_eq_refl) (simp add: list_all_iff)

lemma binding_eq_refl:
  "list_all (\<lambda>d. wf_pyval (PDict d)) (b_policy_versions b) \<Longrightarrow> binding_eq b b"
  by (simp add: binding_eq_def policies_eq_refl)

lemma decision_eq_fields:
  assumes "decision_eq a b"
  shows "d_decision_id a = d_decision_id b" "d_effect_id a = d_effect_id b"
    "d_result a = d_result b" "d_reasons a = d_reasons b"
    "option_eq binding_eq (d_binding a) (d_binding b)"
  using assms by (cases a; cases b; simp add: decision_eq_def)+

end
