(* ===== verification/RecordStore.thy ===== *)
theory RecordStore
  imports BoundedModels
begin

text \<open>
  \<open>BoundedRecordStore\<close> of \<open>bounded.py\<close>: one JSON document of decisions, refusals, attempts,
  observations and reconciliations, reloaded and rewritten whole by every append. The file
  is absent, unreadable (not JSON, or rejected by the schema) or a valid document; the
  transactions are atomic here, and \<open>StoreConcurrency\<close> justifies that from the locking. The
  interface the workflow relies on is the locale \<open>append_log\<close>.
\<close>

section \<open>The interface\<close>

locale append_log =
  fixes load :: "'s \<Rightarrow> 'r res"
    and append :: "'e \<Rightarrow> 's \<Rightarrow> 's res"
    and view :: "'k \<Rightarrow> 'r \<Rightarrow> 'e list"
    and kind_of :: "'e \<Rightarrow> 'k"
  assumes append_view: "load s = Inr r \<Longrightarrow> append e s = Inr s' \<Longrightarrow>
      \<exists>r'. load s' = Inr r' \<and> (\<forall>k. view k r' = view k r @ (if k = kind_of e then [e] else []))"
    and append_total: "load s = Inr r \<Longrightarrow> \<exists>s'. append e s = Inr s'"
    and append_fails: "load s = Inl x \<Longrightarrow> append e s = Inl x"
begin

primrec append_all :: "'e list \<Rightarrow> 's \<Rightarrow> 's res" where
  "append_all [] s = Inr s"
| "append_all (e # es) s = bindE (append e s) (append_all es)"

lemma append_all_view:
  "load s = Inr r \<Longrightarrow> \<exists>s' r'. append_all es s = Inr s' \<and> load s' = Inr r' \<and>
     (\<forall>k. view k r' = view k r @ filter (\<lambda>e. kind_of e = k) es)"
proof (induction es arbitrary: s r)
  case Nil
  then show ?case by simp
next
  case (Cons e es)
  from append_total [OF Cons.prems] obtain s1 where s1: "append e s = Inr s1" by blast
  from append_view [OF Cons.prems s1] obtain r1 where
    r1: "load s1 = Inr r1" "\<forall>k. view k r1 = view k r @ (if k = kind_of e then [e] else [])"
    by blast
  from Cons.IH [OF r1(1)] obtain s' r' where "append_all es s1 = Inr s'" "load s' = Inr r'"
    "\<forall>k. view k r' = view k r1 @ filter (\<lambda>e. kind_of e = k) es" by blast
  with s1 r1(2) show ?case by auto
qed

text \<open>An unreadable store stays what it is.\<close>

lemma append_all_fails: "load s = Inl x \<Longrightarrow> es \<noteq> [] \<Longrightarrow> append_all es s = Inl x"
  by (cases es) (simp_all add: append_fails)

definition extends :: "'s \<Rightarrow> 's \<Rightarrow> bool" where
  "extends s s' \<longleftrightarrow> (\<forall>r. load s = Inr r \<longrightarrow>
     (\<exists>r'. load s' = Inr r' \<and> (\<forall>k. \<exists>es. view k r' = view k r @ es)))"

lemma extends_refl: "extends s s"
  by (auto simp: extends_def)

lemma extends_trans: "extends s t \<Longrightarrow> extends t u \<Longrightarrow> extends s u"
  unfolding extends_def by (metis append_assoc)

lemma append_extends: "append e s = Inr s' \<Longrightarrow> extends s s'"
  unfolding extends_def using append_view by metis

lemma extends_member:
  assumes "extends s s'" "load s = Inr r" "e \<in> set (view k r)"
  shows "\<exists>r'. load s' = Inr r' \<and> e \<in> set (view k r')"
  using assms unfolding extends_def by (metis Un_iff set_append)

end

section \<open>The store of the program\<close>

datatype store_file = NoFile | CorruptFile | Document run_record

datatype field_name = KDecision | KRefusal | KAttempt | KObservation | KReconciliation

datatype entry =
    EDecision decision
  | ERefusal refusal
  | EAttempt attempt
  | EObservation observation
  | EReconciliation reconciliation

fun entry_kind :: "entry \<Rightarrow> field_name" where
  "entry_kind (EDecision _) = KDecision"
| "entry_kind (ERefusal _) = KRefusal"
| "entry_kind (EAttempt _) = KAttempt"
| "entry_kind (EObservation _) = KObservation"
| "entry_kind (EReconciliation _) = KReconciliation"

text \<open>\<open>document.setdefault(field, []).append(value)\<close>\<close>

fun add_entry :: "entry \<Rightarrow> run_record \<Rightarrow> run_record" where
  "add_entry (EDecision x) r = r\<lparr>rr_decisions := rr_decisions r @ [x]\<rparr>"
| "add_entry (ERefusal x) r = r\<lparr>rr_refusals := rr_refusals r @ [x]\<rparr>"
| "add_entry (EAttempt x) r = r\<lparr>rr_attempts := rr_attempts r @ [x]\<rparr>"
| "add_entry (EObservation x) r = r\<lparr>rr_observations := rr_observations r @ [x]\<rparr>"
| "add_entry (EReconciliation x) r = r\<lparr>rr_reconciliations := rr_reconciliations r @ [x]\<rparr>"

fun entries :: "field_name \<Rightarrow> run_record \<Rightarrow> entry list" where
  "entries KDecision r = map EDecision (rr_decisions r)"
| "entries KRefusal r = map ERefusal (rr_refusals r)"
| "entries KAttempt r = map EAttempt (rr_attempts r)"
| "entries KObservation r = map EObservation (rr_observations r)"
| "entries KReconciliation r = map EReconciliation (rr_reconciliations r)"

definition empty_run_record :: "string \<Rightarrow> run_record" where
  "empty_run_record run_id =
     \<lparr>rr_run_id = run_id, rr_decisions = [], rr_refusals = [], rr_attempts = [],
      rr_observations = [], rr_reconciliations = []\<rparr>"

definition read_document :: "store_file \<Rightarrow> run_record res" where
  "read_document f = (case f of
      NoFile \<Rightarrow> throw FileNotFoundError
    | CorruptFile \<Rightarrow> throw ValueError
    | Document r \<Rightarrow> Inr r)"

text \<open>The constructor: an existing file is only validated, never replaced.\<close>

definition store_init :: "string \<Rightarrow> store_file \<Rightarrow> store_file res" where
  "store_init run_id f = (case f of
      NoFile \<Rightarrow> Inr (Document (empty_run_record run_id))
    | _ \<Rightarrow> bindE (read_document f) (\<lambda>_. Inr f))"

definition store_load :: "store_file \<Rightarrow> run_record res" where
  "store_load f = read_document f"

definition store_append :: "entry \<Rightarrow> store_file \<Rightarrow> store_file res" where
  "store_append e f = bindE (read_document f) (\<lambda>r. Inr (Document (add_entry e r)))"

text \<open>\<open>decision(decision_id)\<close>: the one record with this id, if there is exactly one.\<close>

definition store_decision :: "string \<Rightarrow> store_file \<Rightarrow> decision option res" where
  "store_decision i f = bindE (store_load f) (\<lambda>r.
     let matches = filter (\<lambda>d. d_decision_id d = i) (rr_decisions r)
     in Inr (if length matches = 1 then Some (hd matches) else None))"

lemma read_document_simps [simp]: "read_document (Document r) = Inr r"
  "read_document NoFile = throw FileNotFoundError" "read_document CorruptFile = throw ValueError"
  by (simp_all add: read_document_def)

lemma read_document_Inr_iff: "read_document f = Inr r \<longleftrightarrow> f = Document r"
  by (cases f) simp_all

lemma store_load_Inr_iff [res_iff]: "store_load f = Inr r \<longleftrightarrow> f = Document r"
  by (simp add: store_load_def read_document_Inr_iff)

lemma entries_add_entry:
  "entries k (add_entry e r) = entries k r @ (if k = entry_kind e then [e] else [])"
  by (cases e; cases k) simp_all

lemma run_id_add_entry [simp]: "rr_run_id (add_entry e r) = rr_run_id r"
  by (cases e) simp_all

lemma store_append_Inr_iff:
  "store_append e f = Inr f' \<longleftrightarrow> (\<exists>r. f = Document r \<and> f' = Document (add_entry e r))"
  by (auto simp: store_append_def bindE_Inr_iff read_document_Inr_iff)

interpretation store: append_log store_load store_append entries entry_kind
proof unfold_locales
  fix f f' r e
  assume "store_load f = Inr r" "store_append e f = Inr f'"
  then show "\<exists>r'. store_load f' = Inr r' \<and>
      (\<forall>k. entries k r' = entries k r @ (if k = entry_kind e then [e] else []))"
    by (auto simp: store_append_Inr_iff store_load_Inr_iff entries_add_entry)
next
  fix f r e
  assume "store_load f = Inr r"
  then show "\<exists>f'. store_append e f = Inr f'"
    by (auto simp: store_append_Inr_iff store_load_Inr_iff)
next
  fix f x e
  assume "store_load f = Inl x"
  then show "store_append e f = Inl x"
    by (cases f) (simp_all add: store_append_def store_load_def throw_def)
qed

lemma store_append_CorruptFile [simp]: "store_append e CorruptFile = throw ValueError"
  by (simp add: store_append_def)

lemma store_decision_Some:
  assumes "store_decision i f = Inr (Some d)"
  shows "\<exists>r. f = Document r \<and> d \<in> set (rr_decisions r) \<and> d_decision_id d = i \<and>
     (\<forall>d'\<in>set (rr_decisions r). d_decision_id d' = i \<longrightarrow> d' = d)"
proof -
  from assms obtain r where r: "f = Document r"
    and one: "length (filter (\<lambda>d. d_decision_id d = i) (rr_decisions r)) = 1"
    and d: "d = hd (filter (\<lambda>d. d_decision_id d = i) (rr_decisions r))"
    by (auto simp: store_decision_def res_iff Let_def split: if_splits)
  from one d have "filter (\<lambda>d. d_decision_id d = i) (rr_decisions r) = [d]"
    by (cases "filter (\<lambda>d. d_decision_id d = i) (rr_decisions r)") auto
  then have "set (filter (\<lambda>d. d_decision_id d = i) (rr_decisions r)) = {d}" by simp
  with r show ?thesis by auto
qed

section \<open>Properties\<close>

text \<open>
  The record store only ever grows: after any sequence of appends to a readable store,
  every kind of entry holds exactly its earlier history followed by the appended entries of
  that kind, in order.
\<close>

theorem store_history_preserved:
  "\<exists>f r'. store.append_all es (Document r) = Inr f \<and> store_load f = Inr r' \<and>
     (\<forall>k. entries k r' = entries k r @ filter (\<lambda>e. entry_kind e = k) es)"
  by (rule store.append_all_view) (simp add: store_load_def)

text \<open>
  An unreadable record file is never replaced: initialisation and every append raise and
  leave no new file, and a file that already holds a document is taken over unchanged.
\<close>

theorem store_never_overwrites_corruption:
  "(\<exists>x. store_init run_id CorruptFile = Inl x) \<and> (\<exists>x. store_append e CorruptFile = Inl x) \<and>
   store_init run_id (Document r) = Inr (Document r) \<and>
   store_init run_id NoFile = Inr (Document (empty_run_record run_id))"
  by (simp add: store_init_def throw_def)

end
