(* ===== verification/Destination.thy ===== *)
theory Destination
  imports BoundedModels
begin

text \<open>
  \<open>LocalRefundDestination\<close> of \<open>bounded.py\<close>: a durable destination that deduplicates by
  effect id and caps the number of effects per grant. What a workflow may rely on of a
  destination is the locale \<open>effect_sink\<close> (an effect, once recorded, never changes; a
  request touches no other effect) and its extension \<open>capped_sink\<close> (the cap); the local
  destination is their interpretation. Every operation runs under the destination's lock
  and is atomic here; other processes writing the same file are excluded, as in the source.
\<close>

section \<open>Requests and effects\<close>

record apply_request =
  rq_effect_id :: string
  rq_grant_id :: string
  rq_max_effects :: int
  rq_target :: string
  rq_amount :: rat
  rq_unit :: string
  rq_payload :: pydict
  rq_lose_ack :: bool
  rq_partial :: bool

datatype effect_state = EffApplied | EffPartial

record effect =
  ef_effect_id :: string
  ef_grant_id :: string
  ef_target :: string
  ef_amount :: rat
  ef_unit :: string
  ef_payload :: pydict
  ef_state :: effect_state

definition dump_effect :: "effect \<Rightarrow> pydict" where
  "dump_effect e =
     [(''effect_id'', PStr (ef_effect_id e)), (''grant_id'', PStr (ef_grant_id e)),
      (''target'', PStr (ef_target e)), (''amount'', PFloat (ef_amount e)),
      (''unit'', PStr (ef_unit e)), (''payload'', PDict (ef_payload e)),
      (''state'', PStr (case ef_state e of EffPartial \<Rightarrow> ''partial'' | EffApplied \<Rightarrow> ''applied''))]"

definition effect_of_request :: "apply_request \<Rightarrow> effect" where
  "effect_of_request q =
     \<lparr>ef_effect_id = rq_effect_id q, ef_grant_id = rq_grant_id q, ef_target = rq_target q,
      ef_amount = rq_amount q, ef_unit = rq_unit q, ef_payload = rq_payload q,
      ef_state = (if rq_partial q then EffPartial else EffApplied)\<rparr>"

record dest_state =
  ds_effects :: "string \<rightharpoonup> effect"
  ds_grant_counts :: "string \<rightharpoonup> int"

datatype dest_file = DestUnreadable | DestDoc dest_state

section \<open>The interface\<close>

locale effect_sink =
  fixes submit :: "apply_request \<Rightarrow> 'd \<Rightarrow> pydict res \<times> 'd"
    and effect_at :: "'d \<Rightarrow> string \<Rightarrow> effect option"
  assumes submit_other: "i \<noteq> rq_effect_id q \<Longrightarrow> effect_at (snd (submit q d)) i = effect_at d i"
    and submit_known: "effect_at d (rq_effect_id q) = Some e \<Longrightarrow>
        effect_at (snd (submit q d)) (rq_effect_id q) = Some e"
    and submit_fresh: "effect_at d (rq_effect_id q) = None \<Longrightarrow>
        effect_at (snd (submit q d)) (rq_effect_id q) = Some e \<Longrightarrow> e = effect_of_request q"
    and submit_ok: "submit q d = (Inr ack, d') \<Longrightarrow> effect_at d' (rq_effect_id q) \<noteq> None"
begin

primrec submit_all :: "apply_request list \<Rightarrow> 'd \<Rightarrow> 'd" where
  "submit_all [] d = d"
| "submit_all (q # qs) d = submit_all qs (snd (submit q d))"

lemma submit_keeps: "effect_at d i = Some e \<Longrightarrow> effect_at (snd (submit q d)) i = Some e"
  by (cases "i = rq_effect_id q") (auto simp: submit_other submit_known)

lemma submit_all_keeps: "effect_at d i = Some e \<Longrightarrow> effect_at (submit_all qs d) i = Some e"
  by (induction qs arbitrary: d) (auto simp: submit_keeps)

lemma submit_origin:
  "effect_at (snd (submit q d)) i = Some e \<Longrightarrow>
     effect_at d i = Some e \<or> (i = rq_effect_id q \<and> effect_at d i = None \<and> e = effect_of_request q)"
  by (cases "i = rq_effect_id q"; cases "effect_at d i")
    (auto simp: submit_other submit_known dest: submit_fresh)

lemma submit_all_origin:
  "effect_at (submit_all qs d) i = Some e \<Longrightarrow>
     effect_at d i = Some e \<or> (\<exists>q\<in>set qs. i = rq_effect_id q \<and> e = effect_of_request q)"
proof (induction qs arbitrary: d)
  case Nil
  then show ?case by simp
next
  case (Cons q qs)
  then have "effect_at (submit_all qs (snd (submit q d))) i = Some e" by simp
  from Cons.IH [OF this] show ?case by (auto dest: submit_origin)
qed

end

text \<open>The cap: how many effects a grant has, and that no request goes beyond its own limit.\<close>

locale capped_sink = effect_sink submit effect_at
  for submit :: "apply_request \<Rightarrow> 'd \<Rightarrow> pydict res \<times> 'd"
    and effect_at :: "'d \<Rightarrow> string \<Rightarrow> effect option" +
  fixes used :: "'d \<Rightarrow> string \<Rightarrow> int"
  assumes used_le: "used (snd (submit q d)) g \<le> used d g + 1"
    and used_grows: "used d g \<le> used (snd (submit q d)) g"
    and used_other: "g \<noteq> rq_grant_id q \<Longrightarrow> used (snd (submit q d)) g = used d g"
    and used_cap: "rq_max_effects q \<le> used d (rq_grant_id q) \<Longrightarrow>
        used (snd (submit q d)) (rq_grant_id q) = used d (rq_grant_id q)"
begin

lemma used_bounded:
  "used d g \<le> m \<Longrightarrow> (\<And>q. q \<in> set qs \<Longrightarrow> rq_grant_id q = g \<Longrightarrow> rq_max_effects q \<le> m) \<Longrightarrow>
     used (submit_all qs d) g \<le> m"
proof (induction qs arbitrary: d)
  case Nil
  then show ?case by simp
next
  case (Cons q qs)
  have "used (snd (submit q d)) g \<le> m"
  proof (cases "rq_grant_id q = g \<and> used d g < m")
    case True
    then show ?thesis using used_le [of q d g] by simp
  next
    case False
    show ?thesis
    proof (cases "rq_grant_id q = g")
      case True
      with False have "rq_max_effects q \<le> used d (rq_grant_id q)"
        using Cons.prems(2) [of q] by simp
      with True used_cap Cons.prems(1) show ?thesis by metis
    next
      case False
      then show ?thesis using used_other [of g q d] Cons.prems(1) by simp
    qed
  qed
  then show ?case using Cons.IH Cons.prems(2) by simp
qed

end

section \<open>The local destination\<close>

text \<open>The constructor writes an empty document when there is no file yet.\<close>

definition empty_destination :: "dest_file" where
  "empty_destination = DestDoc \<lparr>ds_effects = Map.empty, ds_grant_counts = Map.empty\<rparr>"

definition grant_used :: "dest_state \<Rightarrow> string \<Rightarrow> int" where
  "grant_used s g = (case ds_grant_counts s g of None \<Rightarrow> 0 | Some n \<Rightarrow> n)"

definition local_apply :: "apply_request \<Rightarrow> dest_file \<Rightarrow> pydict res \<times> dest_file" where
  "local_apply q f = (case f of
      DestUnreadable \<Rightarrow> (throw ValueError, f)
    | DestDoc s \<Rightarrow>
       (case ds_effects s (rq_effect_id q) of
          Some e \<Rightarrow> (Inr [(''duplicate'', PBool True), (''effect'', PDict (dump_effect e))], f)
        | None \<Rightarrow>
           (let used = grant_used s (rq_grant_id q)
            in if used \<ge> rq_max_effects q
               then (throw_msg RuntimeError ''cumulative grant max_effects exhausted'', f)
               else
                 (let e = effect_of_request q;
                      f' = DestDoc (s\<lparr>ds_effects := (ds_effects s)(rq_effect_id q \<mapsto> e),
                                      ds_grant_counts := (ds_grant_counts s)(rq_grant_id q \<mapsto> used + 1)\<rparr>)
                  in if rq_lose_ack q
                     then (throw_msg TimeoutError ''synthetic acknowledgement lost after commit'', f')
                     else (Inr [(''duplicate'', PBool False), (''effect'', PDict (dump_effect e))], f')))))"

definition local_observe :: "prims \<Rightarrow> int \<Rightarrow> string \<Rightarrow> dest_file \<Rightarrow> observation res" where
  "local_observe P now i f = (case f of
      DestUnreadable \<Rightarrow> throw ValueError
    | DestDoc s \<Rightarrow> (case ds_effects s i of
        None \<Rightarrow> Inr \<lparr>o_effect_id = i, o_observed_at = Some (isoformat_utc P now),
                     o_state = ObsAbsent, o_destination_state = []\<rparr>
      | Some e \<Rightarrow> Inr \<lparr>o_effect_id = i, o_observed_at = Some (isoformat_utc P now),
                       o_state = (case ef_state e of EffPartial \<Rightarrow> ObsPartial | EffApplied \<Rightarrow> ObsApplied),
                       o_destination_state = dump_effect e\<rparr>))"

definition local_snapshot :: "dest_file \<Rightarrow> dest_state res" where
  "local_snapshot f = (case f of DestUnreadable \<Rightarrow> throw ValueError | DestDoc s \<Rightarrow> Inr s)"

definition effect_in :: "dest_file \<Rightarrow> string \<Rightarrow> effect option" where
  "effect_in f i = (case f of DestUnreadable \<Rightarrow> None | DestDoc s \<Rightarrow> ds_effects s i)"

definition used_in :: "dest_file \<Rightarrow> string \<Rightarrow> int" where
  "used_in f g = (case f of DestUnreadable \<Rightarrow> 0 | DestDoc s \<Rightarrow> grant_used s g)"

lemma effect_in_simps [simp]: "effect_in (DestDoc s) i = ds_effects s i"
  "effect_in DestUnreadable i = None"
  by (simp_all add: effect_in_def)

lemma used_in_simps [simp]: "used_in (DestDoc s) g = grant_used s g" "used_in DestUnreadable g = 0"
  by (simp_all add: used_in_def)

text \<open>The four ways an apply ends.\<close>

lemma local_apply_cases:
  obtains (unreadable) "f = DestUnreadable" "local_apply q f = (throw ValueError, f)"
  | (duplicate) s e where "f = DestDoc s" "ds_effects s (rq_effect_id q) = Some e"
      "local_apply q f = (Inr [(''duplicate'', PBool True), (''effect'', PDict (dump_effect e))], f)"
  | (exhausted) s where "f = DestDoc s" "ds_effects s (rq_effect_id q) = None"
      "rq_max_effects q \<le> grant_used s (rq_grant_id q)"
      "local_apply q f = (throw_msg RuntimeError ''cumulative grant max_effects exhausted'', f)"
  | (committed) s r where "f = DestDoc s" "ds_effects s (rq_effect_id q) = None"
      "grant_used s (rq_grant_id q) < rq_max_effects q"
      "local_apply q f = (r, DestDoc (s\<lparr>ds_effects := (ds_effects s)(rq_effect_id q \<mapsto> effect_of_request q),
         ds_grant_counts := (ds_grant_counts s)(rq_grant_id q \<mapsto> grant_used s (rq_grant_id q) + 1)\<rparr>))"
      "r = (if rq_lose_ack q then throw_msg TimeoutError ''synthetic acknowledgement lost after commit''
            else Inr [(''duplicate'', PBool False), (''effect'', PDict (dump_effect (effect_of_request q)))])"
proof (cases f)
  case DestUnreadable
  then show ?thesis by (intro unreadable) (simp_all add: local_apply_def)
next
  case (DestDoc s)
  show ?thesis
  proof (cases "ds_effects s (rq_effect_id q)")
    case (Some e)
    with DestDoc show ?thesis by (intro duplicate) (simp_all add: local_apply_def)
  next
    case None
    show ?thesis
    proof (cases "rq_max_effects q \<le> grant_used s (rq_grant_id q)")
      case True
      with DestDoc None show ?thesis by (intro exhausted) (simp_all add: local_apply_def)
    next
      case False
      with DestDoc None show ?thesis by (intro committed) (simp_all add: local_apply_def Let_def)
    qed
  qed
qed

interpretation local: capped_sink local_apply effect_in used_in
proof unfold_locales
  fix q :: apply_request and d and i :: string
  assume "i \<noteq> rq_effect_id q"
  then show "effect_in (snd (local_apply q d)) i = effect_in d i"
    by (cases rule: local_apply_cases [of d q]) auto
next
  fix q :: apply_request and d e
  assume "effect_in d (rq_effect_id q) = Some e"
  then show "effect_in (snd (local_apply q d)) (rq_effect_id q) = Some e"
    by (cases rule: local_apply_cases [of d q]) auto
next
  fix q :: apply_request and d e
  assume "effect_in d (rq_effect_id q) = None"
    "effect_in (snd (local_apply q d)) (rq_effect_id q) = Some e"
  then show "e = effect_of_request q"
    by (cases rule: local_apply_cases [of d q]) auto
next
  fix q :: apply_request and d ack d'
  assume "local_apply q d = (Inr ack, d')"
  then show "effect_in d' (rq_effect_id q) \<noteq> None"
    by (cases rule: local_apply_cases [of d q]) (auto split: if_splits)
next
  fix q :: apply_request and d g
  show "used_in (snd (local_apply q d)) g \<le> used_in d g + 1"
    by (cases rule: local_apply_cases [of d q]) (auto simp: grant_used_def)
  show "used_in d g \<le> used_in (snd (local_apply q d)) g"
    by (cases rule: local_apply_cases [of d q]) (auto simp: grant_used_def)
  show "used_in (snd (local_apply q d)) g = used_in d g" if "g \<noteq> rq_grant_id q"
    using that by (cases rule: local_apply_cases [of d q]) (auto simp: grant_used_def)
  show "used_in (snd (local_apply q d)) (rq_grant_id q) = used_in d (rq_grant_id q)"
    if "rq_max_effects q \<le> used_in d (rq_grant_id q)"
    using that by (cases rule: local_apply_cases [of d q]) auto
qed

section \<open>The counters count\<close>

text \<open>The invariant of the document: each grant's counter is the number of its effects.\<close>

definition dest_inv :: "dest_file \<Rightarrow> bool" where
  "dest_inv f = (case f of DestUnreadable \<Rightarrow> True | DestDoc s \<Rightarrow>
     finite (dom (ds_effects s)) \<and>
     (\<forall>i e. ds_effects s i = Some e \<longrightarrow> ef_effect_id e = i) \<and>
     (\<forall>g. grant_used s g = int (card {i. \<exists>e. ds_effects s i = Some e \<and> ef_grant_id e = g})))"

lemma dest_inv_empty: "dest_inv empty_destination"
  by (simp add: dest_inv_def empty_destination_def grant_used_def)

lemma card_grant_insert:
  assumes fin: "finite (dom m)" and new: "m i = None"
  shows "card {j. \<exists>e. (m(i \<mapsto> x)) j = Some e \<and> ef_grant_id e = g} =
    card {j. \<exists>e. m j = Some e \<and> ef_grant_id e = g} + (if ef_grant_id x = g then 1 else 0)"
proof -
  let ?S = "{j. \<exists>e. m j = Some e \<and> ef_grant_id e = g}"
  have "finite ?S" by (rule finite_subset [OF _ fin]) auto
  moreover have "i \<notin> ?S" using new by simp
  moreover have "{j. \<exists>e. (m(i \<mapsto> x)) j = Some e \<and> ef_grant_id e = g} =
      (if ef_grant_id x = g then insert i ?S else ?S)"
    using new by auto
  ultimately show ?thesis by simp
qed

lemma dest_inv_apply: "dest_inv f \<Longrightarrow> dest_inv (snd (local_apply q f))"
proof (cases rule: local_apply_cases [of f q])
  case (committed s r)
  assume "dest_inv f"
  with committed(1) have fin: "finite (dom (ds_effects s))"
    and ids: "\<And>i e. ds_effects s i = Some e \<Longrightarrow> ef_effect_id e = i"
    and cnt: "\<And>g. grant_used s g = int (card {i. \<exists>e. ds_effects s i = Some e \<and> ef_grant_id e = g})"
    by (auto simp: dest_inv_def)
  let ?s' = "s\<lparr>ds_effects := (ds_effects s)(rq_effect_id q \<mapsto> effect_of_request q),
     ds_grant_counts := (ds_grant_counts s)(rq_grant_id q \<mapsto> grant_used s (rq_grant_id q) + 1)\<rparr>"
  have used': "grant_used ?s' g = grant_used s g + (if g = rq_grant_id q then 1 else 0)" for g
    by (simp add: grant_used_def)
  have grant: "ef_grant_id (effect_of_request q) = rq_grant_id q"
    and id: "ef_effect_id (effect_of_request q) = rq_effect_id q"
    by (simp_all add: effect_of_request_def)
  have "grant_used ?s' g = int (card {i. \<exists>e. ds_effects ?s' i = Some e \<and> ef_grant_id e = g})" for g
    unfolding used' using card_grant_insert [OF fin committed(2), of "effect_of_request q" g] cnt [of g]
    by (auto simp: grant)
  with committed fin ids id show ?thesis by (auto simp: dest_inv_def)
qed (auto simp: dest_inv_def)

lemma dest_inv_submit_all: "dest_inv f \<Longrightarrow> dest_inv (local.submit_all qs f)"
  by (induction qs arbitrary: f) (auto simp: dest_inv_apply)

section \<open>Properties\<close>

text \<open>
  At most once: whatever requests arrive afterwards, in whatever order and with whatever
  contents, an effect the local destination holds stays recorded exactly as it was first
  committed, and every effect it ends up holding was there before or is exactly what one of
  the requests with that effect id asked for.
\<close>

theorem effects_applied_at_most_once:
  "(effect_in f i = Some e \<longrightarrow> effect_in (local.submit_all qs f) i = Some e) \<and>
   (effect_in (local.submit_all qs f) i = Some e' \<longrightarrow>
      effect_in f i = Some e' \<or>
      (\<exists>q\<in>set qs. i = rq_effect_id q \<and> e' = effect_of_request q))"
  using local.submit_all_keeps local.submit_all_origin by blast

theorem effects_applied_at_most_once_witness:
  "let e = \<lparr>ef_effect_id = ''e'', ef_grant_id = ''g'', ef_target = ''t'', ef_amount = 1, ef_unit = ''USD'',
             ef_payload = [], ef_state = EffApplied\<rparr>;
       d = DestDoc \<lparr>ds_effects = [''e'' \<mapsto> e], ds_grant_counts = [''g'' \<mapsto> 1]\<rparr>;
       q = \<lparr>rq_effect_id = ''e'', rq_grant_id = ''g'', rq_max_effects = 9, rq_target = ''other'', rq_amount = 7,
             rq_unit = ''EUR'', rq_payload = [], rq_lose_ack = False, rq_partial = True\<rparr>
   in effect_in (local.submit_all [q, q] d) ''e'' = Some e"
  unfolding Let_def by (rule effects_applied_at_most_once [THEN conjunct1, THEN mp]) simp

text \<open>
  The cumulative cap: starting from an empty local destination, if no request for a grant
  asks for more than \<open>m\<close> effects, the destination never holds more than \<open>m\<close> effects of that
  grant, after any sequence of requests.
\<close>

theorem grant_cap_respected:
  assumes "0 \<le> m"
    and "\<And>q. q \<in> set qs \<Longrightarrow> rq_grant_id q = g \<Longrightarrow> rq_max_effects q \<le> m"
  shows "int (card {i. \<exists>e. effect_in (local.submit_all qs empty_destination) i = Some e \<and>
     ef_grant_id e = g}) \<le> m"
proof -
  have "used_in empty_destination g \<le> m"
    using assms(1) by (simp add: empty_destination_def grant_used_def)
  then have "used_in (local.submit_all qs empty_destination) g \<le> m"
    by (rule local.used_bounded) (rule assms(2))
  moreover have "dest_inv (local.submit_all qs empty_destination)"
    by (rule dest_inv_submit_all [OF dest_inv_empty])
  ultimately show ?thesis
    using assms(1) by (cases "local.submit_all qs empty_destination") (auto simp: dest_inv_def)
qed

theorem grant_cap_respected_witness:
  "let q = \<lparr>rq_effect_id = ''e'', rq_grant_id = ''g'', rq_max_effects = 1, rq_target = ''t'', rq_amount = 1,
             rq_unit = ''USD'', rq_payload = [], rq_lose_ack = False, rq_partial = False\<rparr>
   in int (card {i. \<exists>e. effect_in (local.submit_all [q, q] empty_destination) i = Some e \<and>
        ef_grant_id e = ''g''}) \<le> 1"
  unfolding Let_def by (rule grant_cap_respected) auto

end
