(* ===== verification/World.thy ===== *)
theory World
  imports RecordStore Destination
begin

text \<open>
  The effects of the workflow of \<open>bounded.py\<close>: what one call reads and writes besides its
  arguments. The world holds the record file, the destination's state, and how often
  \<open>uuid.uuid4\<close> and the clock were asked. An action returns a result or raises, in a new
  world; a raise keeps what was written before it. The destination is a parameter: a record of
  the two operations the workflow calls.
\<close>

record 'd world =
  w_store :: store_file
  w_dest :: 'd
  w_uuids :: nat
  w_ticks :: nat

record 'd destination =
  dst_submit :: "apply_request \<Rightarrow> 'd \<Rightarrow> pydict res \<times> 'd"
  dst_observe :: "int \<Rightarrow> string \<Rightarrow> 'd \<Rightarrow> observation res"

type_synonym ('d, 'a) act = "'d world \<Rightarrow> 'a res \<times> 'd world"

definition local_destination :: "prims \<Rightarrow> dest_file destination" where
  "local_destination P = \<lparr>dst_submit = local_apply, dst_observe = local_observe P\<rparr>"

section \<open>Actions\<close>

definition returnA :: "'a \<Rightarrow> ('d, 'a) act" where
  "returnA x w = (Inr x, w)"

definition bindA :: "('d, 'a) act \<Rightarrow> ('a \<Rightarrow> ('d, 'b) act) \<Rightarrow> ('d, 'b) act" where
  "bindA m f w = (case m w of (Inl e, w') \<Rightarrow> (Inl e, w') | (Inr x, w') \<Rightarrow> f x w')"

text \<open>A computation without effects, and \<open>raise\<close>.\<close>

definition liftA :: "'a res \<Rightarrow> ('d, 'a) act" where
  "liftA r w = (r, w)"

definition raiseA :: "exn_class \<Rightarrow> string \<Rightarrow> ('d, 'a) act" where
  "raiseA c m w = (throw_msg c m, w)"

definition nowA :: "prims \<Rightarrow> ('d, pydatetime) act" where
  "nowA P w = (Inr (Aware (clock P (w_ticks w))), w\<lparr>w_ticks := Suc (w_ticks w)\<rparr>)"

text \<open>\<open>now or _now()\<close>; a datetime is always true.\<close>

definition given_or_now :: "prims \<Rightarrow> pydatetime option \<Rightarrow> ('d, pydatetime) act" where
  "given_or_now P now = (case now of Some t \<Rightarrow> returnA t | None \<Rightarrow> nowA P)"

definition uuidA :: "prims \<Rightarrow> ('d, string) act" where
  "uuidA P w = (Inr (uuid4 P (w_uuids w)), w\<lparr>w_uuids := Suc (w_uuids w)\<rparr>)"

definition recordA :: "entry \<Rightarrow> ('d, unit) act" where
  "recordA e w = (case store_append e (w_store w) of
      Inl x \<Rightarrow> (Inl x, w)
    | Inr f \<Rightarrow> (Inr (), w\<lparr>w_store := f\<rparr>))"

definition loadA :: "('d, run_record) act" where
  "loadA w = (store_load (w_store w), w)"

text \<open>Calling the destination; the outcome is a value, for the caller's \<open>try\<close>.\<close>

definition submitA :: "'d destination \<Rightarrow> apply_request \<Rightarrow> ('d, pydict res) act" where
  "submitA D q w = (case dst_submit D q (w_dest w) of (r, d) \<Rightarrow> (Inr r, w\<lparr>w_dest := d\<rparr>))"

definition observeA :: "prims \<Rightarrow> 'd destination \<Rightarrow> string \<Rightarrow> ('d, observation res) act" where
  "observeA P D i w = (Inr (dst_observe D (clock P (w_ticks w)) i (w_dest w)), w\<lparr>w_ticks := Suc (w_ticks w)\<rparr>)"

lemmas act_defs = returnA_def bindA_def liftA_def raiseA_def nowA_def given_or_now_def uuidA_def
  recordA_def loadA_def submitA_def observeA_def

section \<open>Reading a run of an action\<close>

named_theorems act_iff "what a run of a composed action says of its parts"

lemma returnA_iff [act_iff]: "returnA x w = (r, w') \<longleftrightarrow> r = Inr x \<and> w' = w"
  by (auto simp: returnA_def)

lemma liftA_iff [act_iff]: "liftA m w = (r, w') \<longleftrightarrow> m = r \<and> w' = w"
  by (auto simp: liftA_def)

lemma raiseA_iff [act_iff]: "raiseA c m w = (r, w') \<longleftrightarrow> r = throw_msg c m \<and> w' = w"
  by (auto simp: raiseA_def)

lemma bindA_Inr_iff [act_iff]:
  "bindA m f w = (Inr y, w') \<longleftrightarrow> (\<exists>x v. m w = (Inr x, v) \<and> f x v = (Inr y, w'))"
  by (auto simp: bindA_def split: prod.splits sum.splits)

lemma bindA_cases:
  assumes "bindA m f w = (r, w')"
  obtains (raised) e where "m w = (Inl e, w')" "r = Inl e"
  | (went_on) x v where "m w = (Inr x, v)" "f x v = (r, w')"
  using assms by (auto simp: bindA_def split: prod.splits sum.splits)

lemma nowA_iff [act_iff]: "nowA P w = (r, w') \<longleftrightarrow>
    r = Inr (Aware (clock P (w_ticks w))) \<and> w' = w\<lparr>w_ticks := Suc (w_ticks w)\<rparr>"
  by (auto simp: nowA_def)

lemma uuidA_iff [act_iff]: "uuidA P w = (r, w') \<longleftrightarrow>
    r = Inr (uuid4 P (w_uuids w)) \<and> w' = w\<lparr>w_uuids := Suc (w_uuids w)\<rparr>"
  by (auto simp: uuidA_def)

lemma recordA_Inr_iff [act_iff]: "recordA e w = (Inr u, w') \<longleftrightarrow>
    (\<exists>r. w_store w = Document r \<and> w' = w\<lparr>w_store := Document (add_entry e r)\<rparr>)"
  by (auto simp: recordA_def store_append_Inr_iff split: sum.splits)
     (metis Inr_inject store_append_Inr_iff sum.distinct(1))

lemma loadA_iff [act_iff]: "loadA w = (r, w') \<longleftrightarrow> store_load (w_store w) = r \<and> w' = w"
  by (auto simp: loadA_def)

section \<open>What an action may change\<close>

text \<open>
  An action is read-only for the destination when no run of it changes the destination, and
  a recorder when every run of it leaves the record file extended or as it was.
\<close>

definition keeps_dest :: "('d, 'a) act \<Rightarrow> bool" where
  "keeps_dest m \<longleftrightarrow> (\<forall>w. w_dest (snd (m w)) = w_dest w)"

definition extends_store :: "('d, 'a) act \<Rightarrow> bool" where
  "extends_store m \<longleftrightarrow> (\<forall>w. store.extends (w_store w) (w_store (snd (m w))))"

named_theorems keeps "actions that leave the destination alone"
named_theorems extending "actions that only extend the record file"

lemma keeps_destD: "keeps_dest m \<Longrightarrow> m w = (r, w') \<Longrightarrow> w_dest w' = w_dest w"
  unfolding keeps_dest_def by (metis snd_conv)

lemma extends_storeD: "extends_store m \<Longrightarrow> m w = (r, w') \<Longrightarrow> store.extends (w_store w) (w_store w')"
  unfolding extends_store_def by (metis snd_conv)

lemma keeps_bindA: "keeps_dest m \<Longrightarrow> (\<And>x. keeps_dest (f x)) \<Longrightarrow> keeps_dest (bindA m f)"
  unfolding keeps_dest_def bindA_def by (auto split: prod.splits sum.splits) (metis snd_conv)+

lemma extends_bindA: "extends_store m \<Longrightarrow> (\<And>x. extends_store (f x)) \<Longrightarrow> extends_store (bindA m f)"
  unfolding extends_store_def bindA_def
  by (auto split: prod.splits sum.splits) (metis snd_conv store.extends_trans)+

lemma keeps_basic [keeps]: "keeps_dest (returnA x)" "keeps_dest (liftA r)" "keeps_dest (raiseA c s)"
  "keeps_dest (nowA P)" "keeps_dest (given_or_now P t)" "keeps_dest (uuidA P)" "keeps_dest (recordA e)"
  "keeps_dest loadA" "keeps_dest (observeA P D i)"
  by (auto simp: keeps_dest_def act_defs split: sum.splits option.splits)

lemma extends_basic [extending]: "extends_store (returnA x)" "extends_store (liftA r)"
  "extends_store (raiseA c s)" "extends_store (nowA P)" "extends_store (given_or_now P t)"
  "extends_store (uuidA P)" "extends_store loadA" "extends_store (submitA D q)"
  "extends_store (observeA P D i)" "extends_store (recordA e)"
  by (auto simp: extends_store_def act_defs store.extends_refl store.append_extends
      split: sum.splits option.splits prod.splits)

end
