(* ===== verification/Resolver.thy ===== *)
theory Resolver
  imports BoundedModels
begin

text \<open>
  The resolver interface (\<open>Resolver\<close>) and the synthetic resolver (\<open>SyntheticResolver\<close>) of
  \<open>bounded.py\<close>. The workflow passes values it read from raw documents to the resolver, so
  the arguments are raw values and any call may raise. One record of answers is the
  resolver during one workflow call: its answers may differ from call to call, and do not
  change within one.
\<close>

record snapshot =
  sn_context :: pydict
  sn_grant_status :: "grant_status option"
  sn_approvals :: "(string \<times> approval_status) list"
  sn_policies :: "(string \<times> policy_status) list"
  sn_evidence :: "(string \<times> evidence_status) list"

record resolver =
  rs_authority_context :: "string \<Rightarrow> pydict option res"
  rs_grant_status :: "pyval \<Rightarrow> grant_status option res"
  rs_identity_status :: "pyval \<Rightarrow> pyval \<Rightarrow> identity_status res"
  rs_issuer_mandate :: "pyval \<Rightarrow> pyval \<Rightarrow> mandate_status res"
  rs_approval_status :: "pyval \<Rightarrow> approval_status option res"
  rs_policy_status :: "pyval \<Rightarrow> policy_status option res"
  rs_conflict_status :: "pyval \<Rightarrow> conflict_status option res"
  rs_evidence_status :: "pyval \<Rightarrow> evidence_status option res"
  rs_role_mapping :: "pyval \<Rightarrow> role_mapping_status option res"
  rs_authority_effect_snapshot :: "string \<Rightarrow> snapshot option res"

section \<open>The synthetic resolver\<close>

record synthetic =
  sy_contexts :: "string \<rightharpoonup> pydict"
  sy_statuses :: "string \<rightharpoonup> grant_status"
  sy_identities :: "string \<rightharpoonup> identity_status"
  sy_mandates :: "string \<rightharpoonup> mandate_status"
  sy_approvals :: "string \<rightharpoonup> approval_status"
  sy_policies :: "string \<rightharpoonup> policy_status"
  sy_conflicts :: "string \<rightharpoonup> conflict_status"
  sy_evidence :: "string \<rightharpoonup> evidence_status"
  sy_role_mappings :: "string \<rightharpoonup> role_mapping_status"

text \<open>\<open>d.get(k)\<close> with a raw key on a dict whose keys are strings.\<close>

definition raw_lookup :: "(string \<rightharpoonup> 'a) \<Rightarrow> pyval \<Rightarrow> 'a option res" where
  "raw_lookup m v = (case v of
      PStr s \<Rightarrow> Inr (m s)
    | _ \<Rightarrow> if hashable v then Inr None else throw TypeError)"

lemma raw_lookup_PStr [simp]: "raw_lookup m (PStr s) = Inr (m s)"
  by (simp add: raw_lookup_def)

lemma raw_lookup_Some: "raw_lookup m v = Inr (Some x) \<longleftrightarrow> (\<exists>s. v = PStr s \<and> m s = Some x)"
  by (cases v) (auto simp: raw_lookup_def)

text \<open>An unknown identity is reported as unauthenticated, under an unknown institution.\<close>

definition unknown_identity :: "prims \<Rightarrow> int \<Rightarrow> string \<Rightarrow> string \<Rightarrow> identity_status" where
  "unknown_identity P now i p =
     \<lparr>is_identity = i, is_principal = p, is_authenticated = False, is_delegation_valid = False,
      is_observed_at = isoformat_utc P now,
      is_institution_id = ''urn:cognous:institution:unknown'',
      is_authority_domain = ''unknown'', is_chain = []\<rparr>"

definition synthetic_identity :: "prims \<Rightarrow> int \<Rightarrow> synthetic \<Rightarrow> pyval \<Rightarrow> pyval \<Rightarrow> identity_status res" where
  "synthetic_identity P now sy acting princ =
     bindE (raw_lookup (sy_identities sy) acting) (\<lambda>value. case value of
       Some v \<Rightarrow> Inr v
     | None \<Rightarrow> bindE (expect_str acting) (\<lambda>i. bindE (expect_str princ) (\<lambda>p.
         Inr (unknown_identity P now i p))))"

definition unknown_mandate :: "prims \<Rightarrow> int \<Rightarrow> string \<Rightarrow> string \<Rightarrow> mandate_status" where
  "unknown_mandate P now i r =
     \<lparr>ms_issuer = i, ms_issuer_role = r, ms_issuance_record_ref = ''urn:cognous:issuance:unknown'',
      ms_mandate_valid = False, ms_observed_at = isoformat_utc P now,
      ms_institution_id = ''urn:cognous:institution:unknown'', ms_authority_domain = ''unknown''\<rparr>"

definition synthetic_mandate :: "prims \<Rightarrow> int \<Rightarrow> synthetic \<Rightarrow> pyval \<Rightarrow> pyval \<Rightarrow> mandate_status res" where
  "synthetic_mandate P now sy issuer role =
     (case sy_mandates sy (py_str P issuer @ ''|'' @ py_str P role) of
       Some v \<Rightarrow> Inr v
     | None \<Rightarrow> bindE (expect_str issuer) (\<lambda>i. bindE (expect_str role) (\<lambda>r.
         Inr (unknown_mandate P now i r))))"

text \<open>The entries of a table that a list of raw references names.\<close>

definition known :: "(string \<rightharpoonup> 'a) \<Rightarrow> (pyval \<Rightarrow> pyval res) \<Rightarrow> pyval list \<Rightarrow> (string \<times> 'a) list res" where
  "known m key vs = collectE (\<lambda>v. bindE (key v) (\<lambda>ref. bindE (raw_lookup m ref) (\<lambda>x.
     Inr (case x of None \<Rightarrow> [] | Some a \<Rightarrow> [(str_of ref, a)])))) vs"

definition synthetic_snapshot :: "synthetic \<Rightarrow> string \<Rightarrow> snapshot option res" where
  "synthetic_snapshot sy ref = (case sy_contexts sy ref of
      None \<Rightarrow> Inr None
    | Some context \<Rightarrow>
       (let grant = py_or (dget context ''grant'') (PDict []);
            requirement = py_or (dget context ''requirement'') (PDict [])
        in bindE (vget grant ''grant_id'') (\<lambda>gid.
           bindE (raw_lookup (sy_statuses sy) gid) (\<lambda>status.
           bindE (bindE (vget_or grant ''approval_refs'' (PList [])) py_iter) (\<lambda>refs.
           bindE (known (sy_approvals sy) Inr refs) (\<lambda>approvals.
           bindE (bindE (vget_or grant ''policy_versions'' (PList [])) py_iter) (\<lambda>items.
           bindE (known (sy_policies sy) (\<lambda>item. vget item ''ref'') items) (\<lambda>policies.
           bindE (bindE (vget_or requirement ''evidence'' (PList [])) py_iter) (\<lambda>obligations.
           bindE (known (sy_evidence sy) (\<lambda>item. vget item ''obligation_id'') obligations) (\<lambda>evidence.
             Inr (Some \<lparr>sn_context = context, sn_grant_status = status, sn_approvals = approvals,
                        sn_policies = policies, sn_evidence = evidence\<rparr>)))))))))))"

definition synthetic_resolver :: "prims \<Rightarrow> int \<Rightarrow> synthetic \<Rightarrow> resolver" where
  "synthetic_resolver P now sy =
     \<lparr>rs_authority_context = (\<lambda>ref. Inr (sy_contexts sy ref)),
      rs_grant_status = raw_lookup (sy_statuses sy),
      rs_identity_status = synthetic_identity P now sy,
      rs_issuer_mandate = synthetic_mandate P now sy,
      rs_approval_status = raw_lookup (sy_approvals sy),
      rs_policy_status = raw_lookup (sy_policies sy),
      rs_conflict_status = raw_lookup (sy_conflicts sy),
      rs_evidence_status = raw_lookup (sy_evidence sy),
      rs_role_mapping = raw_lookup (sy_role_mappings sy),
      rs_authority_effect_snapshot = synthetic_snapshot sy\<rparr>"

text \<open>
  An identity the synthetic resolver does not know is never authenticated, and a mandate it
  does not know is never valid.
\<close>

lemma unknown_identity_unauthenticated:
  "sy_identities sy i = None \<Longrightarrow> synthetic_identity P now sy (PStr i) (PStr p) = Inr st \<Longrightarrow>
     \<not> is_authenticated st \<and> \<not> is_delegation_valid st"
  by (auto simp: synthetic_identity_def unknown_identity_def expect_str_def)

lemma unknown_mandate_invalid:
  "sy_mandates sy (i @ ''|'' @ r) = None \<Longrightarrow> synthetic_mandate P now sy (PStr i) (PStr r) = Inr st \<Longrightarrow>
     \<not> ms_mandate_valid st"
  by (auto simp: synthetic_mandate_def unknown_mandate_def expect_str_def)

text \<open>
  The snapshot for claim issuance agrees with the single queries: every entry it lists is
  what the resolver would answer for that reference.
\<close>

lemma known_entries:
  "known m key vs = Inr ps \<Longrightarrow> (k, x) \<in> set ps \<Longrightarrow> m k = Some x \<and> (\<exists>v\<in>set vs. key v = Inr (PStr k))"
proof (induction vs arbitrary: ps)
  case Nil
  then show ?case by (simp add: known_def)
next
  case (Cons v vs)
  from Cons.prems(1) obtain ref y qs where y: "key v = Inr ref" "raw_lookup m ref = Inr y"
    and qs: "known m key vs = Inr qs"
    and ps: "ps = (case y of None \<Rightarrow> [] | Some a \<Rightarrow> [(str_of ref, a)]) @ qs"
    by (auto simp: known_def appendE_def bindE_Inr_iff)
  show ?case
  proof (cases "(k, x) \<in> set qs")
    case True
    from Cons.IH [OF qs True] show ?thesis by auto
  next
    case False
    with ps Cons.prems(2) have "y = Some x" "k = str_of ref" by (auto split: option.splits)
    with y show ?thesis by (auto simp: raw_lookup_Some)
  qed
qed

end
