(* ===== verification/Manifest.thy ===== *)
theory Manifest
  imports BoundedModels
begin

text \<open>
  The declared action envelope: \<open>_manifest_mismatches\<close> and \<open>_matching_permission\<close> of
  \<open>BoundedAuthorizationWorkflow\<close> in \<open>bounded.py\<close>. The manifest is a raw document; the checks
  are in the order of the code, one definition per block, each giving the reasons that block
  appends.
\<close>

definition MANIFEST_VERSION :: string where
  "MANIFEST_VERSION = ''1.1''"

section \<open>Looking up the declaration\<close>

text \<open>\<open>next((x for x in manifest.get("actions", []) if x.get("action_id") == id), None)\<close>\<close>

definition find_action :: "pydict \<Rightarrow> string \<Rightarrow> pyval option res" where
  "find_action manifest action_id =
     bindE (py_iter (dget_or manifest ''actions'' (PList []))) (\<lambda>xs.
       findE (\<lambda>x. bindE (vget x ''action_id'') (\<lambda>v. Inr (py_eq v (PStr action_id)))) xs)"

definition find_tool :: "pydict \<Rightarrow> pyval \<Rightarrow> pyval option res" where
  "find_tool manifest action =
     bindE (py_iter (dget_or manifest ''tools'' (PList []))) (\<lambda>xs.
       findE (\<lambda>x. bindE (vget x ''tool_name'') (\<lambda>v.
         bindE (vget action ''tool_name'') (\<lambda>w. Inr (py_eq v w)))) xs)"

section \<open>The blocks of the check\<close>

definition version_reasons :: "prims \<Rightarrow> pydict \<Rightarrow> proposal \<Rightarrow> string list" where
  "version_reasons P manifest p =
     flag (p_manifest_version p \<noteq> MANIFEST_VERSION) ''unsupported_manifest_version'' @
     flag (dget manifest ''manifest_version'' \<noteq> PStr MANIFEST_VERSION) ''manifest_version_mismatch'' @
     flag (dget manifest ''manifest_id'' \<noteq> PStr (p_manifest_id p)) ''manifest_id_mismatch'' @
     flag (p_manifest_digest p \<noteq> commitment P (PDict manifest)) ''manifest_digest_mismatch'' @
     flag (p_payload_commitment p \<noteq> commitment P (PDict (p_payload p))) ''payload_commitment_mismatch''"

definition adapter_reasons :: "pydict \<Rightarrow> pyval \<Rightarrow> proposal \<Rightarrow> string list res" where
  "adapter_reasons manifest action p =
     bindE (find_tool manifest action) (\<lambda>tool. case tool of
       None \<Rightarrow> Inr [''adapter_mismatch'']
     | Some t \<Rightarrow> bindE (vget t ''adapter_id'') (\<lambda>a.
         Inr (flag (a \<noteq> PStr (p_adapter_id p)) ''adapter_mismatch'')))"

definition target_reasons :: "pyval \<Rightarrow> proposal \<Rightarrow> string list res" where
  "target_reasons action p =
     bindE (vget action ''target_policy'') (\<lambda>tp.
       flagE (orE (Inr (\<not> truthy tp))
             (orE (bindE (vget tp ''allow_any_target'') (\<lambda>v. Inr (truthy v)))
                  (negE (bindE (vget_or tp ''allowed_targets'' (PList [])) (py_in (PStr (p_target p)))))))
         ''target_out_of_scope'')"

definition payload_reasons :: "pyval \<Rightarrow> proposal \<Rightarrow> string list res" where
  "payload_reasons action p =
     bindE (vget action ''payload_policy'') (\<lambda>pp.
       if pp = PNone then Inr [''missing_payload_policy'']
       else
         (let keys = map (\<lambda>(k, _). PStr k) (p_payload p)
          in bindE (bindE (vget_or pp ''required_fields'' (PList [])) py_set) (\<lambda>required.
             bindE (bindE (vget_or pp ''optional_fields'' (PList [])) py_set) (\<lambda>optional.
             bindE (bindE (vget_or pp ''forbidden_fields'' (PList [])) py_set) (\<lambda>forbidden.
               Inr (flag (list_ex (\<lambda>r. \<not> py_mem r keys) required) ''missing_required_payload_field'' @
                    flag (list_ex (\<lambda>k. py_mem k forbidden) keys) ''forbidden_payload_field'' @
                    flag (list_ex (\<lambda>k. \<not> py_mem k required \<and> \<not> py_mem k optional) keys)
                      ''undeclared_payload_field''))))))"

definition limit_reasons :: "prims \<Rightarrow> pyval \<Rightarrow> proposal \<Rightarrow> string list res" where
  "limit_reasons P action p =
     bindE (vget action ''effect_limits'') (\<lambda>limits.
       if \<not> truthy limits then Inr []
       else
         appendE (flagE (bindE (bindE (vget_or limits ''max_effects'' (PInt 0)) (py_int P))
                    (\<lambda>n. Inr (p_effects p > n))) ''effect_count_exceeded'')
        (appendE (flagE (andE (bindE (vget limits ''max_amount'') (\<lambda>v. Inr (v \<noteq> PNone)))
                    (bindE (bindE (vitem limits ''max_amount'') (py_float P)) (\<lambda>q. Inr (p_amount p > q))))
                  ''amount_exceeded'')
                 (flagE (andE (bindE (vget limits ''unit'') (\<lambda>v. Inr (v \<noteq> PNone)))
                    (bindE (vitem limits ''unit'') (\<lambda>v. Inr (v \<noteq> PStr (p_unit p)))))
                  ''amount_unit_mismatch'')))"

text \<open>\<open>{x["scope"] for x in action.get("authority_required", []) if x.get("required", True)}\<close>\<close>

definition needed_scopes :: "pyval \<Rightarrow> pyval list res" where
  "needed_scopes action =
     bindE (bindE (vget_or action ''authority_required'' (PList [])) py_iter) (\<lambda>xs.
       collectE (\<lambda>x. bindE (vget_or x ''required'' (PBool True)) (\<lambda>req.
         if truthy req
         then bindE (vitem x ''scope'') (\<lambda>s. if hashable s then Inr [s] else throw TypeError)
         else Inr [])) xs)"

definition permission_reasons :: "pyval \<Rightarrow> proposal \<Rightarrow> string list res" where
  "permission_reasons action p =
     bindE (needed_scopes action) (\<lambda>needed.
       Inr (flag (\<not> list_all (\<lambda>s. py_mem s (map PStr (p_requested_permissions p))) needed)
              ''missing_requested_permission''))"

definition profile_reasons :: "pyval \<Rightarrow> proposal \<Rightarrow> string list res" where
  "profile_reasons action p =
     bindE (vget action ''authority_context'') (\<lambda>auth.
       if \<not> truthy auth then Inr []
       else
         appendE (flagE (bindE (vget auth ''profile_ref'')
                    (\<lambda>v. Inr (v \<noteq> opt_str (p_authority_context_ref p)))) ''authority_profile_mismatch'')
                 (flagE (bindE (vget auth ''requirement_id'')
                    (\<lambda>v. Inr (v \<noteq> opt_str (p_requirement_id p)))) ''authority_requirement_mismatch''))"

text \<open>\<open>s and _parse(s) ...\<close> for an optional time: absent and empty texts are false.\<close>

definition given_time :: "prims \<Rightarrow> string option \<Rightarrow> (int \<Rightarrow> bool res) \<Rightarrow> bool res" where
  "given_time P s c = (case s of
      None \<Rightarrow> Inr False
    | Some t \<Rightarrow> if t = [] then Inr False else bindE (parse_time P t) c)"

definition validity_reasons :: "prims \<Rightarrow> proposal \<Rightarrow> pydatetime \<Rightarrow> string list res" where
  "validity_reasons P p now =
     appendE (flagE (given_time P (p_not_before p) (\<lambda>t. bindE (instant now) (\<lambda>n. Inr (t > n))))
                ''proposal_not_yet_valid'')
             (flagE (given_time P (p_expires_at p) (\<lambda>t. bindE (instant now) (\<lambda>n. Inr (t \<le> n))))
                ''proposal_expired'')"

definition action_reasons :: "prims \<Rightarrow> pydict \<Rightarrow> pyval \<Rightarrow> proposal \<Rightarrow> pydatetime \<Rightarrow> string list res" where
  "action_reasons P manifest action p now =
     appendE (adapter_reasons manifest action p)
    (appendE (target_reasons action p)
    (appendE (payload_reasons action p)
    (appendE (limit_reasons P action p)
    (appendE (permission_reasons action p)
    (appendE (profile_reasons action p)
             (validity_reasons P p now))))))"

definition manifest_mismatches ::
  "prims \<Rightarrow> pydict \<Rightarrow> proposal \<Rightarrow> pydatetime \<Rightarrow> string list res" where
  "manifest_mismatches P manifest p now =
     (let mismatches = version_reasons P manifest p
      in bindE (find_action manifest (p_action_id p)) (\<lambda>action. case action of
           None \<Rightarrow> Inr (sorted_set (mismatches @ [''unknown_action'']))
         | Some a \<Rightarrow> bindE (action_reasons P manifest a p now) (\<lambda>rs.
             Inr (sorted_set (mismatches @ rs)))))"

section \<open>Matching a permission\<close>

text \<open>The first permission of a requirement or a grant that covers the whole proposal.\<close>

definition permission_covers :: "prims \<Rightarrow> pyval \<Rightarrow> proposal \<Rightarrow> pyval \<Rightarrow> bool res" where
  "permission_covers P action p perm =
     andE (bindE (vitem perm ''action'') (\<lambda>a. bindE (vitem action ''action_name'') (\<lambda>n. Inr (py_eq a n))))
    (andE (bindE (vitem perm ''targets'') (py_in (PStr (p_target p))))
    (andE (bindE (bindE (vitem perm ''data_scopes'') py_set) (\<lambda>scopes.
             Inr (list_all (\<lambda>s. py_mem (PStr s) scopes) (p_requested_permissions p))))
    (andE (bindE (bindE (vitem perm ''max_amount'') (py_float P)) (\<lambda>q. Inr (p_amount p \<le> q)))
    (andE (bindE (vitem perm ''unit'') (\<lambda>u. Inr (u = PStr (p_unit p))))
          (bindE (bindE (vitem perm ''max_effects'') (py_int P)) (\<lambda>n. Inr (p_effects p \<le> n)))))))"

definition matching_permission ::
  "prims \<Rightarrow> pydict \<Rightarrow> pyval \<Rightarrow> proposal \<Rightarrow> pyval option res" where
  "matching_permission P manifest container p =
     bindE (bindE (ditem manifest ''actions'') py_iter) (\<lambda>xs.
     bindE (findE (\<lambda>x. bindE (vitem x ''action_id'') (\<lambda>v. Inr (py_eq v (PStr (p_action_id p))))) xs) (\<lambda>action.
       case action of
         None \<Rightarrow> Inr None
       | Some a \<Rightarrow> bindE (bindE (vget_or container ''permissions'' (PList [])) py_iter) (\<lambda>perms.
           findE (permission_covers P a p) perms)))"

section \<open>What an empty list of mismatches says\<close>

lemma find_action_Some:
  "find_action m i = Inr (Some a) \<Longrightarrow> \<exists>d. a = PDict d \<and> map_of d ''action_id'' = Some (PStr i)"
  by (auto simp: find_action_def res_iff vget_Inr_iff dget_or_def split: option.splits dest!: findE_Some)

lemma given_time_False:
  "given_time P s c = Inr False \<Longrightarrow> s = Some t \<Longrightarrow> t \<noteq> [] \<Longrightarrow> bindE (parse_time P t) c = Inr False"
  by (simp add: given_time_def)

lemma manifest_ok:
  assumes "manifest_mismatches P m p now = Inr []"
  obtains a where "find_action m (p_action_id p) = Inr (Some a)"
    "version_reasons P m p = []" "action_reasons P m a p now = Inr []"
  using assms by (auto simp: manifest_mismatches_def res_iff Let_def split: option.splits)

lemma version_ok:
  "version_reasons P m p = [] \<longleftrightarrow>
     p_manifest_version p = ''1.1'' \<and> map_of m ''manifest_version'' = Some (PStr ''1.1'') \<and>
     map_of m ''manifest_id'' = Some (PStr (p_manifest_id p)) \<and>
     p_manifest_digest p = commitment P (PDict m) \<and>
     p_payload_commitment p = commitment P (PDict (p_payload p))"
  by (auto simp: version_reasons_def MANIFEST_VERSION_def dget_or_def split: option.splits)

lemma action_ok:
  "action_reasons P m a p now = Inr [] \<longleftrightarrow>
     adapter_reasons m a p = Inr [] \<and> target_reasons a p = Inr [] \<and> payload_reasons a p = Inr [] \<and>
     limit_reasons P a p = Inr [] \<and> permission_reasons a p = Inr [] \<and>
     profile_reasons a p = Inr [] \<and> validity_reasons P p now = Inr []"
  by (simp add: action_reasons_def res_iff)

lemma adapter_ok:
  assumes "adapter_reasons m a p = Inr []"
  shows "\<exists>t. find_tool m a = Inr (Some (PDict t)) \<and> map_of t ''adapter_id'' = Some (PStr (p_adapter_id p))"
  using assms
  by (auto simp: adapter_reasons_def res_iff vget_Inr_iff dget_or_def split: option.splits)

lemma target_ok:
  assumes "target_reasons (PDict a) p = Inr []"
  shows "\<exists>tp v. map_of a ''target_policy'' = Some (PDict tp) \<and> tp \<noteq> [] \<and>
     \<not> truthy (dget tp ''allow_any_target'') \<and>
     map_of tp ''allowed_targets'' = Some v \<and> py_in (PStr (p_target p)) v = Inr True"
  using assms
  by (auto simp: target_reasons_def res_iff vget_Inr_iff dget_or_def py_mem_def split: option.splits)

lemma payload_ok:
  assumes "payload_reasons (PDict a) p = Inr []"
  shows "\<exists>pp required optional forbidden.
     map_of a ''payload_policy'' = Some (PDict pp) \<and>
     py_set (dget_or pp ''required_fields'' (PList [])) = Inr required \<and>
     py_set (dget_or pp ''optional_fields'' (PList [])) = Inr optional \<and>
     py_set (dget_or pp ''forbidden_fields'' (PList [])) = Inr forbidden \<and>
     (\<forall>r\<in>set required. \<exists>k\<in>fst ` set (p_payload p). r = PStr k) \<and>
     (\<forall>k\<in>fst ` set (p_payload p). PStr k \<notin> set forbidden \<and>
        (PStr k \<in> set required \<or> PStr k \<in> set optional))"
proof -
  from assms obtain pp required optional forbidden where
    pp: "map_of a ''payload_policy'' = Some (PDict pp)"
    and sets: "py_set (dget_or pp ''required_fields'' (PList [])) = Inr required"
      "py_set (dget_or pp ''optional_fields'' (PList [])) = Inr optional"
      "py_set (dget_or pp ''forbidden_fields'' (PList [])) = Inr forbidden"
    and req: "list_all (\<lambda>r. py_mem r (map (\<lambda>(k, _). PStr k) (p_payload p))) required"
    and forb: "list_all (\<lambda>k. \<not> py_mem k forbidden) (map (\<lambda>(k, _). PStr k) (p_payload p))"
    and decl: "list_all (\<lambda>k. py_mem k required \<or> py_mem k optional) (map (\<lambda>(k, _). PStr k) (p_payload p))"
    by (auto simp: payload_reasons_def res_iff vget_Inr_iff dget_or_def Let_def list_ex_iff list_all_iff
        split: if_splits option.splits)
  have "\<exists>k\<in>fst ` set (p_payload p). r = PStr k" if "r \<in> set required" for r
  proof -
    from req that have "py_mem r (map (\<lambda>(k, _). PStr k) (p_payload p))" by (simp add: list_all_iff)
    then show ?thesis by (force simp: py_mem_def list_ex_iff)
  qed
  moreover have "PStr k \<notin> set forbidden \<and> (PStr k \<in> set required \<or> PStr k \<in> set optional)"
    if "k \<in> fst ` set (p_payload p)" for k
  proof -
    from that have "PStr k \<in> set (map (\<lambda>(k, _). PStr k) (p_payload p))" by force
    with forb decl show ?thesis unfolding list_all_iff by (metis py_mem_PStr)
  qed
  ultimately show ?thesis using pp sets by blast
qed

lemma limit_ok:
  assumes "limit_reasons P (PDict a) p = Inr []" "truthy (dget a ''effect_limits'')"
  shows "\<exists>l n. map_of a ''effect_limits'' = Some (PDict l) \<and>
     py_int P (dget_or l ''max_effects'' (PInt 0)) = Inr n \<and> p_effects p \<le> n \<and>
     (\<forall>v. map_of l ''max_amount'' = Some v \<longrightarrow> v \<noteq> PNone \<longrightarrow> (\<exists>q. py_float P v = Inr q \<and> p_amount p \<le> q)) \<and>
     (\<forall>v. map_of l ''unit'' = Some v \<longrightarrow> v \<noteq> PNone \<longrightarrow> v = PStr (p_unit p))"
  using assms
  by (auto simp: limit_reasons_def res_iff vget_Inr_iff vitem_Inr_iff dget_or_def not_less
      split: if_splits option.splits)

lemma permission_ok:
  assumes "permission_reasons a p = Inr []"
  shows "\<exists>needed. needed_scopes a = Inr needed \<and>
     (\<forall>s\<in>set needed. \<exists>t\<in>set (p_requested_permissions p). s = PStr t)"
  using assms
  by (fastforce simp: permission_reasons_def res_iff list_all_iff py_mem_def list_ex_iff)

lemma validity_ok:
  assumes "validity_reasons P p (Aware n) = Inr []"
  shows "(\<forall>s. p_not_before p = Some s \<longrightarrow> s \<noteq> [] \<longrightarrow> (\<exists>t. parse_time P s = Inr t \<and> t \<le> n)) \<and>
     (\<forall>s. p_expires_at p = Some s \<longrightarrow> s \<noteq> [] \<longrightarrow> (\<exists>t. parse_time P s = Inr t \<and> n < t))"
  using assms
  by (auto simp: validity_reasons_def res_iff given_time_def not_less not_le split: option.splits if_splits)

lemma permission_covers_True:
  assumes "permission_covers P a p perm = Inr True"
  shows "\<exists>d an n q e scopes. perm = PDict d \<and>
     map_of d ''action'' = Some an \<and> vitem a ''action_name'' = Inr n \<and> py_eq an n \<and>
     (\<exists>ts. map_of d ''targets'' = Some ts \<and> py_in (PStr (p_target p)) ts = Inr True) \<and>
     (\<exists>ds. map_of d ''data_scopes'' = Some ds \<and> py_set ds = Inr scopes) \<and>
     (\<forall>s\<in>set (p_requested_permissions p). PStr s \<in> set scopes) \<and>
     (\<exists>v. map_of d ''max_amount'' = Some v \<and> py_float P v = Inr q) \<and> p_amount p \<le> q \<and>
     map_of d ''unit'' = Some (PStr (p_unit p)) \<and>
     (\<exists>v. map_of d ''max_effects'' = Some v \<and> py_int P v = Inr e) \<and> p_effects p \<le> e"
proof -
  from assms obtain d where perm: "perm = PDict d"
    by (auto simp: permission_covers_def res_iff vitem_Inr_iff)
  with assms show ?thesis
    by (auto simp: permission_covers_def res_iff ditem_Inr_iff list_all_iff)
qed

lemma matching_permission_Some:
  assumes "matching_permission P m c p = Inr (Some perm)"
  shows "\<exists>a perms. py_iter (dget_or m ''actions'' (PList [])) = Inr perms \<and>
     a \<in> set perms \<and> permission_covers P a p perm = Inr True \<and>
     (\<exists>d ps. c = PDict d \<and> py_iter (dget_or d ''permissions'' (PList [])) = Inr ps \<and> perm \<in> set ps)"
  using assms
  by (fastforce simp: matching_permission_def res_iff ditem_Inr_iff vget_Inr_iff dget_or_def
      split: option.splits dest: findE_Some)

end
