(* ===== verification/Resolve.thy ===== *)
theory Resolve
  imports Resolver Manifest
begin

text \<open>
  The decision core of \<open>bounded.py\<close>: \<open>BoundedAuthorizationWorkflow._resolve\<close> and its
  helpers. Each block of the method is a definition that gives the reasons the block appends,
  in the order of the code; \<open>resolve\<close> composes them with the early returns of the method.
  The last sections read off what a resolution without reasons establishes.
\<close>

definition AUTHORITY_CONTEXT_VERSION :: string where
  "AUTHORITY_CONTEXT_VERSION = ''0.1.0''"

definition AUTHORITY_CONTEXT_STATUS :: string where
  "AUTHORITY_CONTEXT_STATUS = ''proposed_pending_governor_review''"

text \<open>The workflow's constructor arguments, the destination and the record store apart.\<close>

record config =
  cf_manifest :: pydict
  cf_resolver :: resolver
  cf_status_max_age :: int
  cf_identity_max_age :: int
  cf_mandate_max_age :: int
  cf_approval_max_age :: int
  cf_clock_tolerance :: int
  cf_observation_policy :: "observation_policy option"

abbreviation cfg_fresh :: "prims \<Rightarrow> config \<Rightarrow> string \<Rightarrow> pydatetime \<Rightarrow> int \<Rightarrow> bool res" where
  "cfg_fresh P cfg \<equiv> fresh P (cf_clock_tolerance cfg)"

section \<open>Helpers\<close>

definition same_institution :: "string \<Rightarrow> string \<Rightarrow> pydict \<Rightarrow> bool res" where
  "same_institution inst adom context =
     bindE (ditem context ''institution'') (\<lambda>i.
       andE (bindE (vitem i ''institution_id'') (\<lambda>v. Inr (v = PStr inst)))
            (bindE (vitem i ''authority_domain'') (\<lambda>v. Inr (v = PStr adom))))"

definition resolve_role ::
  "pyval \<Rightarrow> pyval list \<Rightarrow> pyval \<Rightarrow> role_mapping_status option \<Rightarrow> string option res" where
  "resolve_role declared_role required_roles institution_id mapping =
     (case declared_role of
        PNone \<Rightarrow> Inr None
      | PStr r \<Rightarrow>
          if starts_with ''urn:'' r then Inr (if py_mem (PStr r) required_roles then Some r else None)
          else (case mapping of
              None \<Rightarrow> Inr None
            | Some m \<Rightarrow>
                if institution_id \<noteq> PStr (rm_institution_id m) then Inr None
                else (case map_of (rm_aliases m) r of
                    Some [canonical] \<Rightarrow>
                      Inr (if starts_with ''urn:'' canonical \<and> py_mem (PStr canonical) required_roles
                           then Some canonical else None)
                  | _ \<Rightarrow> Inr None))
      | _ \<Rightarrow> throw AttributeError)"

abbreviation ctx_institution :: "pydict \<Rightarrow> pyval" where
  "ctx_institution context \<equiv> dget_or context ''institution'' (PDict [])"

abbreviation ctx_requirement :: "pydict \<Rightarrow> pyval" where
  "ctx_requirement context \<equiv> dget_or context ''requirement'' (PDict [])"

section \<open>The blocks before the grant\<close>

definition context_reasons :: "pydict \<Rightarrow> proposal \<Rightarrow> string list res" where
  "context_reasons context p =
     appendE (Inr (
       (case p_tenant_id p of None \<Rightarrow> [] | Some t \<Rightarrow>
          flag (dget context ''tenant_id'' \<noteq> PStr t) ''tenant_context_mismatch'') @
       flag (dget context ''schema_version'' \<noteq> PStr AUTHORITY_CONTEXT_VERSION)
         ''authority_context_version_mismatch'' @
       flag (dget context ''interface_status'' \<noteq> PStr AUTHORITY_CONTEXT_STATUS)
         ''authority_context_status_mismatch''))
    (appendE (flagE (bindE (vget (ctx_requirement context) ''requirement_id'')
         (\<lambda>v. Inr (v \<noteq> opt_str (p_requirement_id p)))) ''authority_requirement_mismatch'')
       (Inr (flag (dget context ''principal'' \<noteq> PStr (p_principal p) \<or>
                   dget context ''acting_identity'' \<noteq> PStr (p_actor p))
         ''proposal_identity_binding_mismatch'')))"

text \<open>\<open>(action or {}).get(k) or {}\<close>\<close>

definition action_part :: "pyval option \<Rightarrow> string \<Rightarrow> pyval res" where
  "action_part action k =
     bindE (vget (py_or (case action of None \<Rightarrow> PNone | Some a \<Rightarrow> a) (PDict [])) k)
       (\<lambda>v. Inr (py_or v (PDict [])))"

definition declared_reasons :: "pydict \<Rightarrow> pyval option \<Rightarrow> string list res" where
  "declared_reasons context action =
     bindE (vget (ctx_institution context) ''institution_id'') (\<lambda>institution_id.
     bindE (vget (ctx_institution context) ''authority_domain'') (\<lambda>authority_domain.
     bindE (action_part action ''authority_context'') (\<lambda>declared_auth.
       appendE (flagE (bindE (vget declared_auth ''institution_id'')
           (\<lambda>v. Inr (\<not> py_eq institution_id v))) ''institution_mismatch'')
      (appendE (flagE (bindE (vget declared_auth ''authority_domain'')
           (\<lambda>v. Inr (\<not> py_eq authority_domain v))) ''authority_domain_mismatch'')
               (flagE (bindE (vget_or (ctx_requirement context) ''consequence'' (PDict [])) (\<lambda>c.
                  bindE (vget c ''tier'') (\<lambda>tier.
                  bindE (vget declared_auth ''consequence_tier'') (\<lambda>v. Inr (\<not> py_eq tier v)))))
                ''consequence_tier_mismatch'')))))"

definition mapping_digest :: "prims \<Rightarrow> role_mapping_status \<Rightarrow> string" where
  "mapping_digest P m = commitment P (PDict
     [(''institution_id'', PStr (rm_institution_id m)),
      (''version'', PStr (rm_version m)),
      (''aliases'', PDict (map (\<lambda>(k, rs). (k, str_list rs)) (rm_aliases m)))])"

definition mapping_reasons :: "prims \<Rightarrow> pyval \<Rightarrow> role_mapping_status option \<Rightarrow> string list" where
  "mapping_reasons P institution_id mapping = (case mapping of
      None \<Rightarrow> [''role_mapping_missing'']
    | Some m \<Rightarrow> flag (institution_id \<noteq> PStr (rm_institution_id m) \<or> rm_digest m \<noteq> mapping_digest P m)
        ''role_mapping_invalid'')"

definition required_roles :: "pydict \<Rightarrow> pyval list res" where
  "required_roles context =
     bindE (bindE (vget_or (ctx_requirement context) ''approvals'' (PList [])) py_iter) (\<lambda>xs.
       collectE (\<lambda>x. bindE (vget x ''role_id'') (\<lambda>r.
         if \<not> truthy r then Inr [] else if hashable r then Inr [r] else throw TypeError)) xs)"

definition review_reasons ::
  "pydict \<Rightarrow> pyval option \<Rightarrow> pyval \<Rightarrow> role_mapping_status option \<Rightarrow> string list res" where
  "review_reasons context action institution_id mapping =
     bindE (action_part action ''review_requirement'') (\<lambda>review.
     bindE (vget review ''mode'') (\<lambda>mode.
       if \<not> hashable mode then throw TypeError
       else if mode \<noteq> PStr ''human_review'' \<and> mode \<noteq> PStr ''approval_required'' then Inr []
       else bindE (required_roles context) (\<lambda>roles.
            bindE (vget review ''reviewer_role'') (\<lambda>declared.
            bindE (resolve_role declared roles (py_or institution_id (PStr '''')) mapping) (\<lambda>canonical.
              Inr (flag (canonical = None) ''review_requirement_not_resolved''))))))"

section \<open>The blocks of the grant\<close>

definition identity_reasons ::
  "prims \<Rightarrow> config \<Rightarrow> pydict \<Rightarrow> identity_status \<Rightarrow> pydatetime \<Rightarrow> string list res" where
  "identity_reasons P cfg context st now =
     appendE (flagE
       (orE (bindE (ditem context ''acting_identity'') (\<lambda>v. Inr (v \<noteq> PStr (is_identity st))))
       (orE (bindE (ditem context ''principal'') (\<lambda>v. Inr (v \<noteq> PStr (is_principal st))))
            (negE (same_institution (is_institution_id st) (is_authority_domain st) context))))
       ''identity_binding_mismatch'')
    (appendE (Inr (flag (\<not> is_authenticated st \<or> \<not> is_delegation_valid st)
       ''identity_or_delegation_invalid''))
             (flagE (negE (cfg_fresh P cfg (is_observed_at st) now (cf_identity_max_age cfg)))
       ''identity_status_stale_or_future''))"

definition mandate_reasons ::
  "prims \<Rightarrow> config \<Rightarrow> pydict \<Rightarrow> pyval \<Rightarrow> pydatetime \<Rightarrow> string list res" where
  "mandate_reasons P cfg context grant now =
     bindE (vitem grant ''issuer'') (\<lambda>issuer.
     bindE (vitem grant ''issuer_role'') (\<lambda>role.
     bindE (rs_issuer_mandate (cf_resolver cfg) issuer role) (\<lambda>st.
       appendE (flagE
         (orE (Inr (issuer \<noteq> PStr (ms_issuer st)))
         (orE (Inr (role \<noteq> PStr (ms_issuer_role st)))
         (orE (bindE (vitem grant ''issuance_record_ref'')
                (\<lambda>v. Inr (v \<noteq> PStr (ms_issuance_record_ref st))))
              (negE (same_institution (ms_institution_id st) (ms_authority_domain st) context)))))
         ''issuer_mandate_binding_mismatch'')
      (appendE (Inr (flag (\<not> ms_mandate_valid st) ''issuer_mandate_invalid''))
               (flagE (negE (cfg_fresh P cfg (ms_observed_at st) now (cf_mandate_max_age cfg)))
         ''issuer_mandate_stale_or_future'')))))"

definition grant_status_reasons ::
  "prims \<Rightarrow> config \<Rightarrow> pydict \<Rightarrow> pyval \<Rightarrow> proposal \<Rightarrow> pydatetime \<Rightarrow> string list res" where
  "grant_status_reasons P cfg context grant p now =
     bindE (vitem grant ''grant_id'') (\<lambda>gid.
     bindE (rs_grant_status (cf_resolver cfg) gid) (\<lambda>status. case status of
        None \<Rightarrow> Inr [''grant_not_active'']
      | Some st \<Rightarrow>
         appendE (flagE
           (orE (Inr (gid \<noteq> PStr (gs_grant_id st)))
           (orE (bindE (vitem grant ''status_ref'') (\<lambda>v. Inr (v \<noteq> PStr (gs_status_ref st))))
           (orE (bindE (vget (ctx_institution context) ''authority_basis_ref'')
                  (\<lambda>v. Inr (v \<noteq> PStr (gs_authority_basis_ref st))))
                (negE (same_institution (gs_institution_id st) (gs_authority_domain st) context)))))
           ''grant_status_binding_mismatch'')
        (appendE (Inr (
           flag (p_tenant_id p \<noteq> None \<and> gs_tenant_id st \<noteq> p_tenant_id p) ''grant_tenant_mismatch'' @
           flag (gs_status st \<noteq> GrantActive) ''grant_not_active''))
        (appendE (flagE (bindE (vitem grant ''revision'') (\<lambda>v. Inr (v \<noteq> PStr (gs_revision st))))
           ''grant_revision_stale'')
                 (flagE (negE (cfg_fresh P cfg (gs_observed_at st) now (cf_status_max_age cfg)))
           ''grant_status_stale_or_future'')))))"

definition grant_binding_reasons ::
  "prims \<Rightarrow> pydict \<Rightarrow> pyval \<Rightarrow> pyval \<Rightarrow> proposal \<Rightarrow> pydatetime \<Rightarrow> string list res" where
  "grant_binding_reasons P context requirement grant p now =
     appendE (flagE (bindE (vitem grant ''requirement_id'') (\<lambda>v.
         bindE (vitem requirement ''requirement_id'') (\<lambda>w. Inr (\<not> py_eq v w))))
       ''grant_requirement_mismatch'')
    (appendE (flagE
       (orE (bindE (vitem grant ''grantee'') (\<lambda>v. bindE (ditem context ''principal'') (\<lambda>w. Inr (\<not> py_eq v w))))
            (bindE (vitem grant ''acting_identity'') (\<lambda>v.
               bindE (ditem context ''acting_identity'') (\<lambda>w. Inr (\<not> py_eq v w)))))
       ''grant_identity_mismatch'')
    (appendE (case p_tenant_id p of None \<Rightarrow> Inr [] | Some t \<Rightarrow>
         flagE (bindE (vget grant ''tenant_id'') (\<lambda>v. Inr (v \<noteq> PStr t))) ''grant_tenant_mismatch'')
             (flagE
       (orE (bindE (bindE (vitem grant ''not_before'') (parse_value P)) (\<lambda>s.
               bindE (instant now) (\<lambda>t. Inr (s > t))))
            (bindE (bindE (vitem grant ''expires_at'') (parse_value P)) (\<lambda>e.
               bindE (instant now) (\<lambda>t. Inr (e \<le> t)))))
       ''grant_outside_validity'')))"

definition delegation_reasons :: "pyval \<Rightarrow> identity_status \<Rightarrow> string list res" where
  "delegation_reasons grant st =
     bindE (vget_or grant ''delegation'' (PDict [])) (\<lambda>delegation.
       flagE (andE (bindE (vget delegation ''parent_grant_id'') (\<lambda>v. Inr (v \<noteq> PNone)))
                   (Inr (is_chain st = []))) ''delegation_chain_missing'')"

definition conflict_reasons ::
  "prims \<Rightarrow> config \<Rightarrow> pydict \<Rightarrow> pyval \<Rightarrow> pydatetime \<Rightarrow> string list res" where
  "conflict_reasons P cfg context requirement now =
     bindE (vitem requirement ''requirement_id'') (\<lambda>rid.
     bindE (rs_conflict_status (cf_resolver cfg) rid) (\<lambda>conflict. case conflict of
        None \<Rightarrow> Inr [''authority_conflict_unresolved'']
      | Some st \<Rightarrow>
         appendE (flagE
           (orE (Inr (rid \<noteq> PStr (cs_requirement_id st)))
           (orE (bindE (bindE (vget_or (dget_or context ''conflicts'' (PDict [])) ''precedence_refs'' (PList []))
                   py_sorted) (\<lambda>refs. Inr (refs \<noteq> map PStr (sort (cs_conflict_refs st)))))
                (negE (same_institution (cs_institution_id st) (cs_authority_domain st) context))))
           ''conflict_status_binding_mismatch'')
        (appendE (Inr (flag (cs_state st \<noteq> ConflictClear) ''authority_conflict_unresolved''))
                 (flagE (negE (cfg_fresh P cfg (cs_observed_at st) now (cf_status_max_age cfg)))
           ''conflict_status_stale_or_future''))))"

definition policy_item_reasons ::
  "prims \<Rightarrow> config \<Rightarrow> pydict \<Rightarrow> proposal \<Rightarrow> pydatetime \<Rightarrow> pyval \<Rightarrow> string list res" where
  "policy_item_reasons P cfg context p now pv =
     bindE (vitem pv ''ref'') (\<lambda>ref.
     bindE (rs_policy_status (cf_resolver cfg) ref) (\<lambda>current. case current of
        None \<Rightarrow> Inr [''policy_stale_or_changed'']
      | Some st \<Rightarrow>
         appendE (flagE
           (orE (Inr (ref \<noteq> PStr (ps_ref st)))
                (negE (same_institution (ps_institution_id st) (ps_authority_domain st) context)))
           ''policy_binding_mismatch'')
        (appendE (Inr (flag (p_tenant_id p \<noteq> None \<and> ps_tenant_id st \<noteq> p_tenant_id p)
           ''policy_tenant_mismatch''))
        (appendE (flagE
           (orE (Inr (ps_status st \<noteq> PolicyActive))
                (bindE (vitem pv ''version'') (\<lambda>v. Inr (v \<noteq> PStr (ps_version st)))))
           ''policy_stale_or_changed'')
                 (flagE (negE (cfg_fresh P cfg (ps_observed_at st) now (cf_status_max_age cfg)))
           ''policy_status_stale_or_future'')))))"

definition policy_reasons ::
  "prims \<Rightarrow> config \<Rightarrow> pydict \<Rightarrow> pyval \<Rightarrow> proposal \<Rightarrow> pydatetime \<Rightarrow> string list res" where
  "policy_reasons P cfg context policy_versions p now =
     bindE (py_iter policy_versions) (collectE (policy_item_reasons P cfg context p now))"

text \<open>One approval reference looked up for one required role: reasons, and a match if any.\<close>

definition approval_lookup ::
  "config \<Rightarrow> pydict \<Rightarrow> proposal \<Rightarrow> pyval \<Rightarrow> pyval \<Rightarrow> (string list \<times> approval_status list) res" where
  "approval_lookup cfg context p req ref =
     bindE (rs_approval_status (cf_resolver cfg) ref) (\<lambda>approval. case approval of
        None \<Rightarrow> Inr ([], [])
      | Some a \<Rightarrow>
         bindE (orE (Inr (ref \<noteq> PStr (as_approval_ref a)))
                    (negE (same_institution (as_institution_id a) (as_authority_domain a) context))) (\<lambda>bad.
           if bad then Inr ([''approval_binding_mismatch''], [])
           else if p_tenant_id p \<noteq> None \<and> as_tenant_id a \<noteq> p_tenant_id p
             then Inr ([''approval_tenant_mismatch''], [])
           else bindE (vitem req ''role_id'') (\<lambda>r.
             Inr ([], if r = PStr (as_role_id a) then [a] else []))))"

definition approval_check ::
  "prims \<Rightarrow> config \<Rightarrow> pyval \<Rightarrow> proposal \<Rightarrow> pydatetime \<Rightarrow> pyval \<Rightarrow> pyval \<Rightarrow> approval_status \<Rightarrow> string list res" where
  "approval_check P cfg grant p now policy_versions req a =
     appendE (Inr (flag (as_status a \<noteq> ApprovalActive) ''approval_not_active''))
    (appendE (flagE (negE (cfg_fresh P cfg (as_observed_at a) now (cf_approval_max_age cfg)))
       ''approval_status_stale_or_future'')
    (appendE (flagE
       (orE (bindE (vitem grant ''grant_id'') (\<lambda>v. Inr (v \<noteq> PStr (as_grant_id a))))
            (bindE (vitem grant ''revision'') (\<lambda>v. Inr (v \<noteq> PStr (as_grant_revision a)))))
       ''approval_grant_binding_mismatch'')
    (appendE (Inr (
       flag (as_proposal_commitment a \<noteq> proposal_commitment P p) ''approval_operation_binding_mismatch'' @
       flag (\<not> py_eq (PList (map PDict (as_policy_versions a))) policy_versions)
         ''approval_policy_binding_mismatch''))
             (flagE (andE (bindE (vget req ''independent_of_actor'') (\<lambda>v. Inr (truthy v)))
                          (Inr (as_approver a = p_actor p)))
       ''approval_independence_violation''))))"

definition approval_role_reasons ::
  "prims \<Rightarrow> config \<Rightarrow> pydict \<Rightarrow> pyval \<Rightarrow> proposal \<Rightarrow> pydatetime \<Rightarrow> pyval \<Rightarrow> pyval \<Rightarrow> string list res" where
  "approval_role_reasons P cfg context grant p now policy_versions req =
     bindE (bindE (vget_or grant ''approval_refs'' (PList [])) py_iter) (\<lambda>refs.
     bindE (mapE (approval_lookup cfg context p req) refs) (\<lambda>found.
       let rs = concat (map fst found); matches = concat (map snd found)
       in if matches = [] then Inr (rs @ [''required_approval_missing''])
          else appendE (Inr rs) (collectE (approval_check P cfg grant p now policy_versions req) matches)))"

definition approval_reasons ::
  "prims \<Rightarrow> config \<Rightarrow> pydict \<Rightarrow> pyval \<Rightarrow> pyval \<Rightarrow> proposal \<Rightarrow> pydatetime \<Rightarrow> pyval \<Rightarrow> string list res" where
  "approval_reasons P cfg context requirement grant p now policy_versions =
     bindE (bindE (vget_or requirement ''approvals'' (PList [])) py_iter)
       (collectE (approval_role_reasons P cfg context grant p now policy_versions))"

definition evidence_fresh_reasons ::
  "prims \<Rightarrow> config \<Rightarrow> pydatetime \<Rightarrow> pyval \<Rightarrow> evidence_status option \<Rightarrow> string list res" where
  "evidence_fresh_reasons P cfg now obligation current =
     bindE (andE (bindE (vitem obligation ''required'') (\<lambda>v. Inr (truthy v)))
                 (bindE (vitem obligation ''kind'') (\<lambda>v. Inr (v = PStr ''authorization'')))) (\<lambda>needed.
       let is_fresh = (\<lambda>st. bindE (bindE (vitem obligation ''max_age_seconds'') (py_int P)) (\<lambda>age.
             cfg_fresh P cfg (es_observed_at st) now age));
           holds_effect = bindE (vget obligation ''unknown_behavior'') (\<lambda>v. Inr (v = PStr ''hold_effect''))
       in if needed then
            (case current of
               None \<Rightarrow> Inr [''required_evidence_not_current'']
             | Some st \<Rightarrow>
                 if es_state st \<noteq> EvidenceCurrent then Inr [''required_evidence_not_current'']
                 else flagE (negE (is_fresh st)) ''required_evidence_stale_or_future'')
          else
            (case current of
               Some st \<Rightarrow> flagE (andE (negE (is_fresh st)) holds_effect) ''context_unknown_requires_hold''
             | None \<Rightarrow> flagE holds_effect ''context_unknown_requires_hold''))"

definition evidence_item_reasons ::
  "prims \<Rightarrow> config \<Rightarrow> pydict \<Rightarrow> pydatetime \<Rightarrow> pyval \<Rightarrow> string list res" where
  "evidence_item_reasons P cfg context now obligation =
     bindE (vitem obligation ''obligation_id'') (\<lambda>oid.
     bindE (rs_evidence_status (cf_resolver cfg) oid) (\<lambda>current.
     bindE (case current of None \<Rightarrow> Inr False | Some st \<Rightarrow>
              orE (Inr (oid \<noteq> PStr (es_obligation_id st)))
             (orE (bindE (vitem obligation ''source_ref'') (\<lambda>v. Inr (v \<noteq> PStr (es_source_ref st))))
                  (negE (same_institution (es_institution_id st) (es_authority_domain st) context)))) (\<lambda>bad.
       appendE (Inr (flag bad ''evidence_binding_mismatch''))
               (evidence_fresh_reasons P cfg now obligation (if bad then None else current)))))"

definition evidence_reasons ::
  "prims \<Rightarrow> config \<Rightarrow> pydict \<Rightarrow> pyval \<Rightarrow> pydatetime \<Rightarrow> string list res" where
  "evidence_reasons P cfg context requirement now =
     bindE (bindE (vget_or requirement ''evidence'' (PList [])) py_iter)
       (collectE (evidence_item_reasons P cfg context now))"

section \<open>The whole resolution\<close>

definition permission_scope_reasons :: "pyval option \<Rightarrow> pyval option \<Rightarrow> string list" where
  "permission_scope_reasons requirement_permission grant_permission =
     flag (requirement_permission = None) ''requirement_scope_mismatch'' @
     flag (grant_permission = None) ''grant_scope_mismatch''"

text \<open>
  Everything the method checks before it reads the grant: the reasons, the declared action
  and the role mapping.
\<close>

definition declaration_reasons ::
  "prims \<Rightarrow> config \<Rightarrow> pydict \<Rightarrow> proposal \<Rightarrow> (string list \<times> pyval option \<times> role_mapping_status option) res" where
  "declaration_reasons P cfg context p =
     bindE (context_reasons context p) (\<lambda>rs1.
     bindE (find_action (cf_manifest cfg) (p_action_id p)) (\<lambda>action.
     bindE (declared_reasons context action) (\<lambda>rs2.
     bindE (vget (ctx_institution context) ''institution_id'') (\<lambda>institution_id.
     bindE (rs_role_mapping (cf_resolver cfg) (py_or institution_id (PStr ''''))) (\<lambda>mapping.
     bindE (review_reasons context action institution_id mapping) (\<lambda>rs3.
       Inr (rs1 @ rs2 @ mapping_reasons P institution_id mapping @ rs3, action, mapping)))))))"

text \<open>Everything it checks once there is a grant: the reasons and the two permissions.\<close>

definition granted_reasons ::
  "prims \<Rightarrow> config \<Rightarrow> pydict \<Rightarrow> pyval \<Rightarrow> proposal \<Rightarrow> pydatetime \<Rightarrow>
     (string list \<times> pyval option \<times> pyval option) res" where
  "granted_reasons P cfg context grant p now =
     bindE (ditem context ''acting_identity'') (\<lambda>acting.
     bindE (ditem context ''principal'') (\<lambda>princ.
     bindE (rs_identity_status (cf_resolver cfg) acting princ) (\<lambda>identity.
     bindE (identity_reasons P cfg context identity now) (\<lambda>rs1.
     bindE (mandate_reasons P cfg context grant now) (\<lambda>rs2.
     bindE (grant_status_reasons P cfg context grant p now) (\<lambda>rs3.
     bindE (ditem context ''requirement'') (\<lambda>requirement.
     bindE (grant_binding_reasons P context requirement grant p now) (\<lambda>rs4.
     bindE (matching_permission P (cf_manifest cfg) requirement p) (\<lambda>rp.
     bindE (matching_permission P (cf_manifest cfg) grant p) (\<lambda>gp.
     bindE (delegation_reasons grant identity) (\<lambda>rs5.
     bindE (conflict_reasons P cfg context requirement now) (\<lambda>rs6.
     bindE (vget_or grant ''policy_versions'' (PList [])) (\<lambda>policy_versions.
     bindE (policy_reasons P cfg context policy_versions p now) (\<lambda>rs7.
     bindE (approval_reasons P cfg context requirement grant p now policy_versions) (\<lambda>rs8.
     bindE (evidence_reasons P cfg context requirement now) (\<lambda>rs9.
       Inr (rs1 @ rs2 @ rs3 @ rs4 @ permission_scope_reasons rp gp @ rs5 @ rs6 @ rs7 @ rs8 @ rs9,
            rp, gp)))))))))))))))))"

text \<open>\<open>int(permission["max_effects"])\<close>, and the smallest of the three caps.\<close>

definition permission_max_effects :: "prims \<Rightarrow> pyval option \<Rightarrow> int res" where
  "permission_max_effects P perm = (case perm of
      None \<Rightarrow> throw TypeError
    | Some v \<Rightarrow> bindE (vitem v ''max_effects'') (py_int P))"

definition effective_max_effects ::
  "prims \<Rightarrow> proposal \<Rightarrow> pyval option \<Rightarrow> pyval option \<Rightarrow> pyval option \<Rightarrow> int res" where
  "effective_max_effects P p action rp gp =
     bindE (permission_max_effects P rp) (\<lambda>a.
     bindE (permission_max_effects P gp) (\<lambda>b.
     bindE (case action of None \<Rightarrow> throw AttributeError | Some act \<Rightarrow>
              bindE (vget act ''effect_limits'') (\<lambda>l.
              bindE (vget_or (py_or l (PDict [])) ''max_effects'' (PInt (p_effects p))) (py_int P))) (\<lambda>c.
       Inr (min (min a b) c))))"

text \<open>Building the binding; the model's string and list fields validate their arguments.\<close>

definition make_binding ::
  "prims \<Rightarrow> pydict \<Rightarrow> pyval \<Rightarrow> proposal \<Rightarrow> role_mapping_status option \<Rightarrow> int \<Rightarrow> binding res" where
  "make_binding P context grant p mapping max_effects =
     bindE (bindE (ditem context ''context_id'') expect_str) (\<lambda>context_id.
     bindE (bindE (ditem context ''schema_version'') expect_str) (\<lambda>version.
     bindE (bindE (ditem context ''interface_status'') expect_str) (\<lambda>status.
     bindE (ditem context ''requirement'') (\<lambda>requirement.
     bindE (bindE (vitem grant ''grant_id'') expect_str) (\<lambda>grant_id.
     bindE (bindE (vitem grant ''revision'') expect_str) (\<lambda>revision.
     bindE (bindE (vget_or grant ''policy_versions'' (PList [])) expect_dict_list) (\<lambda>policies.
       Inr \<lparr>b_proposal_commitment = proposal_commitment P p,
            b_manifest_id = p_manifest_id p, b_manifest_version = p_manifest_version p,
            b_manifest_digest = p_manifest_digest p, b_actor = p_actor p, b_principal = p_principal p,
            b_action_id = p_action_id p, b_adapter_id = p_adapter_id p, b_target = p_target p,
            b_payload_commitment = p_payload_commitment p,
            b_requested_permissions = p_requested_permissions p, b_amount = p_amount p,
            b_unit = p_unit p, b_effects = p_effects p,
            b_authority_context_id = context_id, b_authority_context_version = version,
            b_authority_context_status = status,
            b_requirement_id = (case p_requirement_id p of None \<Rightarrow> '''' | Some r \<Rightarrow> r),
            b_requirement_commitment = commitment P requirement,
            b_grant_id = grant_id, b_grant_revision = revision, b_policy_versions = policies,
            b_role_mapping_version = (case mapping of None \<Rightarrow> '''' | Some m \<Rightarrow> rm_version m),
            b_role_mapping_digest = (case mapping of None \<Rightarrow> '''' | Some m \<Rightarrow> rm_digest m),
            b_effective_max_effects = max_effects, b_tenant_id = p_tenant_id p\<rparr>)))))))"

definition context_ref :: "proposal \<Rightarrow> string" where
  "context_ref p = (case p_authority_context_ref p of None \<Rightarrow> '''' | Some r \<Rightarrow> r)"

definition resolve ::
  "prims \<Rightarrow> config \<Rightarrow> proposal \<Rightarrow> pydatetime \<Rightarrow> (string list \<times> binding option) res" where
  "resolve P cfg p now =
     bindE (manifest_mismatches P (cf_manifest cfg) p now) (\<lambda>rs0.
     bindE (rs_authority_context (cf_resolver cfg) (context_ref p)) (\<lambda>found. case found of
       None \<Rightarrow> Inr (sorted_set (rs0 @ [''authority_context_missing'']), None)
     | Some context \<Rightarrow>
         bindE (declaration_reasons P cfg context p) (\<lambda>(rs1, action, mapping).
           if \<not> truthy (dget context ''grant'')
           then Inr (sorted_set (rs0 @ rs1 @ [''issued_grant_missing'']), None)
           else
             bindE (granted_reasons P cfg context (dget context ''grant'') p now) (\<lambda>(rs2, rp, gp).
               if rs0 @ rs1 @ rs2 \<noteq> [] then Inr (sorted_set (rs0 @ rs1 @ rs2), None)
               else
                 bindE (effective_max_effects P p action rp gp) (\<lambda>n.
                 bindE (make_binding P context (dget context ''grant'') p mapping n) (\<lambda>b.
                   Inr ([], Some b)))))))"

end
