(* ===== verification/JsonText.thy ===== *)
theory JsonText
  imports CanonicalJson
begin

text \<open>
  JSON text as the program writes and reads it outside commitments: \<open>json.dumps\<close> with an indent and
  without ASCII escaping, and \<open>json.loads\<close>. The reader takes the grammar of the library's scanner:
  white space, strings with escapes and surrogate pairs, numbers, the three literals, arrays and
  objects (a repeated key keeps its first place and its last value). The library also reads \<open>NaN\<close>,
  \<open>Infinity\<close> and numbers too large for a float, none of which are values of the model: a text with
  such a number is told apart from one that is no JSON text (\<open>read_json\<close>), and the model stops there.
  Integers are unbounded and documents nest as deep as they like, where the interpreter stops at 4300
  digits and at its recursion limit. The main result is that reading what was written gives the value
  back.
\<close>

section \<open>Writing\<close>

text \<open>Items on lines of their own, each behind the indentation of its level.\<close>

definition newline :: "nat \<Rightarrow> nat \<Rightarrow> string" where
  "newline width level = CHR 0x0A # replicate (width * level) (CHR '' '')"

fun lines_of :: "string \<Rightarrow> string list \<Rightarrow> string" where
  "lines_of nl [] = []"
| "lines_of nl [s] = nl @ s"
| "lines_of nl (s # t # ss) = nl @ s @ CHR '','' # lines_of nl (t # ss)"

text \<open>For any way to print a string; the program writes text as it is or escapes what is not ASCII.\<close>

fun dumps_as :: "(string \<Rightarrow> string) \<Rightarrow> prims \<Rightarrow> nat \<Rightarrow> nat \<Rightarrow> pyval \<Rightarrow> string" where
  "dumps_as q P w l PNone = ''null''"
| "dumps_as q P w l (PBool b) = (if b then ''true'' else ''false'')"
| "dumps_as q P w l (PInt n) = digits_int n"
| "dumps_as q P w l (PFloat x) = float_repr P x"
| "dumps_as q P w l (PStr s) = q s"
| "dumps_as q P w l (PList xs) = (if xs = [] then ''[]''
     else CHR ''['' # lines_of (newline w (Suc l)) (map (dumps_as q P w (Suc l)) xs) @ newline w l @ '']'')"
| "dumps_as q P w l (PDict d) = (if d = [] then ''{}''
     else CHR ''{'' # lines_of (newline w (Suc l)) (map (\<lambda>(k, v). q k @ '': '' @ dumps_as q P w (Suc l) v) d) @
          newline w l @ ''}'')"

abbreviation dumps :: "prims \<Rightarrow> nat \<Rightarrow> nat \<Rightarrow> pyval \<Rightarrow> string" where
  "dumps \<equiv> dumps_as quoted"

section \<open>Reading\<close>

definition is_ws :: "char \<Rightarrow> bool" where
  "is_ws c \<longleftrightarrow> c = CHR '' '' \<or> c = CHR 0x09 \<or> c = CHR 0x0A \<or> c = CHR 0x0D"

abbreviation skip :: "string \<Rightarrow> string" where
  "skip \<equiv> dropWhile is_ws"

text \<open>A code point in UTF-8; a lone surrogate is kept, in the same form.\<close>

definition utf8 :: "nat \<Rightarrow> string" where
  "utf8 n = map char_of
     (if n < 128 then [n]
      else if n < 2048 then [192 + n div 64, 128 + n mod 64]
      else if n < 65536 then [224 + n div 4096, 128 + n div 64 mod 64, 128 + n mod 64]
      else [240 + n div 262144, 128 + n div 4096 mod 64, 128 + n div 64 mod 64, 128 + n mod 64])"

definition hex_of :: "char \<Rightarrow> nat option" where
  "hex_of c = (let n = of_char c in
     if 48 \<le> n \<and> n \<le> 57 then Some (n - 48)
     else if 97 \<le> n \<and> n \<le> 102 then Some (n - 87)
     else if 65 \<le> n \<and> n \<le> 70 then Some (n - 55) else None)"

definition hex4 :: "string \<Rightarrow> nat option" where
  "hex4 s = (case s of
      a # b # c # d # _ \<Rightarrow> (case (hex_of a, hex_of b, hex_of c, hex_of d) of
          (Some w, Some x, Some y, Some z) \<Rightarrow> Some (((w * 16 + x) * 16 + y) * 16 + z)
        | _ \<Rightarrow> None)
    | _ \<Rightarrow> None)"

text \<open>After \<open>\u\<close>: one unit, or two that form a surrogate pair.\<close>

definition scan_unit :: "string \<Rightarrow> (string \<times> string) option" where
  "scan_unit s = (case hex4 s of
      None \<Rightarrow> None
    | Some n \<Rightarrow>
        (let r = drop 4 s;
             low = (if 55296 \<le> n \<and> n \<le> 56319 \<and> take 2 r = [CHR 0x5C, CHR ''u''] then hex4 (drop 2 r) else None)
         in case low of
              Some m \<Rightarrow> if 56320 \<le> m \<and> m \<le> 57343
                then Some (utf8 (65536 + (n - 55296) * 1024 + (m - 56320)), drop 6 r)
                else Some (utf8 n, r)
            | None \<Rightarrow> Some (utf8 n, r)))"

definition simple_escapes :: "(char \<times> char) list" where
  "simple_escapes = [(CHR 0x22, CHR 0x22), (CHR 0x5C, CHR 0x5C), (CHR ''/'', CHR ''/''), (CHR ''b'', CHR 0x08),
     (CHR ''f'', CHR 0x0C), (CHR ''n'', CHR 0x0A), (CHR ''r'', CHR 0x0D), (CHR ''t'', CHR 0x09)]"

definition scan_escape :: "string \<Rightarrow> (string \<times> string) option" where
  "scan_escape s = (case s of
      [] \<Rightarrow> None
    | c # r \<Rightarrow> if c = CHR ''u'' then scan_unit r
        else map_option (\<lambda>x. ([x], r)) (map_of simple_escapes c))"

lemma scan_escape_shorter: "scan_escape s = Some (t, r) \<Longrightarrow> length r < length s"
  by (auto simp: scan_escape_def scan_unit_def Let_def split: list.splits if_splits option.splits)

text \<open>A string, behind its opening quote.\<close>

function scan_string :: "string \<Rightarrow> (string \<times> string) option" where
  "scan_string [] = None"
| "scan_string (c # cs) =
     (if c = CHR 0x22 then Some ([], cs)
      else if c = CHR 0x5C then (case scan_escape cs of
          None \<Rightarrow> None
        | Some (t, r) \<Rightarrow> map_option (\<lambda>(u, r'). (t @ u, r')) (scan_string r))
      else if of_char c < (32 :: nat) then None
      else map_option (\<lambda>(u, r'). (c # u, r')) (scan_string cs))"
  by pat_completeness auto
termination
  by (relation "measure length") (auto dest: scan_escape_shorter)

text \<open>A number: its text, whether it has a fraction or an exponent, and the rest.\<close>

definition exponent :: "string \<Rightarrow> string" where
  "exponent s = (case s of
      [] \<Rightarrow> []
    | e # t \<Rightarrow> if e \<noteq> CHR ''e'' \<and> e \<noteq> CHR ''E'' then []
        else (let sg = (case t of [] \<Rightarrow> [] | c # _ \<Rightarrow> if c = CHR ''+'' \<or> c = CHR ''-'' then [c] else []);
                  ds = takeWhile is_digit (drop (length sg) t)
              in if ds = [] then [] else e # sg @ ds))"

definition fraction :: "string \<Rightarrow> string" where
  "fraction s = (case s of
      p # t \<Rightarrow> (let ds = takeWhile is_digit t in if p = CHR ''.'' \<and> ds \<noteq> [] then p # ds else [])
    | [] \<Rightarrow> [])"

definition whole :: "string \<Rightarrow> string" where
  "whole s = (if takeWhile is_digit s \<noteq> [] \<and> hd s = CHR ''0'' then ''0'' else takeWhile is_digit s)"

definition split_number :: "string \<Rightarrow> (string \<times> bool \<times> string) option" where
  "split_number s =
     (let sg = (case s of [] \<Rightarrow> [] | c # _ \<Rightarrow> if c = CHR ''-'' then [c] else []);
          s1 = drop (length sg) s; ip = whole s1;
          s2 = drop (length ip) s1; fr = fraction s2;
          s3 = drop (length fr) s2; ex = exponent s3
      in if ip = [] then None else Some (sg @ ip @ fr @ ex, fr @ ex \<noteq> [], drop (length ex) s3))"

definition int_value :: "string \<Rightarrow> int" where
  "int_value t = (case t of
      [] \<Rightarrow> 0
    | c # cs \<Rightarrow> if c = CHR ''-'' then - int (digits_val 0 cs) else int (digits_val 0 t))"

definition scan_number :: "pyval option \<Rightarrow> prims \<Rightarrow> string \<Rightarrow> (pyval \<times> string) option" where
  "scan_number nf P s = (case split_number s of
      None \<Rightarrow> None
    | Some (t, broken, r) \<Rightarrow> if broken then map_option (\<lambda>v. (v, r)) (case parse_float P t of Some q \<Rightarrow> Some (PFloat q) | None \<Rightarrow> nf)
        else Some (PInt (int_value t), r))"

text \<open>The constants for numbers that are not finite: what follows one.\<close>

definition after_constant :: "string \<Rightarrow> string option" where
  "after_constant s =
     (if starts_with ''NaN'' s then Some (drop 3 s)
      else if starts_with ''Infinity'' s then Some (drop 8 s)
      else if starts_with ''-Infinity'' s then Some (drop 9 s) else None)"

text \<open>
  A value, the items of an array from the next one on, or the members of an object from the next
  key on. A call takes its text apart before it calls itself, except that the items start with a
  value, so that fuel beyond twice the length of the text changes nothing (lemma \<open>parse_fuel\<close>). The
  first argument is what a number that is not finite is read as, if it is read.
\<close>

datatype job = Value | Items "pyval list" | Members pydict

fun parse :: "pyval option \<Rightarrow> prims \<Rightarrow> nat \<Rightarrow> job \<Rightarrow> string \<Rightarrow> (pyval \<times> string) option" where
  "parse nf P 0 j s = None"
| "parse nf P (Suc n) Value s = (case s of
      [] \<Rightarrow> None
    | c # cs \<Rightarrow>
        if c = CHR 0x22 then map_option (\<lambda>(t, r). (PStr t, r)) (scan_string cs)
        else if c = CHR ''['' then (case skip cs of
            [] \<Rightarrow> None
          | x # r \<Rightarrow> if x = CHR '']'' then Some (PList [], r) else parse nf P n (Items []) (x # r))
        else if c = CHR ''{'' then (case skip cs of
            [] \<Rightarrow> None
          | x # r \<Rightarrow> if x = CHR ''}'' then Some (PDict [], r) else parse nf P n (Members []) (x # r))
        else if starts_with ''null'' s then Some (PNone, drop 4 s)
        else if starts_with ''true'' s then Some (PBool True, drop 4 s)
        else if starts_with ''false'' s then Some (PBool False, drop 5 s)
        else (case after_constant s of
            Some r \<Rightarrow> map_option (\<lambda>v. (v, r)) nf
          | None \<Rightarrow> scan_number nf P s))"
| "parse nf P (Suc n) (Items acc) s = (case parse nf P n Value s of
      None \<Rightarrow> None
    | Some (v, r) \<Rightarrow> (case skip r of
        [] \<Rightarrow> None
      | x # r' \<Rightarrow> if x = CHR '','' then parse nf P n (Items (acc @ [v])) (skip r')
          else if x = CHR '']'' then Some (PList (acc @ [v]), r') else None))"
| "parse nf P (Suc n) (Members acc) s = (case s of
      [] \<Rightarrow> None
    | q # cs \<Rightarrow> if q \<noteq> CHR 0x22 then None else (case scan_string cs of
        None \<Rightarrow> None
      | Some (k, r) \<Rightarrow> (case skip r of
          [] \<Rightarrow> None
        | x # r1 \<Rightarrow> if x \<noteq> CHR '':'' then None else (case parse nf P n Value (skip r1) of
            None \<Rightarrow> None
          | Some (v, r2) \<Rightarrow> (case skip r2 of
              [] \<Rightarrow> None
            | y # r3 \<Rightarrow> if y = CHR '','' then parse nf P n (Members (dict_set k v acc)) (skip r3)
                else if y = CHR ''}'' then Some (PDict (dict_set k v acc), r3) else None)))))"

text \<open>\<open>json.loads\<close>: one value between white space. A text is grammatical when the library reads it.\<close>

definition document :: "pyval option \<Rightarrow> prims \<Rightarrow> string \<Rightarrow> pyval option" where
  "document nf P s = (case parse nf P (Suc (2 * length s)) Value (skip s) of
      Some (v, r) \<Rightarrow> if skip r = [] then Some v else None
    | None \<Rightarrow> None)"

abbreviation loads :: "prims \<Rightarrow> string \<Rightarrow> pyval option" where
  "loads \<equiv> document None"

definition grammatical :: "prims \<Rightarrow> string \<Rightarrow> bool" where
  "grammatical P s \<longleftrightarrow> document (Some PNone) P s \<noteq> None"

text \<open>
  Why a text is not read: a \<open>JSONDecodeError\<close>, which is a \<open>ValueError\<close>, or, where the library goes on
  with an infinite number or none, the end of the model.
\<close>

definition not_finite :: exn_class where
  "not_finite = OtherError ''a number that is not finite''"

definition unread :: "prims \<Rightarrow> string \<Rightarrow> exn" where
  "unread P s = (if grammatical P s then Raise not_finite [] else Raise ValueError [])"

definition read_json :: "prims \<Rightarrow> string \<Rightarrow> pyval res" where
  "read_json P s = (case loads P s of None \<Rightarrow> Inl (unread P s) | Some v \<Rightarrow> Inr v)"

lemma read_json_Inr [res_iff]: "read_json P s = Inr v \<longleftrightarrow> loads P s = Some v"
  by (simp add: read_json_def split: option.split)

text \<open>What \<open>read_text\<close> finds in a file: text, or bytes that are not UTF-8.\<close>

datatype content = Text string | Undecodable

definition UnicodeDecodeError :: exn_class where
  "UnicodeDecodeError = OtherError ''UnicodeDecodeError''"

definition read_content :: "prims \<Rightarrow> content \<Rightarrow> pyval res" where
  "read_content P f = (case f of Undecodable \<Rightarrow> throw UnicodeDecodeError | Text s \<Rightarrow> read_json P s)"

lemma read_content_Inr [res_iff]: "read_content P f = Inr v \<longleftrightarrow> (\<exists>s. f = Text s \<and> loads P s = Some v)"
  by (simp add: read_content_def read_json_Inr split: content.split)

section \<open>Strings come back\<close>

lemma hex_of_hexdig: "n < 16 \<Longrightarrow> hex_of (hexdig n) = Some n"
  by (auto simp: hexdig_def hex_of_def of_char_of Let_def)

lemma hex_of_zero: "hex_of (CHR ''0'') = Some 0"
  by (simp add: hex_of_def)

lemma scan_control:
  assumes "of_char c < (32 :: nat)"
  shows "scan_unit (CHR ''0'' # CHR ''0'' # hexdig (of_char c div 16) # hexdig (of_char c mod 16) # x) = Some ([c], x)"
proof -
  have "of_char c div 16 < (16 :: nat)" using assms by simp
  moreover have "of_char c div 16 * 16 + of_char c mod 16 = (of_char c :: nat)" by simp
  ultimately have "hex4 (CHR ''0'' # CHR ''0'' # hexdig (of_char c div 16) # hexdig (of_char c mod 16) # x) = Some (of_char c)"
    by (simp add: hex4_def hex_of_hexdig hex_of_zero)
  with assms show ?thesis by (simp add: scan_unit_def utf8_def)
qed

lemma scan_esc_char: "scan_string (esc_char c @ x) = map_option (\<lambda>(u, r). (c # u, r)) (scan_string x)"
proof (cases "of_char c < (32 :: nat) \<or> c = CHR 0x22 \<or> c = CHR 0x5C")
  case False
  then show ?thesis by (auto simp: esc_char_def)
next
  case True
  then have "\<exists>e. esc_char c = CHR 0x5C # e \<and> scan_escape (e @ x) = Some ([c], x)"
    using scan_control [of c x] by (auto simp: esc_char_def scan_escape_def simple_escapes_def)
  then obtain e where e: "esc_char c = CHR 0x5C # e" "scan_escape (e @ x) = Some ([c], x)" by blast
  have "CHR 0x5C \<noteq> CHR 0x22" by simp
  with e show ?thesis by (simp del: scan_string.simps(1))
qed

lemma scan_quoted: "scan_string (concat (map esc_char s) @ CHR 0x22 # r) = Some (s, r)"
  by (induction s) (simp_all add: scan_esc_char)

text \<open>
  What writing a document asks of a printer of strings: the reader gets every string it may print
  back, and stops behind it. Such a printer also tells documents apart.
\<close>

locale string_writer =
  fixes q :: "string \<Rightarrow> string" and ok :: "string \<Rightarrow> bool"
  assumes quotes: "\<exists>t. q s = CHR 0x22 # t"
    and scans: "ok s \<Longrightarrow> scan_string (tl (q s) @ x) = Some (s, x)"

sublocale string_writer \<subseteq> string_printer q ok
proof
  show "\<exists>t. q s = CHR 0x22 # t" for s by (rule quotes)
  fix s t x y
  assume "ok s" "ok t" and eq: "q s @ x = q t @ y"
  from eq have "tl (q s) @ x = tl (q t) @ y" using quotes [of s] quotes [of t] by auto
  with scans [OF \<open>ok s\<close>, of x] scans [OF \<open>ok t\<close>, of y] have "Some (s, x) = Some (t, y)" by (simp only:)
  then show "s = t \<and> x = y" by simp
qed

section \<open>Numbers come back\<close>

definition ends :: "string \<Rightarrow> bool" where
  "ends r \<longleftrightarrow> (case r of [] \<Rightarrow> True | c # _ \<Rightarrow> \<not> is_digit c \<and> c \<notin> set ''.eE+-'')"

lemma takeWhile_ends: "ends r \<Longrightarrow> takeWhile is_digit (t @ r) = takeWhile is_digit t"
  by (induction t) (auto simp: ends_def split: list.splits)

lemma whole_ends: "ends r \<Longrightarrow> whole (t @ r) = whole t"
  by (cases t) (auto simp: whole_def takeWhile_ends ends_def split: list.splits)

lemma fraction_ends: "ends r \<Longrightarrow> fraction (t @ r) = fraction t"
  by (cases t) (auto simp: fraction_def takeWhile_ends Let_def ends_def split: list.splits)

lemma exponent_ends: "ends r \<Longrightarrow> exponent (t @ r) = exponent t"
proof (cases t)
  case Nil
  assume "ends r"
  with Nil show ?thesis by (cases r) (auto simp: exponent_def ends_def)
next
  case (Cons e u)
  assume "ends r"
  then show ?thesis
    by (cases u) (auto simp: exponent_def Cons takeWhile_ends Let_def ends_def split: list.splits)
qed

lemma piece_lengths: "length (whole t) \<le> length t" "length (fraction t) \<le> length t" "length (exponent t) \<le> length t"
proof -
  have tw: "length (takeWhile is_digit u) \<le> length u" for u by (rule length_takeWhile_le)
  show "length (whole t) \<le> length t" using tw [of t] by (cases t) (auto simp: whole_def)
  show "length (fraction t) \<le> length t" by (cases t) (auto simp: fraction_def Let_def tw)
  show "length (exponent t) \<le> length t"
  proof (cases t)
    case (Cons e u)
    show ?thesis using tw [of u] tw [of "tl u"] by (cases u) (auto simp: exponent_def Cons Let_def)
  qed (simp add: exponent_def)
qed

lemma split_number_ends:
  assumes "split_number t = Some (t', b, [])" "ends r"
  shows "split_number (t @ r) = Some (t', b, r)"
proof -
  define sg where "sg = (case t of [] \<Rightarrow> [] | c # _ \<Rightarrow> if c = CHR ''-'' then [c] else [])"
  define s1 where "s1 = drop (length sg) t"
  define s2 where "s2 = drop (length (whole s1)) s1"
  define s3 where "s3 = drop (length (fraction s2)) s2"
  have t: "whole s1 \<noteq> []" "t' = sg @ whole s1 @ fraction s2 @ exponent s3" "b = (fraction s2 @ exponent s3 \<noteq> [])"
    "drop (length (exponent s3)) s3 = []"
    using assms(1) by (auto simp: split_number_def Let_def sg_def s1_def s2_def s3_def split: if_splits)
  then have "t \<noteq> []" by (auto simp: s1_def whole_def)
  have sg': "(case t @ r of [] \<Rightarrow> [] | c # _ \<Rightarrow> if c = CHR ''-'' then [c] else []) = sg"
    using \<open>t \<noteq> []\<close> by (cases t) (auto simp: sg_def)
  have "length sg \<le> length t" by (cases t) (auto simp: sg_def)
  then have d1: "drop (length sg) (t @ r) = s1 @ r" by (simp add: s1_def)
  have d2: "drop (length (whole s1)) (s1 @ r) = s2 @ r" using piece_lengths(1) [of s1] by (simp add: s2_def)
  have d3: "drop (length (fraction s2)) (s2 @ r) = s3 @ r" using piece_lengths(2) [of s2] by (simp add: s3_def)
  have d4: "drop (length (exponent s3)) (s3 @ r) = r" using piece_lengths(3) [of s3] t(4) by simp
  show ?thesis
    by (simp only: split_number_def Let_def sg' d1 whole_ends [OF assms(2)] d2 fraction_ends [OF assms(2)] d3
        exponent_ends [OF assms(2)] d4) (simp add: t)
qed

lemma digits_nat_head: "0 < n \<Longrightarrow> hd (digits_nat n) \<noteq> CHR ''0''"
proof (induction n rule: digits_nat.induct)
  case (1 n)
  show ?case
  proof (cases "n < 10")
    case True
    have "char_of (48 + n) \<noteq> CHR ''0''"
    proof
      assume "char_of (48 + n) = CHR ''0''"
      then have "(of_char (char_of (48 + n) :: char) :: nat) = of_char (CHR ''0'')" by simp
      with True 1 show False by (simp add: of_char_of)
    qed
    with True show ?thesis by (subst digits_nat.simps) simp
  next
    case False
    with 1 have "hd (digits_nat (n div 10)) \<noteq> CHR ''0''" by simp
    with False show ?thesis by (subst digits_nat.simps) simp
  qed
qed

lemma whole_digits: "whole (digits_nat n) = digits_nat n"
proof -
  have tw: "takeWhile is_digit (digits_nat n) = digits_nat n"
    using digits_nat_chars [of n] by (simp add: takeWhile_eq_all_conv list_all_iff)
  show ?thesis
  proof (cases "n = 0")
    case True
    have "digits_nat 0 = ''0''" by code_simp
    with True show ?thesis by (simp add: whole_def is_digit_def)
  next
    case False
    with digits_nat_head [of n] tw show ?thesis by (simp add: whole_def)
  qed
qed

lemma digits_head:
  assumes "digits_nat m = c # cs"
  shows "c \<noteq> CHR ''-''" "digits_val (of_char c - 48) cs = m"
proof -
  show "c \<noteq> CHR ''-''" using digits_nat_chars [of m] assms by (auto simp: is_digit_def)
  show "digits_val (of_char c - 48) cs = m" using digits_val_digits [of m] assms by simp
qed

lemma split_digits: "split_number (digits_int n) = Some (digits_int n, False, [])"
proof (cases "n < 0")
  case True
  then show ?thesis
    by (simp add: split_number_def digits_int_def whole_digits Let_def fraction_def exponent_def)
next
  case False
  obtain c cs where d: "digits_nat (nat n) = c # cs" by (cases "digits_nat (nat n)") auto
  have "(case digits_nat (nat n) of [] \<Rightarrow> [] | c # _ \<Rightarrow> if c = CHR ''-'' then [c] else []) = []"
    using digits_head(1) [OF d] by (simp add: d)
  with False show ?thesis
    by (simp add: split_number_def digits_int_def whole_digits Let_def fraction_def exponent_def)
qed

lemma int_value_digits: "int_value (digits_int n) = n"
proof (cases "n < 0")
  case True
  then show ?thesis by (simp add: int_value_def digits_int_def digits_val_digits)
next
  case False
  obtain c cs where d: "digits_nat (nat n) = c # cs" by (cases "digits_nat (nat n)") auto
  with False digits_head [OF d] show ?thesis by (simp add: int_value_def digits_int_def)
qed

section \<open>Documents come back\<close>

text \<open>
  What is relied on of the runtime's floats: the text of a finite float is a JSON number with a
  fraction or an exponent, and reads back as that float.
\<close>

definition json_floats :: "prims \<Rightarrow> bool" where
  "json_floats P \<longleftrightarrow> (\<forall>q. split_number (float_repr P q) = Some (float_repr P q, True, []) \<and>
     parse_float P (float_repr P q) = Some q)"

lemma split_number_head:
  assumes "split_number s = Some y"
  obtains c cs where "s = c # cs" "is_digit c \<or> c = CHR ''-''"
proof (cases s)
  case Nil
  with assms show thesis by (simp add: split_number_def whole_def)
next
  case (Cons c cs)
  have "is_digit c \<or> c = CHR ''-''"
    using assms by (auto simp: split_number_def Cons whole_def Let_def split: if_splits)
  with Cons show thesis by (rule that)
qed

lemma parse_number: "split_number s = Some y \<Longrightarrow> parse nf P (Suc n) Value s = scan_number nf P s"
proof -
  assume a: "split_number s = Some y"
  then obtain c cs where s: "s = c # cs" "is_digit c \<or> c = CHR ''-''" by (rule split_number_head)
  then have "c \<notin> set ''[{ntfNI'' \<and> c \<noteq> CHR 0x22" by (auto simp: is_digit_def)
  moreover have "\<not> starts_with ''-Infinity'' s"
    using a by (cases cs) (auto simp: s(1) split_number_def whole_def is_digit_def Let_def split: if_splits)
  ultimately show ?thesis by (auto simp: s(1) after_constant_def)
qed

lemma skip_newline [simp]: "skip (newline w l @ s) = skip s"
proof -
  have "skip (replicate n (CHR '' '') @ s) = skip s" for n
    by (induction n) (simp_all add: is_ws_def)
  then show ?thesis by (simp add: newline_def is_ws_def)
qed

lemma ends_simps [simp]: "ends []" "ends (newline w l @ s)" "ends (CHR '','' # s)"
  by (simp_all add: ends_def newline_def is_digit_def)

lemma newline_pos: "1 \<le> length (newline w l)"
  by (simp add: newline_def)

lemmas parse_Value = parse.simps(2)
lemmas parse_Items = parse.simps(3)
lemmas parse_Members = parse.simps(4)

declare parse.simps [simp del]

text \<open>The items of an array, and the members of an object, when each value reads back.\<close>

lemma parse_items:
  assumes each: "\<And>x r m. x \<in> set xs \<Longrightarrow> ends r \<Longrightarrow> length (D x) \<le> m \<Longrightarrow> parse nf P (Suc m) Value (D x @ r) = Some (x, r)"
    and heads: "\<And>x. \<exists>c cs. D x = c # cs \<and> \<not> is_ws c"
    and "xs \<noteq> []" "length (lines_of (newline w k) (map D xs)) \<le> m"
  shows "parse nf P (Suc m) (Items acc) (skip (lines_of (newline w k) (map D xs) @ newline w l @ CHR '']'' # r)) =
     Some (PList (acc @ xs), r)"
  using assms
proof (induction xs arbitrary: acc m)
  case Nil
  then show ?case by simp
next
  case (Cons x zs)
  define rest where "rest = (if zs = [] then newline w l @ CHR '']'' # r
     else CHR '','' # lines_of (newline w k) (map D zs) @ newline w l @ CHR '']'' # r)"
  from Cons.prems(2) [of x] obtain c cs where c: "D x = c # cs" "\<not> is_ws c" by auto
  have shape: "lines_of (newline w k) (map D (x # zs)) @ newline w l @ CHR '']'' # r = newline w k @ D x @ rest"
    by (cases zs) (simp_all add: rest_def)
  then have sk: "skip (lines_of (newline w k) (map D (x # zs)) @ newline w l @ CHR '']'' # r) = D x @ rest"
    by (simp add: c)
  have "length (newline w k) + length (D x) + (if zs = [] then 0 else Suc (length (lines_of (newline w k) (map D zs)))) \<le> m"
    using Cons.prems(4) by (cases zs) simp_all
  with newline_pos [of w k] obtain m' where m: "m = Suc m'" "length (D x) \<le> m'"
    "zs \<noteq> [] \<Longrightarrow> length (lines_of (newline w k) (map D zs)) \<le> m'"
    by (cases m) (auto split: if_splits)
  have v: "parse nf P (Suc m') Value (D x @ rest) = Some (x, rest)"
    by (rule Cons.prems(1)) (simp_all add: m rest_def)
  show ?case
  proof (cases "zs = []")
    case True
    then have "skip rest = CHR '']'' # r" by (simp add: rest_def is_ws_def)
    then show ?thesis unfolding sk m(1) parse_Items v by (simp add: True)
  next
    case False
    then have "skip rest = CHR '','' # lines_of (newline w k) (map D zs) @ newline w l @ CHR '']'' # r"
      by (simp add: rest_def is_ws_def)
    moreover have "parse nf P (Suc m') (Items (acc @ [x])) (skip (lines_of (newline w k) (map D zs) @ newline w l @ CHR '']'' # r)) =
        Some (PList ((acc @ [x]) @ zs), r)"
      by (rule Cons.IH [OF _ Cons.prems(2) False m(3) [OF False]]) (use Cons.prems(1) in auto)
    ultimately show ?thesis unfolding sk m(1) parse_Items v by simp
  qed
qed

lemma dict_set_fresh: "k \<notin> fst ` set d \<Longrightarrow> dict_set k v d = d @ [(k, v)]"
  by (induction d) auto

definition member_text :: "(string \<Rightarrow> string) \<Rightarrow> (pyval \<Rightarrow> string) \<Rightarrow> string \<times> pyval \<Rightarrow> string" where
  "member_text q D = (\<lambda>(k, v). q k @ '': '' @ D v)"

lemma first_line:
  assumes "\<And>x. \<exists>c cs. D x = c # cs \<and> \<not> is_ws c \<and> c \<noteq> q" "xs \<noteq> []"
  shows "\<exists>c cs. skip (lines_of (newline w n) (map D xs) @ s) = c # cs \<and> c \<noteq> q"
proof -
  obtain x zs where x: "xs = x # zs" using assms(2) by (cases xs) auto
  from assms(1) [of x] obtain c cs where "D x = c # cs" "\<not> is_ws c" "c \<noteq> q" by blast
  then show ?thesis by (cases zs) (simp_all add: x)
qed

context string_writer
begin

lemma dumps_head:
  assumes "json_floats P"
  shows "\<exists>c cs. dumps_as q P w l v = c # cs \<and> \<not> is_ws c \<and> c \<noteq> CHR '']'' \<and> c \<noteq> CHR ''}''"
proof -
  have num: "\<exists>c cs. s = c # cs \<and> \<not> is_ws c \<and> c \<noteq> CHR '']'' \<and> c \<noteq> CHR ''}''" if "split_number s = Some y" for s y
    using that by (rule split_number_head) (auto simp: is_digit_def is_ws_def)
  show ?thesis
  proof (cases v)
    case (PInt n)
    then show ?thesis using num [OF split_digits] by simp
  next
    case (PFloat z)
    then show ?thesis using num assms unfolding json_floats_def by (metis dumps_as.simps(4))
  next
    case (PStr s)
    then show ?thesis using quotes [of s] by (auto simp: is_ws_def)
  qed (auto simp: is_ws_def)
qed

lemma parse_members:
  assumes each: "\<And>k v r m. (k, v) \<in> set d \<Longrightarrow> ends r \<Longrightarrow> length (D v) \<le> m \<Longrightarrow> parse nf P (Suc m) Value (D v @ r) = Some (v, r)"
    and heads: "\<And>v. \<exists>c cs. D v = c # cs \<and> \<not> is_ws c"
    and "d \<noteq> []" "length (lines_of (newline w n) (map (member_text q D) d)) \<le> m" "distinct (map fst (acc @ d))"
    and "list_all (\<lambda>(k, v). ok k) d"
  shows "parse nf P (Suc m) (Members acc) (skip (lines_of (newline w n) (map (member_text q D) d) @ newline w l @ CHR ''}'' # r)) =
     Some (PDict (acc @ d), r)"
  using assms
proof (induction d arbitrary: acc m)
  case Nil
  then show ?case by simp
next
  case (Cons p e)
  obtain k v where p: "p = (k, v)" by (cases p)
  define rest where "rest = (if e = [] then newline w l @ CHR ''}'' # r
     else CHR '','' # lines_of (newline w n) (map (member_text q D) e) @ newline w l @ CHR ''}'' # r)"
  from Cons.prems(2) [of v] obtain c cs where c: "D v = c # cs" "\<not> is_ws c" by (auto simp: p)
  define inner where "inner = tl (q k) @ CHR '':'' # CHR '' '' # D v @ rest"
  have "lines_of (newline w n) (map (member_text q D) (p # e)) @ newline w l @ CHR ''}'' # r = newline w n @ CHR 0x22 # inner"
    using quotes [of k] by (cases e) (auto simp: rest_def inner_def member_text_def p)
  then have sk: "skip (lines_of (newline w n) (map (member_text q D) (p # e)) @ newline w l @ CHR ''}'' # r) = CHR 0x22 # inner"
    by (simp add: is_ws_def)
  have key: "scan_string inner = Some (k, CHR '':'' # CHR '' '' # D v @ rest)"
    using Cons.prems(6) scans [of k] by (simp add: inner_def p)
  have sv: "skip (D v @ rest) = D v @ rest" using c by simp
  have "length (newline w n) + length (D v) + (if e = [] then 0 else Suc (length (lines_of (newline w n) (map (member_text q D) e)))) \<le> m"
    using Cons.prems(4) by (cases e) (simp_all add: member_text_def p)
  with newline_pos [of w n] obtain m' where m: "m = Suc m'" "length (D v) \<le> m'"
    "e \<noteq> [] \<Longrightarrow> length (lines_of (newline w n) (map (member_text q D) e)) \<le> m'"
    by (cases m) (auto split: if_splits)
  have v: "parse nf P (Suc m') Value (D v @ rest) = Some (v, rest)"
    by (rule Cons.prems(1) [of k]) (simp_all add: m rest_def p)
  have new: "dict_set k v acc = acc @ [(k, v)]"
    by (rule dict_set_fresh) (use Cons.prems(5) in \<open>simp add: p\<close>)
  have ws: "\<not> is_ws (CHR '':'')" "is_ws (CHR '' '')" by (simp_all add: is_ws_def)
  show ?case
  proof (cases "e = []")
    case True
    then have "skip rest = CHR ''}'' # r" by (simp add: rest_def is_ws_def)
    then show ?thesis
      unfolding sk m(1) by (subst parse_Members) (simp add: key ws sv v new True p)
  next
    case False
    then have "skip rest = CHR '','' # lines_of (newline w n) (map (member_text q D) e) @ newline w l @ CHR ''}'' # r"
      by (simp add: rest_def is_ws_def)
    moreover have "parse nf P (Suc m') (Members (acc @ [(k, v)]))
        (skip (lines_of (newline w n) (map (member_text q D) e) @ newline w l @ CHR ''}'' # r)) =
        Some (PDict ((acc @ [(k, v)]) @ e), r)"
      by (rule Cons.IH [OF _ Cons.prems(2) False m(3) [OF False]]) (use Cons.prems(1,5,6) in \<open>auto simp: p\<close>)
    ultimately show ?thesis
      unfolding sk m(1) by (subst parse_Members) (simp add: key ws sv v new p)
  qed
qed

text \<open>One value, followed by whatever cannot continue a number.\<close>

lemma dumps_members: "dumps_as q P w l (PDict d) = (if d = [] then ''{}''
     else CHR ''{'' # lines_of (newline w (Suc l)) (map (member_text q (dumps_as q P w (Suc l))) d) @ newline w l @ ''}'')"
  by (simp add: member_text_def cong: map_cong)

lemma member_head: "\<exists>c cs. member_text q D p = c # cs \<and> \<not> is_ws c \<and> c \<noteq> CHR ''}''"
  using quotes [of "fst p"] by (cases p) (auto simp: member_text_def is_ws_def)

lemma parse_dumps:
  assumes fl: "json_floats P"
  shows "wf_pyval v \<Longrightarrow> strings_ok ok v \<Longrightarrow> ends r \<Longrightarrow> length (dumps_as q P w l v) \<le> m \<Longrightarrow>
     parse nf P (Suc m) Value (dumps_as q P w l v @ r) = Some (v, r)"
proof (induction v arbitrary: l m r)
  case (PInt n)
  have "split_number (digits_int n @ r) = Some (digits_int n, False, r)"
    by (rule split_number_ends [OF split_digits PInt.prems(3)])
  then show ?case by (simp add: parse_number scan_number_def int_value_digits)
next
  case (PFloat z)
  have "split_number (float_repr P z @ r) = Some (float_repr P z, True, r)" "parse_float P (float_repr P z) = Some z"
    using fl split_number_ends [OF _ PFloat.prems(3)] by (simp_all add: json_floats_def)
  then show ?case by (simp add: parse_number scan_number_def)
next
  case (PStr s)
  obtain t where "q s = CHR 0x22 # t" using quotes by blast
  then show ?case using scans [of s r] PStr.prems(2) by (simp add: parse_Value)
next
  case (PList xs)
  show ?case
  proof (cases "xs = []")
    case True
    then show ?thesis by (simp add: parse_Value is_ws_def)
  next
    case False
    define body where "body = lines_of (newline w (Suc l)) (map (dumps_as q P w (Suc l)) xs)"
    have "length body < m" using PList.prems(4) False by (simp add: body_def)
    then obtain m' where m: "m = Suc m'" "length body \<le> m'" by (cases m) auto
    have heads: "\<exists>c cs. dumps_as q P w (Suc l) x = c # cs \<and> \<not> is_ws c" for x using dumps_head [OF fl] by blast
    have "parse nf P (Suc m') (Items []) (skip (body @ newline w l @ CHR '']'' # r)) = Some (PList ([] @ xs), r)"
      unfolding body_def by (rule parse_items [OF PList.IH heads False])
        (use PList.prems(1,2) m(2) in \<open>auto simp: list_all_iff body_def\<close>)
    moreover obtain c cs where "skip (body @ newline w l @ CHR '']'' # r) = c # cs" "c \<noteq> CHR '']''"
      using first_line [of "dumps_as q P w (Suc l)" "CHR '']''" xs] dumps_head [OF fl] False unfolding body_def by blast
    ultimately show ?thesis using False by (simp add: parse_Value m(1) flip: body_def)
  qed
next
  case (PDict d)
  show ?case
  proof (cases "d = []")
    case True
    then show ?thesis by (simp add: parse_Value is_ws_def)
  next
    case False
    define body where "body = lines_of (newline w (Suc l)) (map (member_text q (dumps_as q P w (Suc l))) d)"
    have shape: "dumps_as q P w l (PDict d) = CHR ''{'' # body @ newline w l @ ''}''"
      unfolding dumps_members body_def using False by simp
    have "length body < m" using PDict.prems(4) unfolding shape by simp
    then obtain m' where m: "m = Suc m'" "length body \<le> m'" by (cases m) auto
    have heads: "\<exists>c cs. dumps_as q P w (Suc l) x = c # cs \<and> \<not> is_ws c" for x using dumps_head [OF fl] by blast
    have "parse nf P (Suc m') (Members []) (skip (body @ newline w l @ CHR ''}'' # r)) = Some (PDict ([] @ d), r)"
      unfolding body_def
    proof (rule parse_members [OF _ heads False])
      fix k v r m
      assume kv: "(k, v) \<in> set d" and r: "ends r" "length (dumps_as q P w (Suc l) v) \<le> m"
      from kv PDict.prems(1,2) have "wf_pyval v" "strings_ok ok v" by (auto simp: list_all_iff)
      from PDict.IH [OF kv _ this r] show "parse nf P (Suc m) Value (dumps_as q P w (Suc l) v @ r) = Some (v, r)" by simp
    qed (use PDict.prems(1,2) m(2) in \<open>auto simp: body_def list_all_iff\<close>)
    moreover obtain c cs where "skip (body @ newline w l @ CHR ''}'' # r) = c # cs" "c \<noteq> CHR ''}''"
      using first_line [of "member_text q (dumps_as q P w (Suc l))", OF member_head False] unfolding body_def by blast
    ultimately show ?thesis unfolding shape m(1) by (simp add: parse_Value)
  qed
qed (simp_all add: parse_Value)

lemma loads_written:
  assumes "json_floats P" "wf_pyval v" "strings_ok ok v"
  shows "loads P (dumps_as q P w 0 v) = Some v"
proof -
  from dumps_head [OF assms(1)] obtain c cs where "dumps_as q P w 0 v = c # cs" "\<not> is_ws c" by blast
  then have "skip (dumps_as q P w 0 v) = dumps_as q P w 0 v" by simp
  with parse_dumps [OF assms, of "[]" w 0 "2 * length (dumps_as q P w 0 v)"] show ?thesis by (simp add: document_def)
qed

end

interpretation unescaped: string_writer quoted "\<lambda>s. True"
  by unfold_locales (simp_all add: quoted_def scan_quoted)

lemma loads_dumps: "json_floats P \<Longrightarrow> wf_pyval v \<Longrightarrow> loads P (dumps P w 0 v) = Some v"
  by (rule unescaped.loads_written) (simp_all add: strings_ok_trivial)

section \<open>The fuel is enough\<close>

lemma skip_le: "length (skip s) \<le> length s"
  by (rule length_dropWhile_le)

lemma skip_Cons: "skip a = x # b \<Longrightarrow> length b < length a"
  using skip_le [of a] by simp

lemma scan_string_shorter: "scan_string s = Some (t, r) \<Longrightarrow> length r < length s"
proof (induction s arbitrary: t rule: scan_string.induct)
  case (2 c cs)
  show ?case
  proof (cases "c = CHR 0x5C")
    case True
    with 2(3) obtain u b v where e: "scan_escape cs = Some (u, b)" "scan_string b = Some (v, r)"
      by (auto split: option.splits)
    have "c \<noteq> CHR 0x22" using True by simp
    from 2(1) [OF this True e(1) refl e(2)] scan_escape_shorter [OF e(1)] show ?thesis by simp
  next
    case False
    with 2 show ?thesis by (fastforce split: if_splits)
  qed
qed simp

lemma pieces: "whole t @ drop (length (whole t)) t = t" "fraction t @ drop (length (fraction t)) t = t"
  "exponent t @ drop (length (exponent t)) t = t"
proof -
  have tw: "takeWhile is_digit u @ drop (length (takeWhile is_digit u)) u = u" for u
    by (metis dropWhile_eq_drop takeWhile_dropWhile_id)
  show "whole t @ drop (length (whole t)) t = t" using tw [of t] by (cases t) (auto simp: whole_def)
  show "fraction t @ drop (length (fraction t)) t = t" by (cases t) (auto simp: fraction_def Let_def tw)
  show "exponent t @ drop (length (exponent t)) t = t"
  proof (cases t)
    case (Cons e u)
    show ?thesis using tw [of u] tw [of "tl u"] by (cases u) (auto simp: exponent_def Cons Let_def)
  qed (simp add: exponent_def)
qed

lemma split_number_text: "split_number s = Some (t, b, r) \<Longrightarrow> s = t @ r \<and> t \<noteq> []"
proof -
  assume a: "split_number s = Some (t, b, r)"
  define sg where "sg = (case s of [] \<Rightarrow> [] | c # _ \<Rightarrow> if c = CHR ''-'' then [c] else [])"
  define s1 where "s1 = drop (length sg) s"
  define s2 where "s2 = drop (length (whole s1)) s1"
  define s3 where "s3 = drop (length (fraction s2)) s2"
  have t: "whole s1 \<noteq> []" "t = sg @ whole s1 @ fraction s2 @ exponent s3" "r = drop (length (exponent s3)) s3"
    using a by (auto simp: split_number_def Let_def sg_def s1_def s2_def s3_def split: if_splits)
  have "s = sg @ s1" by (cases s) (simp_all add: sg_def s1_def)
  moreover have "s1 = whole s1 @ s2" unfolding s2_def by (rule pieces(1) [symmetric])
  moreover have "s2 = fraction s2 @ s3" unfolding s3_def by (rule pieces(2) [symmetric])
  moreover have "s3 = exponent s3 @ r" unfolding t(3) by (rule pieces(3) [symmetric])
  ultimately show ?thesis using t(1,2) by (metis append.assoc append_is_Nil_conv)
qed

lemma scan_number_shorter: "scan_number nf P s = Some (v, r) \<Longrightarrow> length r < length s"
  by (auto simp: scan_number_def split: option.splits if_splits dest!: split_number_text)

lemma after_constant_shorter: "after_constant (c # cs) = Some r \<Longrightarrow> length r < length (c # cs)"
  by (auto simp: after_constant_def simp del: starts_with.simps split: if_splits)

lemma parse_shorter: "parse nf P n j s = Some (v, r) \<Longrightarrow> length r < length s"
proof (induction n arbitrary: j s v r)
  case 0
  then show ?case by (simp add: parse.simps(1))
next
  case (Suc n)
  show ?case
  proof (cases j)
    case Value
    obtain c cs where s: "s = c # cs" using Suc.prems Value by (cases s) (auto simp: parse_Value)
    have "(\<exists>t. scan_string cs = Some (t, r)) \<or> (\<exists>k x b. skip cs = x # b \<and> parse nf P n k (x # b) = Some (v, r)) \<or>
        (\<exists>x. skip cs = x # r) \<or> r = drop 4 s \<or> r = drop 5 s \<or>
        after_constant s = Some r \<or> scan_number nf P s = Some (v, r)"
      using Suc.prems unfolding s Value parse_Value
      by (auto simp del: starts_with.simps split: if_splits list.splits option.splits)
    then show ?thesis
    proof (elim disjE exE conjE)
      fix k x b
      assume "skip cs = x # b" "parse nf P n k (x # b) = Some (v, r)"
      with Suc.IH [of k "x # b"] skip_le [of cs] show ?thesis by (simp add: s)
    next
      assume "scan_number nf P s = Some (v, r)"
      then show ?thesis by (rule scan_number_shorter)
    qed (auto simp: s dest: scan_string_shorter skip_Cons after_constant_shorter)
  next
    case (Items acc)
    with Suc.prems obtain u b x b' where u: "parse nf P n Value s = Some (u, b)" "skip b = x # b'"
      and rest: "(if x = CHR '','' then parse nf P n (Items (acc @ [u])) (skip b')
          else if x = CHR '']'' then Some (PList (acc @ [u]), b') else None) = Some (v, r)"
      by (auto simp: parse_Items split: list.splits option.splits)
    have "length r \<le> length b'" using rest Suc.IH [of _ "skip b'"] skip_le [of b'] by (fastforce split: if_splits)
    with Suc.IH [OF u(1)] skip_Cons [OF u(2)] show ?thesis by simp
  next
    case (Members acc)
    with Suc.prems obtain cs k b x b1 where s: "s = CHR 0x22 # cs" "scan_string cs = Some (k, b)" "skip b = x # b1"
      by (auto simp: parse_Members split: list.splits option.splits if_splits)
    with Suc.prems Members obtain u b2 y b3 where u: "parse nf P n Value (skip b1) = Some (u, b2)" "skip b2 = y # b3"
      and rest: "(if y = CHR '','' then parse nf P n (Members (dict_set k u acc)) (skip b3)
          else if y = CHR ''}'' then Some (PDict (dict_set k u acc), b3) else None) = Some (v, r)"
      by (auto simp: parse_Members split: list.splits option.splits if_splits)
    have "length r \<le> length b3" using rest Suc.IH [of _ "skip b3"] skip_le [of b3] by (fastforce split: if_splits)
    with Suc.IH [OF u(1)] skip_Cons [OF u(2)] skip_le [of b1] skip_Cons [OF s(3)] scan_string_shorter [OF s(2)] s(1)
    show ?thesis by simp
  qed
qed

text \<open>Beyond what a call needs, the fuel does not matter.\<close>

definition needed :: "job \<Rightarrow> string \<Rightarrow> nat" where
  "needed j s = 2 * length s + (case j of Items _ \<Rightarrow> 2 | _ \<Rightarrow> 1)"

lemma parse_fuel: "needed j s \<le> n \<Longrightarrow> needed j s \<le> m \<Longrightarrow> parse nf P n j s = parse nf P m j s"
proof (induction n arbitrary: m j s)
  case 0
  then show ?case by (simp add: needed_def split: job.splits)
next
  case (Suc n)
  from Suc.prems(2) obtain m' where m: "m = Suc m'" by (cases m) (auto simp: needed_def split: job.splits)
  have IH: "parse nf P n k t = parse nf P m' k t" if "needed k t < needed j s" for k t
    by (rule Suc.IH) (use that Suc.prems m in auto)
  show ?case
  proof (cases j)
    case Value
    show ?thesis
    proof (cases s)
      case Nil
      then show ?thesis by (simp add: m Value parse_Value)
    next
      case (Cons c cs)
      show ?thesis
      proof (cases "skip cs")
        case Nil
        show ?thesis by (simp only: m Value parse_Value Cons list.case Nil)
      next
        case sk: (Cons x b)
        have "parse nf P n k (x # b) = parse nf P m' k (x # b)" for k
          by (rule IH) (use skip_le [of cs] sk Value Cons in \<open>auto simp: needed_def split: job.splits\<close>)
        then show ?thesis by (simp add: m Value parse_Value Cons sk)
      qed
    qed
  next
    case (Items acc)
    have v: "parse nf P n Value s = parse nf P m' Value s" by (rule IH) (simp add: needed_def Items)
    have "parse nf P n (Items a) (skip b') = parse nf P m' (Items a) (skip b')"
      if "parse nf P m' Value s = Some (u, b)" "skip b = x # b'" for u b x b' a
      by (rule IH) (use parse_shorter [OF that(1)] skip_Cons [OF that(2)] skip_le [of b'] Items in \<open>simp add: needed_def\<close>)
    then show ?thesis by (auto simp: m Items parse_Items v simp del: dropWhile_eq_Nil_conv split: list.splits option.splits)
  next
    case (Members acc)
    have v: "parse nf P n Value (skip b1) = parse nf P m' Value (skip b1)"
      if "s = q # cs" "scan_string cs = Some (k, b)" "skip b = x # b1" for q cs k b x b1
      by (rule IH) (use scan_string_shorter [OF that(2)] skip_Cons [OF that(3)] skip_le [of b1] Members that(1)
          in \<open>simp add: needed_def\<close>)
    have "parse nf P n (Members a) (skip b3) = parse nf P m' (Members a) (skip b3)"
      if "s = q # cs" "scan_string cs = Some (k, b)" "skip b = x # b1" "parse nf P m' Value (skip b1) = Some (u, b2)"
        "skip b2 = y # b3" for q cs k b x b1 u b2 y b3 a
      by (rule IH) (use scan_string_shorter [OF that(2)] skip_Cons [OF that(3)] skip_le [of b1] parse_shorter [OF that(4)]
          skip_Cons [OF that(5)] skip_le [of b3] Members that(1) in \<open>simp add: needed_def\<close>)
    with v show ?thesis by (auto simp: m Members parse_Members simp del: dropWhile_eq_Nil_conv split: list.splits option.splits)
  qed
qed

lemma document_fuel: "2 * length s < n \<Longrightarrow> document nf P s = (case parse nf P n Value (skip s) of
      Some (v, r) \<Rightarrow> if skip r = [] then Some v else None
    | None \<Rightarrow> None)"
  using parse_fuel [of Value "skip s" "Suc (2 * length s)" n nf P] skip_le [of s] by (simp add: document_def needed_def)

section \<open>What is read is grammatical\<close>

lemma scan_number_loose: "scan_number None P s = Some x \<Longrightarrow> scan_number nf P s = Some x"
  by (auto simp: scan_number_def split: option.splits if_splits)

lemma parse_loose: "parse None P n j s = Some x \<Longrightarrow> parse nf P n j s = Some x"
proof (induction n arbitrary: j s x)
  case 0
  then show ?case by (simp add: parse.simps(1))
next
  case (Suc n)
  note IH = Suc.IH
  show ?case
  proof (cases j)
    case Value
    obtain c cs where s: "s = c # cs" using Suc.prems Value by (cases s) (auto simp: parse_Value)
    have body: "parse None P n k (y # b) = Some x \<Longrightarrow> parse nf P n k (y # b) = Some x" for k y b by (rule IH)
    consider "c = CHR 0x22" | "c = CHR ''[''" | "c = CHR ''{''" | "c \<notin> {CHR 0x22, CHR ''['', CHR ''{''}" by blast
    then show ?thesis
    proof cases
      case 4
      with Suc.prems show ?thesis
        unfolding s Value parse_Value
        by (auto simp del: starts_with.simps split: if_splits option.splits intro: scan_number_loose)
    qed (use Suc.prems in \<open>simp_all add: s Value parse_Value body del: dropWhile_eq_Cons_conv dropWhile_eq_Nil_conv split: list.splits if_splits\<close>)
  next
    case (Items acc)
    with Suc.prems obtain v r where v: "parse None P n Value s = Some (v, r)" by (auto simp: parse_Items split: option.splits)
    with Suc.prems Items IH [OF v] show ?thesis
      by (auto simp: parse_Items IH simp del: dropWhile_eq_Cons_conv dropWhile_eq_Nil_conv split: list.splits if_splits)
  next
    case (Members acc)
    with Suc.prems obtain cs k r x1 r1 where s: "s = CHR 0x22 # cs" "scan_string cs = Some (k, r)" "skip r = CHR '':'' # r1"
      by (auto simp: parse_Members split: list.splits option.splits if_splits)
    with Suc.prems Members obtain v r2 where v: "parse None P n Value (skip r1) = Some (v, r2)"
      by (auto simp: parse_Members split: list.splits option.splits if_splits)
    with Suc.prems Members s IH [OF v] show ?thesis
      by (auto simp: parse_Members IH simp del: dropWhile_eq_Cons_conv dropWhile_eq_Nil_conv split: list.splits if_splits)
  qed
qed

lemma loads_grammatical: "loads P s = Some v \<Longrightarrow> grammatical P s"
  by (auto simp: document_def grammatical_def split: option.splits if_splits dest: parse_loose [of P _ _ _ _ "Some PNone"])

section \<open>What is read is a proper value\<close>

text \<open>An object that repeats a key is read as a dict that has it once.\<close>

fun job_ok :: "job \<Rightarrow> bool" where
  "job_ok Value = True"
| "job_ok (Items acc) = wf_pyval (PList acc)"
| "job_ok (Members acc) = wf_pyval (PDict acc)"

lemma wf_dict_set: "wf_pyval (PDict d) \<Longrightarrow> wf_pyval v \<Longrightarrow> wf_pyval (PDict (dict_set k v d))"
proof -
  assume d: "wf_pyval (PDict d)" and v: "wf_pyval v"
  from d v have "list_all (\<lambda>(k, v). wf_pyval v) (dict_set k v d)" by (induction d) auto
  with d distinct_dict_set show ?thesis by auto
qed

lemma scan_number_wf: "scan_number None P s = Some (v, r) \<Longrightarrow> wf_pyval v"
  by (auto simp: scan_number_def split: option.splits if_splits)

lemma parse_wf: "parse None P n j s = Some (v, r) \<Longrightarrow> job_ok j \<Longrightarrow> wf_pyval v"
proof (induction n arbitrary: j s v r)
  case 0
  then show ?case by (simp add: parse.simps(1))
next
  case (Suc n)
  show ?case
  proof (cases j)
    case Value
    obtain c cs where s: "s = c # cs" using Suc.prems Value by (cases s) (auto simp: parse_Value)
    have "(\<exists>t. v = PStr t) \<or> (\<exists>k x b. job_ok k \<and> parse None P n k (x # b) = Some (v, r)) \<or>
        v = PList [] \<or> v = PDict [] \<or> v = PNone \<or> (\<exists>b. v = PBool b) \<or> scan_number None P s = Some (v, r)"
      using Suc.prems(1) unfolding s Value parse_Value
      by (auto simp del: starts_with.simps split: if_splits list.splits option.splits)
    then show ?thesis using Suc.IH by (auto dest: scan_number_wf)
  next
    case (Items acc)
    with Suc.prems obtain u b x b' where u: "parse None P n Value s = Some (u, b)" "skip b = x # b'"
      and rest: "(if x = CHR '','' then parse None P n (Items (acc @ [u])) (skip b')
          else if x = CHR '']'' then Some (PList (acc @ [u]), b') else None) = Some (v, r)"
      by (auto simp: parse_Items split: list.splits option.splits)
    have "job_ok (Items (acc @ [u]))" using Suc.IH [OF u(1)] Suc.prems(2) Items by simp
    then show ?thesis using rest Suc.IH [of "Items (acc @ [u])"] by (auto split: if_splits)
  next
    case (Members acc)
    with Suc.prems obtain cs k b x b1 where s: "s = CHR 0x22 # cs" "scan_string cs = Some (k, b)" "skip b = x # b1"
      by (auto simp: parse_Members split: list.splits option.splits if_splits)
    with Suc.prems Members obtain u b2 y b3 where u: "parse None P n Value (skip b1) = Some (u, b2)" "skip b2 = y # b3"
      and rest: "(if y = CHR '','' then parse None P n (Members (dict_set k u acc)) (skip b3)
          else if y = CHR ''}'' then Some (PDict (dict_set k u acc), b3) else None) = Some (v, r)"
      by (auto simp: parse_Members split: list.splits option.splits if_splits)
    have "wf_pyval (PDict (dict_set k u acc))" using Suc.IH [OF u(1)] Suc.prems(2) Members
      by (auto simp del: wf_pyval.simps(2) intro!: wf_dict_set)
    then show ?thesis using rest Suc.IH [of "Members (dict_set k u acc)"] by (auto simp del: wf_pyval.simps(2) split: if_splits)
  qed
qed

lemma loads_wf: "loads P s = Some v \<Longrightarrow> wf_pyval v"
  by (auto simp: document_def split: option.splits if_splits dest: parse_wf)

section \<open>A runtime with the assumed floats\<close>

definition ratio_value :: "string \<Rightarrow> rat" where
  "ratio_value s = (let a = takeWhile (\<lambda>c. c \<noteq> CHR ''.'') s
     in of_int (int_value a) / of_int (int_value (drop (Suc (length a)) s)))"

definition with_ratios :: "prims \<Rightarrow> prims" where
  "with_ratios P = P\<lparr>float_repr := ratio_repr, parse_float := (\<lambda>s. Some (ratio_value s))\<rparr>"

lemma ratio_value_repr: "ratio_value (ratio_repr q) = q"
proof (cases "quotient_of q")
  case (Pair n d)
  have "takeWhile (\<lambda>c. c \<noteq> CHR ''.'') (digits_int n @ CHR ''.'' # digits_int d) = digits_int n"
    using digits_int_integral(1) [of n] by (simp add: takeWhile_append2 takeWhile_tail)
      (metis append.right_neutral takeWhile.simps(1) takeWhile_append2)
  then show ?thesis
    by (simp add: ratio_value_def ratio_repr_def Pair int_value_digits Let_def quotient_of_div [OF Pair, symmetric])
qed

lemma digits_then: "takeWhile is_digit (digits_nat m @ CHR ''.'' # t) = digits_nat m"
  using digits_nat_chars [of m] by (simp add: takeWhile_append list_all_iff is_digit_def)

lemma whole_then: "whole (digits_nat m @ CHR ''.'' # t) = digits_nat m"
  using whole_digits [of m] digits_then [of m t] by (cases "digits_nat m") (auto simp: whole_def split: if_splits)

lemma fraction_digits: "fraction (CHR ''.'' # digits_nat m) = CHR ''.'' # digits_nat m"
proof -
  have "takeWhile is_digit (digits_nat m) = digits_nat m"
    using digits_nat_chars [of m] by (simp add: takeWhile_eq_all_conv list_all_iff)
  then show ?thesis unfolding fraction_def Let_def list.case by (simp only:) simp
qed

lemma split_ratio: "split_number (ratio_repr q) = Some (ratio_repr q, True, [])"
proof (cases "quotient_of q")
  case (Pair n d)
  have "0 < d" using quotient_of_denom_pos [OF Pair] .
  then have d: "digits_int d = digits_nat (nat d)" by (simp add: digits_int_def)
  show ?thesis
  proof (cases "n < 0")
    case True
    with \<open>0 < d\<close> show ?thesis
      by (simp add: split_number_def ratio_repr_def Pair d digits_int_def whole_then fraction_digits exponent_def Let_def)
  next
    case False
    obtain c cs where c: "digits_nat (nat n) = c # cs" by (cases "digits_nat (nat n)") auto
    have "(case digits_nat (nat n) @ CHR ''.'' # digits_nat (nat d) of
        [] \<Rightarrow> [] | c # _ \<Rightarrow> if c = CHR ''-'' then [c] else []) = []"
      using digits_head(1) [OF c] by (simp add: c)
    with False \<open>0 < d\<close> show ?thesis
      by (simp add: split_number_def ratio_repr_def Pair d digits_int_def whole_then fraction_digits exponent_def Let_def)
  qed
qed

lemma with_ratios_floats: "json_floats (with_ratios P)"
  by (simp add: json_floats_def with_ratios_def split_ratio ratio_value_repr)

end
