(* ===== verification/Scenario.thy ===== *)
theory Scenario
  imports Resolve JsonText
begin

text \<open>
  A complete worked example: a manifest with one declared refund action, the authority context
  and grant that cover it, the statuses a synthetic resolver reports, and a proposal. The
  runtime primitives are small executable stand-ins: the digest is the length of the text,
  times are written \<open>T<microseconds>\<close>. The lemma at the end evaluates the resolver's check
  on it; the witnesses of the properties apply them to this example.
\<close>

section \<open>Executable primitives\<close>

fun dec_val :: "int \<Rightarrow> string \<Rightarrow> int option" where
  "dec_val n [] = Some n"
| "dec_val n (c # cs) = (let d = of_char c :: int
     in if 48 \<le> d \<and> d < 58 then dec_val (10 * n + (d - 48)) cs else None)"

definition demo_time :: "string \<Rightarrow> pydatetime option" where
  "demo_time s = (case s of
      [] \<Rightarrow> None
    | c # cs \<Rightarrow> if c = CHR ''T'' then map_option Aware (dec_val 0 cs) else None)"

definition demo_prims :: prims where
  "demo_prims = \<lparr>sha256_hex = (\<lambda>s. digits_nat (length s)), float_repr = ratio_repr,
     parse_int = (\<lambda>s. None), parse_float = (\<lambda>s. Some (ratio_value s)), fromisoformat = demo_time,
     isoformat_utc = (\<lambda>n. CHR ''T'' # digits_int n), local_to_utc = (\<lambda>n. n),
     container_repr = (\<lambda>v. ''?''), uuid4 = digits_nat, clock = (\<lambda>n. 100000000)\<rparr>"

lemma demo_floats: "float_repr_ok demo_prims"
  using ratio_repr_ok [of demo_prims] by (simp add: demo_prims_def)

lemma demo_json_floats: "json_floats demo_prims"
  by (simp add: json_floats_def demo_prims_def split_ratio ratio_value_repr)

section \<open>The documents\<close>

definition demo_action :: pydict where
  "demo_action =
     [(''action_id'', PStr ''refund''), (''action_name'', PStr ''refund.issue''),
      (''tool_name'', PStr ''refunds''),
      (''target_policy'', PDict [(''allowed_targets'', PList [PStr ''acct-1''])]),
      (''payload_policy'', PDict [(''required_fields'', PList [PStr ''order'']),
                                  (''optional_fields'', PList [PStr ''note''])]),
      (''effect_limits'', PDict [(''max_effects'', PInt 2), (''max_amount'', PInt 100), (''unit'', PStr ''USD'')]),
      (''authority_required'', PList [PDict [(''scope'', PStr ''refund:write'')]]),
      (''authority_context'', PDict [(''profile_ref'', PStr ''ctx''), (''requirement_id'', PStr ''req''),
         (''institution_id'', PStr ''inst''), (''authority_domain'', PStr ''money''),
         (''consequence_tier'', PStr ''high'')]),
      (''review_requirement'', PDict [(''mode'', PStr ''human_review''), (''reviewer_role'', PStr ''manager'')])]"

definition demo_manifest :: pydict where
  "demo_manifest =
     [(''manifest_version'', PStr ''1.1''), (''manifest_id'', PStr ''m''),
      (''actions'', PList [PDict demo_action]),
      (''tools'', PList [PDict [(''tool_name'', PStr ''refunds''), (''adapter_id'', PStr ''adapter'')]])]"

definition demo_permission :: "int \<Rightarrow> pyval" where
  "demo_permission cap = PDict
     [(''action'', PStr ''refund.issue''), (''targets'', PList [PStr ''acct-1'']),
      (''data_scopes'', PList [PStr ''refund:write'']), (''max_amount'', PInt 50),
      (''unit'', PStr ''USD''), (''max_effects'', PInt cap)]"

definition demo_requirement :: pydict where
  "demo_requirement =
     [(''requirement_id'', PStr ''req''), (''consequence'', PDict [(''tier'', PStr ''high'')]),
      (''approvals'', PList [PDict [(''role_id'', PStr ''urn:role:manager''),
                                    (''independent_of_actor'', PBool True)]]),
      (''permissions'', PList [demo_permission 3]),
      (''evidence'', PList [PDict [(''obligation_id'', PStr ''ev''), (''required'', PBool True),
         (''kind'', PStr ''authorization''), (''source_ref'', PStr ''src''), (''max_age_seconds'', PInt 60)]])]"

definition demo_grant :: pydict where
  "demo_grant =
     [(''grant_id'', PStr ''g''), (''revision'', PStr ''r1''), (''status_ref'', PStr ''st''),
      (''requirement_id'', PStr ''req''), (''issuer'', PStr ''boss''), (''issuer_role'', PStr ''cfo''),
      (''issuance_record_ref'', PStr ''iss''), (''grantee'', PStr ''alice''),
      (''acting_identity'', PStr ''agent''), (''not_before'', PStr ''T0''),
      (''expires_at'', PStr ''T900000000''), (''permissions'', PList [demo_permission 1]),
      (''approval_refs'', PList [PStr ''appr'']),
      (''policy_versions'', PList [PDict [(''ref'', PStr ''pol''), (''version'', PStr ''v1'')]])]"

definition demo_context :: pydict where
  "demo_context =
     [(''context_id'', PStr ''ctx''), (''schema_version'', PStr ''0.1.0''),
      (''interface_status'', PStr ''proposed_pending_governor_review''),
      (''institution'', PDict [(''institution_id'', PStr ''inst''), (''authority_domain'', PStr ''money''),
         (''authority_basis_ref'', PStr ''basis'')]),
      (''requirement'', PDict demo_requirement),
      (''principal'', PStr ''alice''), (''acting_identity'', PStr ''agent''),
      (''grant'', PDict demo_grant)]"

definition demo_proposal :: proposal where
  "demo_proposal = \<lparr>p_manifest_id = ''m'', p_manifest_version = ''1.1'',
     p_manifest_digest = commitment demo_prims (PDict demo_manifest),
     p_actor = ''agent'', p_principal = ''alice'', p_action_id = ''refund'', p_adapter_id = ''adapter'',
     p_target = ''acct-1'', p_payload = [(''order'', PStr ''o-7'')],
     p_payload_commitment = commitment demo_prims (PDict [(''order'', PStr ''o-7'')]),
     p_requested_permissions = [''refund:write''], p_amount = 40, p_unit = ''USD'', p_effects = 1,
     p_authority_context_ref = Some ''ctx'', p_requirement_id = Some ''req'', p_risk_metadata = [],
     p_not_before = None, p_expires_at = None, p_correlation_id = None, p_run_id = None,
     p_expected_side_effects = [], p_evidence_refs = [], p_tenant_id = None\<rparr>"

section \<open>The statuses\<close>

definition demo_grant_status :: "grant_state \<Rightarrow> grant_status" where
  "demo_grant_status state = \<lparr>gs_grant_id = ''g'', gs_revision = ''r1'', gs_status = state,
     gs_observed_at = ''T90000000'', gs_version = ''1'', gs_status_ref = ''st'',
     gs_authority_basis_ref = ''basis'', gs_institution_id = ''inst'', gs_authority_domain = ''money'',
     gs_tenant_id = None, gs_superseded_by = None\<rparr>"

definition demo_approval :: approval_status where
  "demo_approval = \<lparr>as_approval_ref = ''appr'', as_role_id = ''urn:role:manager'', as_approver = ''carol'',
     as_grant_id = ''g'', as_grant_revision = ''r1'',
     as_proposal_commitment = proposal_commitment demo_prims demo_proposal,
     as_policy_versions = [[(''ref'', PStr ''pol''), (''version'', PStr ''v1'')]],
     as_status = ApprovalActive, as_observed_at = ''T90000000'', as_institution_id = ''inst'',
     as_authority_domain = ''money'', as_tenant_id = None\<rparr>"

definition demo_mapping :: role_mapping_status where
  "demo_mapping = (let m = \<lparr>rm_institution_id = ''inst'', rm_version = ''1'', rm_digest = '''',
       rm_aliases = [(''manager'', [''urn:role:manager''])]\<rparr>
     in m\<lparr>rm_digest := mapping_digest demo_prims m\<rparr>)"

definition demo_synthetic :: "grant_state \<Rightarrow> synthetic" where
  "demo_synthetic state = \<lparr>sy_contexts = [''ctx'' \<mapsto> demo_context],
     sy_statuses = [''g'' \<mapsto> demo_grant_status state],
     sy_identities = [''agent'' \<mapsto> \<lparr>is_identity = ''agent'', is_principal = ''alice'',
        is_authenticated = True, is_delegation_valid = True, is_observed_at = ''T90000000'',
        is_institution_id = ''inst'', is_authority_domain = ''money'', is_chain = []\<rparr>],
     sy_mandates = [''boss|cfo'' \<mapsto> \<lparr>ms_issuer = ''boss'', ms_issuer_role = ''cfo'',
        ms_issuance_record_ref = ''iss'', ms_mandate_valid = True, ms_observed_at = ''T90000000'',
        ms_institution_id = ''inst'', ms_authority_domain = ''money''\<rparr>],
     sy_approvals = [''appr'' \<mapsto> demo_approval],
     sy_policies = [''pol'' \<mapsto> \<lparr>ps_ref = ''pol'', ps_version = ''v1'', ps_status = PolicyActive,
        ps_observed_at = ''T90000000'', ps_institution_id = ''inst'', ps_authority_domain = ''money'',
        ps_tenant_id = None\<rparr>],
     sy_conflicts = [''req'' \<mapsto> \<lparr>cs_requirement_id = ''req'', cs_state = ConflictClear,
        cs_observed_at = ''T90000000'', cs_institution_id = ''inst'', cs_authority_domain = ''money'',
        cs_conflict_refs = []\<rparr>],
     sy_evidence = [''ev'' \<mapsto> \<lparr>es_obligation_id = ''ev'', es_state = EvidenceCurrent,
        es_observed_at = ''T90000000'', es_source_ref = ''src'', es_institution_id = ''inst'',
        es_authority_domain = ''money''\<rparr>],
     sy_role_mappings = [''inst'' \<mapsto> demo_mapping]\<rparr>"

definition demo_config :: "grant_state \<Rightarrow> config" where
  "demo_config state = \<lparr>cf_manifest = demo_manifest,
     cf_resolver = synthetic_resolver demo_prims 100000000 (demo_synthetic state),
     cf_status_max_age = 60, cf_identity_max_age = 60, cf_mandate_max_age = 60,
     cf_approval_max_age = 60, cf_clock_tolerance = 5,
     cf_observation_policy = Some \<lparr>op_max_age_seconds = 30, op_clock_tolerance_seconds = 5\<rparr>\<rparr>"

abbreviation demo_now :: pydatetime where
  "demo_now \<equiv> Aware 100000000"

definition demo_binding :: binding where
  "demo_binding = \<lparr>b_proposal_commitment = proposal_commitment demo_prims demo_proposal,
     b_manifest_id = ''m'', b_manifest_version = ''1.1'',
     b_manifest_digest = commitment demo_prims (PDict demo_manifest),
     b_actor = ''agent'', b_principal = ''alice'', b_action_id = ''refund'', b_adapter_id = ''adapter'',
     b_target = ''acct-1'', b_payload_commitment = commitment demo_prims (PDict [(''order'', PStr ''o-7'')]),
     b_requested_permissions = [''refund:write''], b_amount = 40, b_unit = ''USD'', b_effects = 1,
     b_authority_context_id = ''ctx'', b_authority_context_version = ''0.1.0'',
     b_authority_context_status = ''proposed_pending_governor_review'',
     b_requirement_id = ''req'',
     b_requirement_commitment = commitment demo_prims (PDict demo_requirement),
     b_grant_id = ''g'', b_grant_revision = ''r1'',
     b_policy_versions = [[(''ref'', PStr ''pol''), (''version'', PStr ''v1'')]],
     b_role_mapping_version = ''1'', b_role_mapping_digest = rm_digest demo_mapping,
     b_effective_max_effects = 1, b_tenant_id = None\<rparr>"

section \<open>Evaluation\<close>

lemmas demo_defs = demo_proposal_def demo_manifest_def demo_action_def demo_context_def
  demo_grant_def demo_requirement_def demo_permission_def demo_binding_def

lemmas lookup_defs = dget_or_def ditem_def vget_or_def vitem_def py_iter_def py_set_def py_in_def
  py_mem_def py_int_def py_float_def opt_str_def

lemma demo_manifest_ok:
  "manifest_mismatches demo_prims demo_manifest demo_proposal demo_now = Inr []"
  by (simp add: manifest_mismatches_def version_reasons_def find_action_def find_tool_def
      action_reasons_def adapter_reasons_def target_reasons_def payload_reasons_def limit_reasons_def
      permission_reasons_def needed_scopes_def profile_reasons_def validity_reasons_def given_time_def
      MANIFEST_VERSION_def demo_defs lookup_defs float_of_int_exact)

lemma demo_declaration:
  "declaration_reasons demo_prims (demo_config st) demo_context demo_proposal =
     Inr ([], Some (PDict demo_action), Some demo_mapping)"
  by (simp add: declaration_reasons_def context_reasons_def find_action_def declared_reasons_def
      action_part_def mapping_reasons_def review_reasons_def required_roles_def resolve_role_def
      AUTHORITY_CONTEXT_VERSION_def AUTHORITY_CONTEXT_STATUS_def
      demo_config_def synthetic_resolver_def demo_synthetic_def demo_mapping_def mapping_digest_def
      demo_defs lookup_defs)

lemma demo_time: "parse_time demo_prims ''T0'' = Inr 0" "parse_time demo_prims ''T90000000'' = Inr 90000000"
  "parse_time demo_prims ''T900000000'' = Inr 900000000"
  by (simp_all add: parse_time_def replace_Z_def demo_prims_def demo_time_def Let_def)

lemma demo_matching:
  "matching_permission demo_prims demo_manifest (PDict demo_requirement) demo_proposal = Inr (Some (demo_permission 3))"
  "matching_permission demo_prims demo_manifest (PDict demo_grant) demo_proposal = Inr (Some (demo_permission 1))"
  by (simp_all add: matching_permission_def permission_covers_def demo_defs lookup_defs float_of_int_exact)

lemmas demo_status_defs = demo_config_def synthetic_resolver_def demo_synthetic_def
  demo_grant_status_def demo_approval_def synthetic_identity_def synthetic_mandate_def

lemmas demo_simps = demo_status_defs demo_defs lookup_defs same_institution_def fresh_def demo_time
  seconds_def

lemma demo_status_reasons:
  "grant_status_reasons demo_prims (demo_config st) demo_context (PDict demo_grant) demo_proposal demo_now =
     Inr (flag (st \<noteq> GrantActive) ''grant_not_active'')"
  by (simp add: grant_status_reasons_def demo_simps)

lemma demo_identity:
  "rs_identity_status (cf_resolver (demo_config st)) (PStr ''agent'') (PStr ''alice'') =
     Inr (the (sy_identities (demo_synthetic st) ''agent''))"
  "identity_reasons demo_prims (demo_config st) demo_context
     (the (sy_identities (demo_synthetic st) ''agent'')) demo_now = Inr []"
  "mandate_reasons demo_prims (demo_config st) demo_context (PDict demo_grant) demo_now = Inr []"
  by (simp_all add: identity_reasons_def mandate_reasons_def demo_simps)

lemma demo_grant_blocks:
  "grant_binding_reasons demo_prims demo_context (PDict demo_requirement) (PDict demo_grant)
     demo_proposal demo_now = Inr []"
  "delegation_reasons (PDict demo_grant) (the (sy_identities (demo_synthetic st) ''agent'')) = Inr []"
  "conflict_reasons demo_prims (demo_config st) demo_context (PDict demo_requirement) demo_now = Inr []"
  by (simp_all add: grant_binding_reasons_def delegation_reasons_def conflict_reasons_def
      py_sorted_def demo_simps)

lemma demo_policy_blocks:
  "vget_or (PDict demo_grant) ''policy_versions'' (PList []) =
     Inr (PList [PDict [(''ref'', PStr ''pol''), (''version'', PStr ''v1'')]])"
  "policy_reasons demo_prims (demo_config st) demo_context
     (PList [PDict [(''ref'', PStr ''pol''), (''version'', PStr ''v1'')]]) demo_proposal demo_now = Inr []"
  "approval_reasons demo_prims (demo_config st) demo_context (PDict demo_requirement) (PDict demo_grant)
     demo_proposal demo_now (PList [PDict [(''ref'', PStr ''pol''), (''version'', PStr ''v1'')]]) = Inr []"
  "evidence_reasons demo_prims (demo_config st) demo_context (PDict demo_requirement) demo_now = Inr []"
  by (simp_all add: policy_reasons_def policy_item_reasons_def approval_reasons_def
      approval_role_reasons_def approval_lookup_def approval_check_def evidence_reasons_def
      evidence_item_reasons_def evidence_fresh_reasons_def demo_simps)

lemma demo_granted:
  "granted_reasons demo_prims (demo_config st) demo_context (PDict demo_grant) demo_proposal demo_now =
     Inr (flag (st \<noteq> GrantActive) ''grant_not_active'', Some (demo_permission 3), Some (demo_permission 1))"
proof -
  have ids: "ditem demo_context ''acting_identity'' = Inr (PStr ''agent'')"
    "ditem demo_context ''principal'' = Inr (PStr ''alice'')"
    "ditem demo_context ''requirement'' = Inr (PDict demo_requirement)"
    by (simp_all add: demo_context_def ditem_def)
  have m: "cf_manifest (demo_config st) = demo_manifest" by (simp add: demo_config_def)
  show ?thesis
    by (simp only: granted_reasons_def ids m demo_identity demo_status_reasons demo_grant_blocks
        demo_policy_blocks demo_matching bindE_simps permission_scope_reasons_def) simp
qed

lemma demo_binding_made:
  "effective_max_effects demo_prims demo_proposal (Some (PDict demo_action)) (Some (demo_permission 3))
     (Some (demo_permission 1)) = Inr 1"
  "make_binding demo_prims demo_context (PDict demo_grant) demo_proposal (Some demo_mapping) 1 =
     Inr demo_binding"
  by (simp_all add: effective_max_effects_def permission_max_effects_def make_binding_def expect_str_def
      expect_dict_list_def expect_dict_def demo_defs lookup_defs)
    (simp_all add: demo_mapping_def)

text \<open>With the grant active the proposal is authorized; with the grant revoked it is held.\<close>

theorem demo_resolves:
  "resolve demo_prims (demo_config st) demo_proposal demo_now =
     (if st = GrantActive then Inr ([], Some demo_binding) else Inr ([''grant_not_active''], None))"
proof -
  have ctx: "rs_authority_context (cf_resolver (demo_config st)) (context_ref demo_proposal) = Inr (Some demo_context)"
    by (simp add: demo_status_defs context_ref_def demo_proposal_def)
  have g: "dget demo_context ''grant'' = PDict demo_grant" "truthy (PDict demo_grant)"
    by (simp_all add: demo_context_def demo_grant_def dget_or_def)
  have m: "cf_manifest (demo_config st) = demo_manifest" by (simp add: demo_config_def)
  show ?thesis
    by (simp only: resolve_def m demo_manifest_ok ctx g demo_declaration demo_granted demo_binding_made
        bindE_simps prod.case option.case)
      (simp add: demo_binding_made sorted_set_def)
qed

end
