(* ===== verification/Reconcile.thy ===== *)
theory Reconcile
  imports World Scenario
begin

text \<open>
  Observing the destination and classifying the observation: \<open>_trusted_evaluation_time\<close>,
  \<open>_reconcile_observation\<close> and \<open>_observe_and_reconcile\<close> of \<open>BoundedAuthorizationWorkflow\<close>
  in \<open>bounded.py\<close>. The reasons to hold are computed by definitions in the order of the code;
  the actions write the same records.
\<close>

section \<open>Classifying one observation\<close>

text \<open>An optional evaluation time: the reason it is not trusted, or its instant.\<close>

definition trusted_evaluation_time :: "pydatetime option \<Rightarrow> string list \<times> int option" where
  "trusted_evaluation_time now = (case now of
      None \<Rightarrow> ([''evaluation_time_missing''], None)
    | Some (Naive _) \<Rightarrow> ([''evaluation_time_timezone_missing''], None)
    | Some (Aware t) \<Rightarrow> ([], Some t))"

definition observation_time :: "prims \<Rightarrow> observation \<Rightarrow> string list \<times> int option" where
  "observation_time P obs = (case o_observed_at obs of
      None \<Rightarrow> ([''observation_time_missing''], None)
    | Some raw \<Rightarrow>
        if blank raw then ([''observation_time_missing''], None)
        else (case fromisoformat P (replace_Z raw) of
            None \<Rightarrow> ([''observation_time_malformed''], None)
          | Some (Naive _) \<Rightarrow> ([''observation_time_timezone_missing''], None)
          | Some (Aware t) \<Rightarrow> ([], Some t)))"

definition age_reasons :: "int option \<Rightarrow> int option \<Rightarrow> observation_policy option \<Rightarrow> string list" where
  "age_reasons observed evaluation policy = (case (observed, evaluation, policy) of
      (Some o', Some e, Some op) \<Rightarrow>
        if o' > e + seconds (op_clock_tolerance_seconds op) then [''observation_time_future'']
        else if e - o' > seconds (op_max_age_seconds op) then [''observation_stale'']
        else []
    | _ \<Rightarrow> [])"

definition state_reasons :: "string \<Rightarrow> observation \<Rightarrow> string list" where
  "state_reasons i obs = (case o_state obs of
      ObsAbsent \<Rightarrow> flag (o_destination_state obs \<noteq> []) ''absence_has_destination_state''
    | ObsUnknown \<Rightarrow> [''observation_state_unknown'']
    | _ \<Rightarrow>
        flag (dget (o_destination_state obs) ''effect_id'' \<noteq> PStr i) ''destination_effect_id_mismatch'' @
        flag (dget (o_destination_state obs) ''state'' \<noteq> PStr (observed_state_str (o_state obs)))
          ''destination_state_contradiction'')"

definition observation_reasons ::
  "prims \<Rightarrow> observation_policy option \<Rightarrow> string \<Rightarrow> observation \<Rightarrow> pydatetime option \<Rightarrow> string list" where
  "observation_reasons P policy i obs now =
     (case trusted_evaluation_time now of (rs1, evaluation) \<Rightarrow>
      case observation_time P obs of (rs2, observed) \<Rightarrow>
        rs1 @ flag (policy = None) ''observation_policy_missing'' @
        flag (o_effect_id obs \<noteq> i) ''observation_effect_id_mismatch'' @ rs2 @
        age_reasons observed evaluation policy @ state_reasons i obs)"

definition classify :: "bool \<Rightarrow> observation \<Rightarrow> reconciliation_outcome" where
  "classify accepted obs =
     (if \<not> accepted then RecHold
      else (case o_state obs of ObsApplied \<Rightarrow> RecApplied | ObsAbsent \<Rightarrow> RecObservedAbsent | _ \<Rightarrow> RecHold))"

text \<open>The result record; the last three fields are the same on both paths.\<close>

definition reconciliation_of ::
  "prims \<Rightarrow> observation_policy option \<Rightarrow> string \<Rightarrow> pydatetime option \<Rightarrow> pydatetime \<Rightarrow>
     reconciliation_outcome \<Rightarrow> observation option \<Rightarrow> bool \<Rightarrow> string list \<Rightarrow> reconciliation" where
  "reconciliation_of P policy i now stamp outcome obs accepted reasons =
     \<lparr>rec_effect_id = i, rec_reconciled_at = iso P stamp, rec_result = outcome, rec_observation = obs,
      rec_observation_accepted = accepted, rec_retry_eligible = False,
      rec_reasons = sorted_set reasons,
      rec_evaluation_time = map_option (isoformat_utc P) (snd (trusted_evaluation_time now)),
      rec_observation_max_age_seconds = map_option op_max_age_seconds policy,
      rec_observation_clock_tolerance_seconds = map_option op_clock_tolerance_seconds policy\<rparr>"

section \<open>The actions\<close>

definition reconcile_observation ::
  "prims \<Rightarrow> config \<Rightarrow> string \<Rightarrow> observation \<Rightarrow> pydatetime option \<Rightarrow> ('d, reconciliation) act" where
  "reconcile_observation P cfg i obs now =
     (let policy = cf_observation_policy cfg;
          reasons = observation_reasons P policy i obs now;
          accepted = (reasons = [])
      in bindA (if accepted then recordA (EObservation obs) else returnA ()) (\<lambda>_.
         bindA (nowA P) (\<lambda>stamp.
         let value = reconciliation_of P policy i now stamp (classify accepted obs) (Some obs) accepted reasons
         in bindA (recordA (EReconciliation value)) (\<lambda>_. returnA value))))"

definition observe_and_reconcile ::
  "prims \<Rightarrow> config \<Rightarrow> 'd destination \<Rightarrow> string \<Rightarrow> pydatetime option \<Rightarrow> ('d, reconciliation) act" where
  "observe_and_reconcile P cfg D i now =
     bindA (observeA P D i) (\<lambda>seen. case seen of
       Inr obs \<Rightarrow> reconcile_observation P cfg i obs now
     | Inl e \<Rightarrow>
        (let policy = cf_observation_policy cfg;
             reasons = fst (trusted_evaluation_time now) @
               flag (policy = None) ''observation_policy_missing'' @
               [''observation_unavailable:'' @ exn_name (exn_kind e)]
         in bindA (nowA P) (\<lambda>stamp.
            let value = reconciliation_of P policy i now stamp RecHold None False reasons
            in bindA (recordA (EReconciliation value)) (\<lambda>_. returnA value))))"

text \<open>\<open>reconcile\<close>: the public entry point.\<close>

definition reconcile ::
  "prims \<Rightarrow> config \<Rightarrow> 'd destination \<Rightarrow> string \<Rightarrow> pydatetime option \<Rightarrow> ('d, reconciliation) act" where
  "reconcile P cfg D i now = observe_and_reconcile P cfg D i now"

section \<open>Lemmas\<close>

lemma trusted_Some: "trusted_evaluation_time now = ([], e) \<longleftrightarrow> (\<exists>t. now = Some (Aware t) \<and> e = Some t)"
  by (auto simp: trusted_evaluation_time_def split: option.splits pydatetime.splits)

lemma observation_time_ok: "observation_time P obs = ([], t) \<longleftrightarrow>
    (\<exists>raw u. o_observed_at obs = Some raw \<and> \<not> blank raw \<and>
       fromisoformat P (replace_Z raw) = Some (Aware u) \<and> t = Some u)"
  by (auto simp: observation_time_def split: option.splits pydatetime.splits if_splits)

lemma age_reasons_Nil: "age_reasons (Some u) (Some t) (Some op) = [] \<longleftrightarrow>
    in_window (op_clock_tolerance_seconds op) (op_max_age_seconds op) u t"
  by (auto simp: age_reasons_def in_window_def)

text \<open>When an observation is accepted, exactly.\<close>

lemma observation_reasons_Nil:
  "observation_reasons P policy i obs now = [] \<longleftrightarrow>
     (\<exists>t op raw u. now = Some (Aware t) \<and> policy = Some op \<and> o_effect_id obs = i \<and>
        o_observed_at obs = Some raw \<and> \<not> blank raw \<and> fromisoformat P (replace_Z raw) = Some (Aware u) \<and>
        in_window (op_clock_tolerance_seconds op) (op_max_age_seconds op) u t \<and> state_reasons i obs = [])"
proof -
  obtain rs1 e where 1: "trusted_evaluation_time now = (rs1, e)" by fastforce
  obtain rs2 u where 2: "observation_time P obs = (rs2, u)" by fastforce
  show ?thesis
    using trusted_Some [of now e] observation_time_ok [of P obs u] 1 2
    by (cases policy; cases "rs1 = []"; cases "rs2 = []")
       (auto simp: observation_reasons_def age_reasons_Nil trusted_evaluation_time_def
         observation_time_def split: option.splits pydatetime.splits if_splits)
qed

lemma state_reasons_Nil:
  "state_reasons i obs = [] \<Longrightarrow>
     o_state obs \<noteq> ObsUnknown \<and> (o_state obs = ObsAbsent \<longrightarrow> o_destination_state obs = []) \<and>
     (o_state obs \<in> {ObsApplied, ObsPartial} \<longrightarrow>
        map_of (o_destination_state obs) ''effect_id'' = Some (PStr i) \<and>
        map_of (o_destination_state obs) ''state'' = Some (PStr (observed_state_str (o_state obs))))"
  by (cases "o_state obs") (auto simp: state_reasons_def dget_or_def split: option.splits)

lemma keeps_reconcile_observation [keeps]: "keeps_dest (reconcile_observation P cfg i obs now)"
  by (auto simp: reconcile_observation_def Let_def intro!: keeps_bindA keeps)

lemma keeps_observe_and_reconcile [keeps]: "keeps_dest (observe_and_reconcile P cfg D i now)"
  by (auto simp: observe_and_reconcile_def Let_def intro!: keeps_bindA keeps split: sum.splits)

lemma extends_reconcile_observation [extending]: "extends_store (reconcile_observation P cfg i obs now)"
  by (auto simp: reconcile_observation_def Let_def intro!: extends_bindA extending)

lemma extends_observe_and_reconcile [extending]: "extends_store (observe_and_reconcile P cfg D i now)"
  by (auto simp: observe_and_reconcile_def Let_def intro!: extends_bindA extending split: sum.splits)

text \<open>What a run of the observation leaves in the record file, and its answer.\<close>

lemma reconcile_observation_run:
  assumes "reconcile_observation P cfg i obs now w = (Inr v, w')"
  shows "\<exists>r. w_store w = Document r \<and>
     w_store w' = Document (add_entry (EReconciliation v)
       (if observation_reasons P (cf_observation_policy cfg) i obs now = []
        then add_entry (EObservation obs) r else r)) \<and>
     v = reconciliation_of P (cf_observation_policy cfg) i now (Aware (clock P (w_ticks w)))
       (classify (observation_reasons P (cf_observation_policy cfg) i obs now = []) obs) (Some obs)
       (observation_reasons P (cf_observation_policy cfg) i obs now = [])
       (observation_reasons P (cf_observation_policy cfg) i obs now)"
  using assms by (auto simp: reconcile_observation_def Let_def act_iff split: if_splits)

lemma observe_and_reconcile_run:
  assumes "observe_and_reconcile P cfg D i now w = (Inr v, w')"
  obtains (unavailable) e where "dst_observe D (clock P (w_ticks w)) i (w_dest w) = Inl e"
      "rec_result v = RecHold" "rec_observation v = None" "\<not> rec_observation_accepted v"
      "rec_reasons v \<noteq> []" "rec_effect_id v = i" "\<not> rec_retry_eligible v"
  | (observed) obs where "dst_observe D (clock P (w_ticks w)) i (w_dest w) = Inr obs"
      "rec_result v = classify (observation_reasons P (cf_observation_policy cfg) i obs now = []) obs"
      "rec_observation v = Some obs"
      "rec_observation_accepted v \<longleftrightarrow> observation_reasons P (cf_observation_policy cfg) i obs now = []"
      "rec_reasons v = sorted_set (observation_reasons P (cf_observation_policy cfg) i obs now)"
      "rec_effect_id v = i" "\<not> rec_retry_eligible v"
proof (cases "dst_observe D (clock P (w_ticks w)) i (w_dest w)")
  case (Inl e)
  with assms show ?thesis
    by (intro unavailable [of e]) (auto simp: observe_and_reconcile_def observeA_def Let_def act_iff reconciliation_of_def)
next
  case (Inr obs)
  with assms have "reconcile_observation P cfg i obs now (w\<lparr>w_ticks := Suc (w_ticks w)\<rparr>) = (Inr v, w')"
    by (auto simp: observe_and_reconcile_def observeA_def act_iff)
  from reconcile_observation_run [OF this] show ?thesis
    by (intro observed [OF Inr]) (auto simp: reconciliation_of_def)
qed

text \<open>Observing appends observations and reconciliations only.\<close>

lemma observe_and_reconcile_attempts:
  assumes "observe_and_reconcile P cfg D i now w = (r, w')" "w_store w = Document rr"
  shows "\<exists>rr'. w_store w' = Document rr' \<and> rr_attempts rr' = rr_attempts rr \<and>
     rr_decisions rr' = rr_decisions rr \<and> rr_refusals rr' = rr_refusals rr"
  using assms
  by (auto simp: observe_and_reconcile_def reconcile_observation_def bindA_def observeA_def recordA_def
      nowA_def returnA_def store_append_def Let_def split: sum.splits if_splits)

text \<open>On a readable record file, observing always answers.\<close>

lemma observe_and_reconcile_total:
  assumes "w_store w = Document rr"
  shows "\<exists>v w'. observe_and_reconcile P cfg D i now w = (Inr v, w')"
  using assms
  by (auto simp: observe_and_reconcile_def reconcile_observation_def bindA_def observeA_def recordA_def
      nowA_def returnA_def store_append_def Let_def split: sum.splits)

section \<open>Properties\<close>


definition demo_world :: "dest_file world" where
  "demo_world = \<lparr>w_store = Document (empty_run_record ''run''), w_dest = empty_destination,
     w_uuids = 0, w_ticks = 0\<rparr>"

lemma demo_clock [simp]: "clock demo_prims n = 100000000"
  by (simp add: demo_prims_def)

lemma demo_observe:
  "dst_observe (local_destination demo_prims) t i empty_destination =
     Inr \<lparr>o_effect_id = i, o_observed_at = Some (isoformat_utc demo_prims t), o_state = ObsAbsent,
          o_destination_state = []\<rparr>"
  by (simp add: local_destination_def local_observe_def empty_destination_def)

lemma demo_digit_chars: "char_of (48 :: nat) = CHR ''0''" "char_of (49 :: nat) = CHR ''1''"
  by code_simp+

lemma demo_iso: "isoformat_utc demo_prims 100000000 = ''T100000000''"
  by (simp add: demo_prims_def digits_int_def digits_nat.simps demo_digit_chars)

lemma of_char_T: "of_char (CHR ''T'') = (84 :: nat)"
  by simp

lemma demo_not_blank: "\<not> blank ''T100000000''"
proof -
  have "char_of n = CHR ''T'' \<Longrightarrow> n mod 256 = 84" for n :: nat
    by (metis of_char_of of_char_T)
  then have "char_of (numeral k :: nat) = CHR ''T'' \<longleftrightarrow> False" if "(numeral k :: nat) mod 256 \<noteq> 84" for k
    using that by blast
  then have "List.find (\<lambda>w. starts_with (map char_of w) ''T100000000'') ws_bytes = None"
    by (simp add: ws_bytes_def upt_rec)
  then show ?thesis by (subst blank.simps) simp
qed

lemma demo_absent_accepted:
  "observation_reasons demo_prims (cf_observation_policy (demo_config st)) i
     \<lparr>o_effect_id = i, o_observed_at = Some ''T100000000'', o_state = ObsAbsent,
      o_destination_state = []\<rparr> (Some demo_now) = []"
  by (simp add: observation_reasons_Nil demo_config_def demo_not_blank state_reasons_def in_window_def
      seconds_def replace_Z_def)
    (simp add: demo_prims_def demo_time_def Let_def)


lemma demo_look:
  assumes "w_dest w = empty_destination" "w_store w = Document rr"
  shows "\<exists>rec w1 rr1. observe_and_reconcile demo_prims (demo_config st) (local_destination demo_prims) i
     (Some demo_now) w = (Inr rec, w1) \<and> rec_result rec = RecObservedAbsent \<and>
     rec_observation rec = Some \<lparr>o_effect_id = i, o_observed_at = Some ''T100000000'', o_state = ObsAbsent,
       o_destination_state = []\<rparr> \<and> w_dest w1 = empty_destination \<and> w_store w1 = Document rr1"
proof -
  from observe_and_reconcile_total [OF assms(2)] obtain rec w1 where
    run: "observe_and_reconcile demo_prims (demo_config st) (local_destination demo_prims) i (Some demo_now) w = (Inr rec, w1)"
    by blast
  from observe_and_reconcile_attempts [OF run assms(2)] keeps_destD [OF keeps_observe_and_reconcile run] assms(1)
  have w1: "\<exists>rr1. w_store w1 = Document rr1" "w_dest w1 = empty_destination" by auto
  show ?thesis
  proof (cases rule: observe_and_reconcile_run [OF run])
    case (1 e)
    then show ?thesis by (simp add: assms(1) demo_observe)
  next
    case (2 obs)
    from 2(1) have obs: "obs = \<lparr>o_effect_id = i, o_observed_at = Some ''T100000000'', o_state = ObsAbsent,
       o_destination_state = []\<rparr>" by (simp add: assms(1) demo_observe demo_iso)
    from run w1 2(2,3) show ?thesis by (auto simp: obs demo_absent_accepted classify_def)
  qed
qed

end
