(* ===== verification/Authority.thy ===== *)
theory Authority
  imports Scenario
begin

text \<open>
  What an authorization establishes. \<open>resolve\<close> answers with a binding exactly when it found no
  reason to hold; the lemmas of this theory take such an answer apart along the structure of
  the method, and the properties read off what the workflow guarantees of the grant, of the
  people involved, of the approvals and evidence, of the limits, and of the binding itself.
\<close>

section \<open>The two shapes of an answer\<close>

lemma resolve_shape:
  assumes "resolve P cfg p now = Inr (rs, bo)"
  shows "(rs = [] \<longleftrightarrow> bo \<noteq> None) \<and> sorted rs \<and> distinct rs"
  using assms
  by (auto simp: resolve_def res_iff sorted_sorted_set distinct_sorted_set
      split: option.splits prod.splits if_splits)

lemma resolve_authorized:
  assumes "resolve P cfg p now = Inr (rs, Some b)"
  obtains ctx action mapping rp gp n where
    "rs = []" "manifest_mismatches P (cf_manifest cfg) p now = Inr []"
    "rs_authority_context (cf_resolver cfg) (context_ref p) = Inr (Some ctx)"
    "declaration_reasons P cfg ctx p = Inr ([], action, mapping)"
    "granted_reasons P cfg ctx (dget ctx ''grant'') p now = Inr ([], rp, gp)"
    "effective_max_effects P p action rp gp = Inr n"
    "make_binding P ctx (dget ctx ''grant'') p mapping n = Inr b"
  using assms
  by (auto simp: resolve_def res_iff split: option.splits prod.splits if_splits)

lemma granted_ok:
  assumes "granted_reasons P cfg context grant p now = Inr ([], rp, gp)"
  obtains acting princ identity requirement policy_versions where
    "ditem context ''acting_identity'' = Inr acting" "ditem context ''principal'' = Inr princ"
    "rs_identity_status (cf_resolver cfg) acting princ = Inr identity"
    "identity_reasons P cfg context identity now = Inr []"
    "mandate_reasons P cfg context grant now = Inr []"
    "grant_status_reasons P cfg context grant p now = Inr []"
    "ditem context ''requirement'' = Inr requirement"
    "grant_binding_reasons P context requirement grant p now = Inr []"
    "matching_permission P (cf_manifest cfg) requirement p = Inr rp" "rp \<noteq> None"
    "matching_permission P (cf_manifest cfg) grant p = Inr gp" "gp \<noteq> None"
    "delegation_reasons grant identity = Inr []"
    "conflict_reasons P cfg context requirement now = Inr []"
    "vget_or grant ''policy_versions'' (PList []) = Inr policy_versions"
    "policy_reasons P cfg context policy_versions p now = Inr []"
    "approval_reasons P cfg context requirement grant p now policy_versions = Inr []"
    "evidence_reasons P cfg context requirement now = Inr []"
  using assms
  by (auto simp: granted_reasons_def res_iff permission_scope_reasons_def)

lemma declaration_ok:
  assumes "declaration_reasons P cfg context p = Inr ([], action, mapping)"
  obtains institution_id where
    "context_reasons context p = Inr []" "find_action (cf_manifest cfg) (p_action_id p) = Inr action"
    "declared_reasons context action = Inr []"
    "vget (ctx_institution context) ''institution_id'' = Inr institution_id"
    "rs_role_mapping (cf_resolver cfg) (py_or institution_id (PStr '''')) = Inr mapping"
    "mapping_reasons P institution_id mapping = []"
    "review_reasons context action institution_id mapping = Inr []"
  using assms by (auto simp: declaration_reasons_def res_iff)

lemma make_binding_ok:
  assumes "make_binding P context grant p mapping n = Inr b"
  obtains g where "grant = PDict g" 
    "map_of g ''grant_id'' = Some (PStr (b_grant_id b))"
    "map_of g ''revision'' = Some (PStr (b_grant_revision b))"
    "dget_or g ''policy_versions'' (PList []) = PList (map PDict (b_policy_versions b))"
  using assms
  by (auto simp: make_binding_def res_iff ditem_Inr_iff vitem_Inr_iff vget_Inr_iff
      expect_dict_list_Inr_iff)

lemma make_binding_fields:
  assumes "make_binding P context grant p mapping n = Inr b"
  shows "b_proposal_commitment b = proposal_commitment P p" "b_target b = p_target p"
    "b_amount b = p_amount p" "b_unit b = p_unit p" "b_effects b = p_effects p"
    "b_adapter_id b = p_adapter_id p" "b_tenant_id b = p_tenant_id p"
    "b_effective_max_effects b = n" "b_actor b = p_actor p" "b_principal b = p_principal p"
    "b_action_id b = p_action_id p" "b_manifest_digest b = p_manifest_digest p"
    "b_payload_commitment b = p_payload_commitment p"
    "ditem context ''requirement'' = Inr r \<Longrightarrow> b_requirement_commitment b = commitment P r"
  using assms by (auto simp: make_binding_def res_iff)

text \<open>All of it at once: what an authorization consists of.\<close>

lemma authorized_parts:
  assumes "resolve P cfg p now = Inr (rs, Some b)"
  obtains ctx g action mapping institution_id acting princ identity requirement rp gp n where
    "manifest_mismatches P (cf_manifest cfg) p now = Inr []"
    "rs_authority_context (cf_resolver cfg) (context_ref p) = Inr (Some ctx)"
    "map_of ctx ''grant'' = Some (PDict g)"
    "map_of g ''grant_id'' = Some (PStr (b_grant_id b))"
    "map_of g ''revision'' = Some (PStr (b_grant_revision b))"
    "dget_or g ''policy_versions'' (PList []) = PList (map PDict (b_policy_versions b))"
    "context_reasons ctx p = Inr []" "find_action (cf_manifest cfg) (p_action_id p) = Inr action"
    "declared_reasons ctx action = Inr []"
    "vget (ctx_institution ctx) ''institution_id'' = Inr institution_id"
    "rs_role_mapping (cf_resolver cfg) (py_or institution_id (PStr '''')) = Inr mapping"
    "mapping_reasons P institution_id mapping = []"
    "review_reasons ctx action institution_id mapping = Inr []"
    "map_of ctx ''acting_identity'' = Some acting" "map_of ctx ''principal'' = Some princ"
    "rs_identity_status (cf_resolver cfg) acting princ = Inr identity"
    "identity_reasons P cfg ctx identity now = Inr []"
    "mandate_reasons P cfg ctx (PDict g) now = Inr []"
    "grant_status_reasons P cfg ctx (PDict g) p now = Inr []"
    "map_of ctx ''requirement'' = Some requirement"
    "grant_binding_reasons P ctx requirement (PDict g) p now = Inr []"
    "matching_permission P (cf_manifest cfg) requirement p = Inr (Some rp)"
    "matching_permission P (cf_manifest cfg) (PDict g) p = Inr (Some gp)"
    "delegation_reasons (PDict g) identity = Inr []"
    "conflict_reasons P cfg ctx requirement now = Inr []"
    "policy_reasons P cfg ctx (PList (map PDict (b_policy_versions b))) p now = Inr []"
    "approval_reasons P cfg ctx requirement (PDict g) p now (PList (map PDict (b_policy_versions b))) = Inr []"
    "evidence_reasons P cfg ctx requirement now = Inr []"
    "effective_max_effects P p action (Some rp) (Some gp) = Inr n"
    "make_binding P ctx (PDict g) p mapping n = Inr b"
proof -
  from assms obtain ctx action mapping rp gp n where
    top: "manifest_mismatches P (cf_manifest cfg) p now = Inr []"
      "rs_authority_context (cf_resolver cfg) (context_ref p) = Inr (Some ctx)"
    and decl: "declaration_reasons P cfg ctx p = Inr ([], action, mapping)"
    and granted: "granted_reasons P cfg ctx (dget ctx ''grant'') p now = Inr ([], rp, gp)"
    and n: "effective_max_effects P p action rp gp = Inr n"
    and b: "make_binding P ctx (dget ctx ''grant'') p mapping n = Inr b"
    by (rule resolve_authorized)
  from b obtain g where g: "dget ctx ''grant'' = PDict g"
    and bind: "map_of g ''grant_id'' = Some (PStr (b_grant_id b))"
      "map_of g ''revision'' = Some (PStr (b_grant_revision b))"
      "dget_or g ''policy_versions'' (PList []) = PList (map PDict (b_policy_versions b))"
    by (rule make_binding_ok)
  from g have cg: "map_of ctx ''grant'' = Some (PDict g)"
    by (auto simp: dget_or_def split: option.splits)
  from decl show thesis
  proof (rule declaration_ok)
    fix institution_id
    assume d: "context_reasons ctx p = Inr []" "find_action (cf_manifest cfg) (p_action_id p) = Inr action"
      "declared_reasons ctx action = Inr []"
      "vget (ctx_institution ctx) ''institution_id'' = Inr institution_id"
      "rs_role_mapping (cf_resolver cfg) (py_or institution_id (PStr '''')) = Inr mapping"
      "mapping_reasons P institution_id mapping = []"
      "review_reasons ctx action institution_id mapping = Inr []"
    from granted [unfolded g] show thesis
      by (rule granted_ok) (rule that [where rp = "the rp" and gp = "the gp", OF top cg bind d], use n b g bind in \<open>auto simp: ditem_Inr_iff\<close>)
  qed
qed

lemma same_institution_True:
  "same_institution i a context = Inr True \<longleftrightarrow>
     (\<exists>d. map_of context ''institution'' = Some (PDict d) \<and>
        map_of d ''institution_id'' = Some (PStr i) \<and> map_of d ''authority_domain'' = Some (PStr a))"
  by (auto simp: same_institution_def res_iff ditem_Inr_iff vitem_Inr_iff)

lemma grant_status_ok:
  assumes "grant_status_reasons P cfg context (PDict g) p now = Inr []"
    "map_of g ''grant_id'' = Some (PStr i)" "map_of g ''revision'' = Some (PStr r)"
  shows "\<exists>st. rs_grant_status (cf_resolver cfg) (PStr i) = Inr (Some st) \<and>
     gs_grant_id st = i \<and> gs_revision st = r \<and> gs_status st = GrantActive \<and>
     (p_tenant_id p \<noteq> None \<longrightarrow> gs_tenant_id st = p_tenant_id p) \<and>
     same_institution (gs_institution_id st) (gs_authority_domain st) context = Inr True \<and>
     cfg_fresh P cfg (gs_observed_at st) now (cf_status_max_age cfg) = Inr True"
  using assms
  by (auto simp: grant_status_reasons_def res_iff ditem_Inr_iff simp del: fresh_True_iff split: option.splits)

lemma grant_window_ok:
  assumes "grant_binding_reasons P context requirement (PDict g) p (Aware t) = Inr []"
  shows "\<exists>nb ex s e. map_of g ''not_before'' = Some nb \<and> parse_value P nb = Inr s \<and> s \<le> t \<and>
     map_of g ''expires_at'' = Some ex \<and> parse_value P ex = Inr e \<and> t < e"
  using assms by (auto simp: grant_binding_reasons_def res_iff ditem_Inr_iff not_less not_le)

section \<open>Properties\<close>

text \<open>
  C6. No authorization without a live grant. When a proposal resolves without reasons at time
  t, the grant named by the binding is in the authority context, its current status is active,
  has the revision the binding records, comes from the context's institution (and tenant, for a
  tenant-aware proposal), was observed within the freshness window, and t is inside the grant's
  validity interval.
\<close>

theorem authorized_needs_live_grant:
  assumes "resolve P cfg p now = Inr (rs, Some b)"
  shows "\<exists>context g st t nb ex s e obs.
     rs_authority_context (cf_resolver cfg) (context_ref p) = Inr (Some context) \<and>
     map_of context ''grant'' = Some (PDict g) \<and>
     map_of g ''grant_id'' = Some (PStr (b_grant_id b)) \<and>
     rs_grant_status (cf_resolver cfg) (PStr (b_grant_id b)) = Inr (Some st) \<and>
     gs_status st = GrantActive \<and> gs_revision st = b_grant_revision b \<and>
     (p_tenant_id p \<noteq> None \<longrightarrow> gs_tenant_id st = p_tenant_id p) \<and>
     same_institution (gs_institution_id st) (gs_authority_domain st) context = Inr True \<and>
     now = Aware t \<and> parse_time P (gs_observed_at st) = Inr obs \<and>
     in_window (cf_clock_tolerance cfg) (cf_status_max_age cfg) obs t \<and>
     map_of g ''not_before'' = Some nb \<and> parse_value P nb = Inr s \<and> s \<le> t \<and>
     map_of g ''expires_at'' = Some ex \<and> parse_value P ex = Inr e \<and> t < e"
  using assms
proof (rule authorized_parts)
  fix ctx g requirement
  assume ctx: "rs_authority_context (cf_resolver cfg) (context_ref p) = Inr (Some ctx)"
    "map_of ctx ''grant'' = Some (PDict g)"
    and ids: "map_of g ''grant_id'' = Some (PStr (b_grant_id b))"
      "map_of g ''revision'' = Some (PStr (b_grant_revision b))"
    and st: "grant_status_reasons P cfg ctx (PDict g) p now = Inr []"
    and win: "grant_binding_reasons P ctx requirement (PDict g) p now = Inr []"
  from grant_status_ok [OF st ids] obtain status obs t where
    t: "now = Aware t" "parse_time P (gs_observed_at status) = Inr obs"
      "in_window (cf_clock_tolerance cfg) (cf_status_max_age cfg) obs t"
    and status: "rs_grant_status (cf_resolver cfg) (PStr (b_grant_id b)) = Inr (Some status)"
      "gs_status status = GrantActive" "gs_revision status = b_grant_revision b"
      "p_tenant_id p \<noteq> None \<longrightarrow> gs_tenant_id status = p_tenant_id p"
      "same_institution (gs_institution_id status) (gs_authority_domain status) ctx = Inr True"
    unfolding fresh_True_iff by (elim exE conjE) (rule that)
  from grant_window_ok [OF win [unfolded t(1)]] status t ctx ids(1) show ?thesis by metis
qed

lemma authorized_needs_live_grant_witness:
  "\<exists>context. rs_authority_context (cf_resolver (demo_config GrantActive)) (context_ref demo_proposal) =
     Inr (Some context)"
  using authorized_needs_live_grant
    [OF demo_resolves [of GrantActive, unfolded if_True simp_thms(6)]] by blast

section \<open>Approvals, policies, evidence\<close>

lemma approval_lookup_match:
  assumes "approval_lookup cfg context p req ref = Inr (rs, ms)" "a \<in> set ms"
  shows "ref = PStr (as_approval_ref a) \<and> rs_approval_status (cf_resolver cfg) ref = Inr (Some a) \<and>
     same_institution (as_institution_id a) (as_authority_domain a) context = Inr True \<and>
     (p_tenant_id p \<noteq> None \<longrightarrow> as_tenant_id a = p_tenant_id p) \<and>
     vitem req ''role_id'' = Inr (PStr (as_role_id a))"
  using assms
  by (auto simp: approval_lookup_def res_iff simp del: fresh_True_iff
      split: option.splits if_splits)

lemma approval_check_ok:
  assumes "approval_check P cfg (PDict g) p now pv req a = Inr []"
  shows "as_status a = ApprovalActive"
    "cfg_fresh P cfg (as_observed_at a) now (cf_approval_max_age cfg) = Inr True"
    "map_of g ''grant_id'' = Some (PStr (as_grant_id a))"
    "map_of g ''revision'' = Some (PStr (as_grant_revision a))"
    "as_proposal_commitment a = proposal_commitment P p"
    "py_eq (PList (map PDict (as_policy_versions a))) pv"
    "vget req ''independent_of_actor'' = Inr v \<Longrightarrow> truthy v \<Longrightarrow> as_approver a \<noteq> p_actor p"
  using assms
  by (auto simp: approval_check_def res_iff ditem_Inr_iff simp del: fresh_True_iff)

lemma approval_role_ok:
  assumes "approval_role_reasons P cfg context grant p now pv req = Inr []"
  obtains refs a where
    "bindE (vget_or grant ''approval_refs'' (PList [])) py_iter = Inr refs"
    "PStr (as_approval_ref a) \<in> set refs"
    "rs_approval_status (cf_resolver cfg) (PStr (as_approval_ref a)) = Inr (Some a)"
    "same_institution (as_institution_id a) (as_authority_domain a) context = Inr True"
    "p_tenant_id p \<noteq> None \<longrightarrow> as_tenant_id a = p_tenant_id p"
    "vitem req ''role_id'' = Inr (PStr (as_role_id a))"
    "approval_check P cfg grant p now pv req a = Inr []"
proof -
  from assms obtain refs found where
    refs: "bindE (vget_or grant ''approval_refs'' (PList [])) py_iter = Inr refs"
    and found: "mapE (approval_lookup cfg context p req) refs = Inr found"
    and ne: "concat (map snd found) \<noteq> []"
    and chk: "\<forall>a\<in>set (concat (map snd found)). approval_check P cfg grant p now pv req a = Inr []"
    by (auto simp: approval_role_reasons_def bindE_Inr_iff Let_def appendE_Nil_iff collectE_Nil_iff
        split: if_splits)
  from ne obtain a where a: "a \<in> set (concat (map snd found))"
    by (metis list.set_intros(1) neq_Nil_conv)
  then obtain f where f: "f \<in> set found" "a \<in> set (snd f)" by auto
  from found f(1) obtain ref where ref: "ref \<in> set refs"
    "approval_lookup cfg context p req ref = Inr (fst f, snd f)"
    using mapE_member by fastforce
  from approval_lookup_match [OF ref(2) f(2)] ref(1) refs chk a show thesis
    by (intro that [of refs a]) auto
qed

lemma policy_item_ok:
  assumes "policy_item_reasons P cfg context p now (PDict d) = Inr []"
  shows "\<exists>st. map_of d ''ref'' = Some (PStr (ps_ref st)) \<and>
     rs_policy_status (cf_resolver cfg) (PStr (ps_ref st)) = Inr (Some st) \<and>
     ps_status st = PolicyActive \<and> map_of d ''version'' = Some (PStr (ps_version st)) \<and>
     same_institution (ps_institution_id st) (ps_authority_domain st) context = Inr True \<and>
     (p_tenant_id p \<noteq> None \<longrightarrow> ps_tenant_id st = p_tenant_id p) \<and>
     cfg_fresh P cfg (ps_observed_at st) now (cf_status_max_age cfg) = Inr True"
  using assms
  by (auto simp: policy_item_reasons_def res_iff ditem_Inr_iff simp del: fresh_True_iff
      split: option.splits)

lemma evidence_item_ok:
  assumes "evidence_item_reasons P cfg context now ob = Inr []"
    and "vitem ob ''required'' = Inr v" "truthy v" "vitem ob ''kind'' = Inr (PStr ''authorization'')"
  shows "\<exists>st age. vitem ob ''obligation_id'' = Inr (PStr (es_obligation_id st)) \<and>
     rs_evidence_status (cf_resolver cfg) (PStr (es_obligation_id st)) = Inr (Some st) \<and>
     es_state st = EvidenceCurrent \<and> vitem ob ''source_ref'' = Inr (PStr (es_source_ref st)) \<and>
     same_institution (es_institution_id st) (es_authority_domain st) context = Inr True \<and>
     bindE (vitem ob ''max_age_seconds'') (py_int P) = Inr age \<and>
     cfg_fresh P cfg (es_observed_at st) now age = Inr True"
proof -
  from assms(1) obtain oid current bad where
    oid: "vitem ob ''obligation_id'' = Inr oid" "rs_evidence_status (cf_resolver cfg) oid = Inr current"
    and bad: "(case current of None \<Rightarrow> Inr False | Some st \<Rightarrow>
              orE (Inr (oid \<noteq> PStr (es_obligation_id st)))
             (orE (bindE (vitem ob ''source_ref'') (\<lambda>v. Inr (v \<noteq> PStr (es_source_ref st))))
                  (negE (same_institution (es_institution_id st) (es_authority_domain st) context)))) = Inr bad"
    and rs: "appendE (Inr (flag bad ''evidence_binding_mismatch''))
               (evidence_fresh_reasons P cfg now ob (if bad then None else current)) = Inr []"
    by (auto simp: evidence_item_reasons_def bindE_Inr_iff)
  from rs have "\<not> bad" and fr: "evidence_fresh_reasons P cfg now ob current = Inr []"
    by (auto simp: appendE_Nil_iff split: if_splits)
  from fr obtain st where st: "current = Some st" "es_state st = EvidenceCurrent"
    and fresh: "bindE (bindE (vitem ob ''max_age_seconds'') (py_int P))
      (\<lambda>age. cfg_fresh P cfg (es_observed_at st) now age) = Inr True"
    using assms(2-4)
    by (auto simp: evidence_fresh_reasons_def flagE_Nil_iff negE_iff Let_def split: option.splits if_splits)
  from bad \<open>\<not> bad\<close> st oid fresh show ?thesis
    by (auto simp: res_iff simp del: fresh_True_iff)
qed


lemma approval_items_ok:
  assumes "approval_reasons P cfg context requirement grant p now pv = Inr []"
  shows "\<exists>reqs. bindE (vget_or requirement ''approvals'' (PList [])) py_iter = Inr reqs \<and>
     (\<forall>req\<in>set reqs. approval_role_reasons P cfg context grant p now pv req = Inr [])"
  using assms by (auto simp: approval_reasons_def res_iff)

lemma evidence_items_ok:
  assumes "evidence_reasons P cfg context requirement now = Inr []"
  shows "\<exists>obs. bindE (vget_or requirement ''evidence'' (PList [])) py_iter = Inr obs \<and>
     (\<forall>ob\<in>set obs. evidence_item_reasons P cfg context now ob = Inr [])"
  using assms by (auto simp: evidence_reasons_def res_iff)

section \<open>Limits\<close>

text \<open>The proposal as a permission of a requirement or grant allows it.\<close>

definition within_permission :: "prims \<Rightarrow> proposal \<Rightarrow> pyval \<Rightarrow> int \<Rightarrow> bool" where
  "within_permission P p perm e \<longleftrightarrow>
     (\<exists>targets q. vitem perm ''targets'' = Inr targets \<and> py_in (PStr (p_target p)) targets = Inr True \<and>
        bindE (vitem perm ''max_amount'') (py_float P) = Inr q \<and> p_amount p \<le> q \<and>
        vitem perm ''unit'' = Inr (PStr (p_unit p)) \<and>
        bindE (vitem perm ''max_effects'') (py_int P) = Inr e \<and> p_effects p \<le> e)"

lemma matching_within:
  assumes "matching_permission P m c p = Inr (Some perm)"
    and "permission_max_effects P (Some perm) = Inr e"
  shows "within_permission P p perm e \<and>
     (\<exists>perms. bindE (vget_or c ''permissions'' (PList [])) py_iter = Inr perms \<and> perm \<in> set perms)"
proof -
  from matching_permission_Some [OF assms(1)] obtain a d ps where
    cov: "permission_covers P a p perm = Inr True"
    and ps: "c = PDict d" "py_iter (dget_or d ''permissions'' (PList [])) = Inr ps" "perm \<in> set ps"
    by blast
  from cov assms(2) have "within_permission P p perm e"
    by (auto simp: permission_covers_def within_permission_def permission_max_effects_def res_iff)
  with ps show ?thesis by simp
qed

lemma effective_max_ok:
  assumes "effective_max_effects P p action (Some rp) (Some gp) = Inr n"
  obtains a b where "permission_max_effects P (Some rp) = Inr a" "permission_max_effects P (Some gp) = Inr b"
    "n \<le> a" "n \<le> b"
  using assms by (auto simp: effective_max_effects_def res_iff)

section \<open>Properties\<close>

text \<open>
  C11. Authorization needs the right people: the acting identity the resolver reports is the
  proposal's actor acting for its principal, authenticated, with a valid delegation, of the
  context's institution and freshly observed; and the issuer of the grant held a valid, freshly
  observed mandate of that institution for the role it issued under.
\<close>

theorem authorized_needs_valid_people:
  assumes "resolve P cfg p now = Inr (rs, Some b)"
  shows "\<exists>context g ident issuer role mandate.
     rs_authority_context (cf_resolver cfg) (context_ref p) = Inr (Some context) \<and>
     map_of context ''grant'' = Some (PDict g) \<and>
     rs_identity_status (cf_resolver cfg) (PStr (p_actor p)) (PStr (p_principal p)) = Inr ident \<and>
     is_identity ident = p_actor p \<and> is_principal ident = p_principal p \<and>
     is_authenticated ident \<and> is_delegation_valid ident \<and>
     same_institution (is_institution_id ident) (is_authority_domain ident) context = Inr True \<and>
     cfg_fresh P cfg (is_observed_at ident) now (cf_identity_max_age cfg) = Inr True \<and>
     map_of g ''issuer'' = Some (PStr issuer) \<and> map_of g ''issuer_role'' = Some (PStr role) \<and>
     rs_issuer_mandate (cf_resolver cfg) (PStr issuer) (PStr role) = Inr mandate \<and>
     ms_mandate_valid mandate \<and>
     same_institution (ms_institution_id mandate) (ms_authority_domain mandate) context = Inr True \<and>
     cfg_fresh P cfg (ms_observed_at mandate) now (cf_mandate_max_age cfg) = Inr True"
  using assms
proof (rule authorized_parts)
  fix ctx g acting princ identity
  assume ctx: "rs_authority_context (cf_resolver cfg) (context_ref p) = Inr (Some ctx)"
      "map_of ctx ''grant'' = Some (PDict g)"
    and who: "map_of ctx ''acting_identity'' = Some acting" "map_of ctx ''principal'' = Some princ"
      "rs_identity_status (cf_resolver cfg) acting princ = Inr identity"
    and c: "context_reasons ctx p = Inr []"
    and i: "identity_reasons P cfg ctx identity now = Inr []"
    and m: "mandate_reasons P cfg ctx (PDict g) now = Inr []"
  from c who have "acting = PStr (p_actor p)" "princ = PStr (p_principal p)"
    by (auto simp: context_reasons_def res_iff dget_or_def)
  with who i have "rs_identity_status (cf_resolver cfg) (PStr (p_actor p)) (PStr (p_principal p)) = Inr identity \<and>
     is_identity identity = p_actor p \<and> is_principal identity = p_principal p \<and>
     is_authenticated identity \<and> is_delegation_valid identity \<and>
     same_institution (is_institution_id identity) (is_authority_domain identity) ctx = Inr True \<and>
     cfg_fresh P cfg (is_observed_at identity) now (cf_identity_max_age cfg) = Inr True"
    by (auto simp: identity_reasons_def res_iff ditem_Inr_iff simp del: fresh_True_iff)
  moreover from m have "\<exists>issuer role mandate.
     map_of g ''issuer'' = Some (PStr issuer) \<and> map_of g ''issuer_role'' = Some (PStr role) \<and>
     rs_issuer_mandate (cf_resolver cfg) (PStr issuer) (PStr role) = Inr mandate \<and>
     ms_mandate_valid mandate \<and>
     same_institution (ms_institution_id mandate) (ms_authority_domain mandate) ctx = Inr True \<and>
     cfg_fresh P cfg (ms_observed_at mandate) now (cf_mandate_max_age cfg) = Inr True"
    by (auto simp: mandate_reasons_def res_iff ditem_Inr_iff simp del: fresh_True_iff)
  ultimately show ?thesis using ctx by blast
qed

lemma authorized_needs_valid_people_witness:
  "\<exists>ident. rs_identity_status (cf_resolver (demo_config GrantActive)) (PStr (p_actor demo_proposal))
     (PStr (p_principal demo_proposal)) = Inr ident \<and> is_authenticated ident"
  using authorized_needs_valid_people
    [OF demo_resolves [of GrantActive, unfolded if_True simp_thms(6)]] by blast


text \<open>
  C8. Every required approval is present and bound to this operation. For each approval the
  requirement lists there is an approval named by the grant, for that role, active, freshly
  observed, of the context's institution (and the proposal's tenant), whose grant id and
  revision, proposal commitment and policy versions are those of the binding, and given by
  someone other than the actor where independence is required.
\<close>

theorem authorized_needs_bound_approvals:
  assumes "resolve P cfg p now = Inr (rs, Some b)"
  shows "\<exists>context g requirement reqs refs.
     rs_authority_context (cf_resolver cfg) (context_ref p) = Inr (Some context) \<and>
     map_of context ''grant'' = Some (PDict g) \<and>
     map_of context ''requirement'' = Some requirement \<and>
     bindE (vget_or requirement ''approvals'' (PList [])) py_iter = Inr reqs \<and>
     (reqs \<noteq> [] \<longrightarrow> py_iter (dget_or g ''approval_refs'' (PList [])) = Inr refs) \<and>
     (\<forall>req\<in>set reqs. \<exists>a. PStr (as_approval_ref a) \<in> set refs \<and>
        rs_approval_status (cf_resolver cfg) (PStr (as_approval_ref a)) = Inr (Some a) \<and>
        vitem req ''role_id'' = Inr (PStr (as_role_id a)) \<and> as_status a = ApprovalActive \<and>
        same_institution (as_institution_id a) (as_authority_domain a) context = Inr True \<and>
        (p_tenant_id p \<noteq> None \<longrightarrow> as_tenant_id a = p_tenant_id p) \<and>
        cfg_fresh P cfg (as_observed_at a) now (cf_approval_max_age cfg) = Inr True \<and>
        as_grant_id a = b_grant_id b \<and> as_grant_revision a = b_grant_revision b \<and>
        as_proposal_commitment a = b_proposal_commitment b \<and>
        policies_eq (as_policy_versions a) (b_policy_versions b) \<and>
        (\<forall>v. vget req ''independent_of_actor'' = Inr v \<longrightarrow> truthy v \<longrightarrow> as_approver a \<noteq> b_actor b))"
  using assms
proof (rule authorized_parts)
  fix ctx g requirement mapping n
  assume ctx: "rs_authority_context (cf_resolver cfg) (context_ref p) = Inr (Some ctx)"
      "map_of ctx ''grant'' = Some (PDict g)" "map_of ctx ''requirement'' = Some requirement"
    and ids: "map_of g ''grant_id'' = Some (PStr (b_grant_id b))"
      "map_of g ''revision'' = Some (PStr (b_grant_revision b))"
    and ap: "approval_reasons P cfg ctx requirement (PDict g) p now (PList (map PDict (b_policy_versions b))) = Inr []"
    and b: "make_binding P ctx (PDict g) p mapping n = Inr b"
  let ?pv = "PList (map PDict (b_policy_versions b))"
  from approval_items_ok [OF ap] obtain reqs where
    reqs: "bindE (vget_or requirement ''approvals'' (PList [])) py_iter = Inr reqs"
    and each: "\<And>req. req \<in> set reqs \<Longrightarrow> approval_role_reasons P cfg ctx (PDict g) p now ?pv req = Inr []"
    by blast
  define refs where "refs = (case py_iter (dget_or g ''approval_refs'' (PList [])) of Inl _ \<Rightarrow> [] | Inr r \<Rightarrow> r)"
  have one: "py_iter (dget_or g ''approval_refs'' (PList [])) = Inr refs \<and>
     (\<exists>a. PStr (as_approval_ref a) \<in> set refs \<and>
        rs_approval_status (cf_resolver cfg) (PStr (as_approval_ref a)) = Inr (Some a) \<and>
        vitem req ''role_id'' = Inr (PStr (as_role_id a)) \<and> as_status a = ApprovalActive \<and>
        same_institution (as_institution_id a) (as_authority_domain a) ctx = Inr True \<and>
        (p_tenant_id p \<noteq> None \<longrightarrow> as_tenant_id a = p_tenant_id p) \<and>
        cfg_fresh P cfg (as_observed_at a) now (cf_approval_max_age cfg) = Inr True \<and>
        as_grant_id a = b_grant_id b \<and> as_grant_revision a = b_grant_revision b \<and>
        as_proposal_commitment a = b_proposal_commitment b \<and>
        policies_eq (as_policy_versions a) (b_policy_versions b) \<and>
        (\<forall>v. vget req ''independent_of_actor'' = Inr v \<longrightarrow> truthy v \<longrightarrow> as_approver a \<noteq> b_actor b))"
    if "req \<in> set reqs" for req
    using each [OF that]
  proof (rule approval_role_ok)
    fix refs' a
    assume r: "bindE (vget_or (PDict g) ''approval_refs'' (PList [])) py_iter = Inr refs'"
      and a: "PStr (as_approval_ref a) \<in> set refs'"
        "rs_approval_status (cf_resolver cfg) (PStr (as_approval_ref a)) = Inr (Some a)"
        "same_institution (as_institution_id a) (as_authority_domain a) ctx = Inr True"
        "p_tenant_id p \<noteq> None \<longrightarrow> as_tenant_id a = p_tenant_id p"
        "vitem req ''role_id'' = Inr (PStr (as_role_id a))"
      and chk: "approval_check P cfg (PDict g) p now ?pv req a = Inr []"
    from r have "refs' = refs" "py_iter (dget_or g ''approval_refs'' (PList [])) = Inr refs"
      by (simp_all add: refs_def)
    with a approval_check_ok [OF chk] ids show ?thesis
      by (intro conjI exI [of _ a]) (auto simp: policies_eq_def make_binding_fields [OF b])
  qed
  then have "reqs \<noteq> [] \<longrightarrow> py_iter (dget_or g ''approval_refs'' (PList [])) = Inr refs"
    by (meson hd_in_set)
  with ctx reqs one show ?thesis
    by (intro exI [of _ ctx] exI [of _ g] exI [of _ requirement] exI [of _ reqs] exI [of _ refs] conjI ballI)
       blast+
qed

lemma authorized_needs_bound_approvals_witness:
  "\<exists>context. rs_authority_context (cf_resolver (demo_config GrantActive)) (context_ref demo_proposal) =
     Inr (Some context) \<and> (\<exists>requirement reqs. map_of context ''requirement'' = Some requirement \<and>
     bindE (vget_or requirement ''approvals'' (PList [])) py_iter = Inr reqs)"
  using authorized_needs_bound_approvals
    [OF demo_resolves [of GrantActive, unfolded if_True simp_thms(6)]] by blast


text \<open>
  C12. Authorization needs current policies, evidence and no conflict: every policy version the
  binding records is active at exactly that version and freshly observed; every obligation that
  is required for authorization has evidence in state current, from the declared source, no older
  than the obligation allows; and the requirement's conflict status is clear and fresh.
\<close>

theorem authorized_needs_current_inputs:
  assumes "resolve P cfg p now = Inr (rs, Some b)"
  shows "\<exists>context requirement obligations rid conflict.
     rs_authority_context (cf_resolver cfg) (context_ref p) = Inr (Some context) \<and>
     map_of context ''requirement'' = Some requirement \<and>
     (\<forall>d\<in>set (b_policy_versions b). \<exists>st. map_of d ''ref'' = Some (PStr (ps_ref st)) \<and>
        rs_policy_status (cf_resolver cfg) (PStr (ps_ref st)) = Inr (Some st) \<and>
        ps_status st = PolicyActive \<and> map_of d ''version'' = Some (PStr (ps_version st)) \<and>
        same_institution (ps_institution_id st) (ps_authority_domain st) context = Inr True \<and>
        (p_tenant_id p \<noteq> None \<longrightarrow> ps_tenant_id st = p_tenant_id p) \<and>
        cfg_fresh P cfg (ps_observed_at st) now (cf_status_max_age cfg) = Inr True) \<and>
     bindE (vget_or requirement ''evidence'' (PList [])) py_iter = Inr obligations \<and>
     (\<forall>ob\<in>set obligations. \<forall>v. vitem ob ''required'' = Inr v \<longrightarrow> truthy v \<longrightarrow>
        vitem ob ''kind'' = Inr (PStr ''authorization'') \<longrightarrow>
        (\<exists>st age. vitem ob ''obligation_id'' = Inr (PStr (es_obligation_id st)) \<and>
           rs_evidence_status (cf_resolver cfg) (PStr (es_obligation_id st)) = Inr (Some st) \<and>
           es_state st = EvidenceCurrent \<and> vitem ob ''source_ref'' = Inr (PStr (es_source_ref st)) \<and>
           same_institution (es_institution_id st) (es_authority_domain st) context = Inr True \<and>
           bindE (vitem ob ''max_age_seconds'') (py_int P) = Inr age \<and>
           cfg_fresh P cfg (es_observed_at st) now age = Inr True)) \<and>
     vitem requirement ''requirement_id'' = Inr rid \<and>
     rs_conflict_status (cf_resolver cfg) rid = Inr (Some conflict) \<and> cs_state conflict = ConflictClear \<and>
     cfg_fresh P cfg (cs_observed_at conflict) now (cf_status_max_age cfg) = Inr True"
  using assms
proof (rule authorized_parts)
  fix ctx requirement
  assume ctx: "rs_authority_context (cf_resolver cfg) (context_ref p) = Inr (Some ctx)"
      "map_of ctx ''requirement'' = Some requirement"
    and pol: "policy_reasons P cfg ctx (PList (map PDict (b_policy_versions b))) p now = Inr []"
    and ev: "evidence_reasons P cfg ctx requirement now = Inr []"
    and con: "conflict_reasons P cfg ctx requirement now = Inr []"
  from pol have pol': "policy_item_reasons P cfg ctx p now (PDict d) = Inr []"
    if "d \<in> set (b_policy_versions b)" for d
    using that by (auto simp: policy_reasons_def collectE_Nil_iff)
  from evidence_items_ok [OF ev] obtain obs where
    obs: "bindE (vget_or requirement ''evidence'' (PList [])) py_iter = Inr obs"
    and each: "\<And>ob. ob \<in> set obs \<Longrightarrow> evidence_item_reasons P cfg ctx now ob = Inr []" by blast
  from con obtain rid conflict where con':
    "vitem requirement ''requirement_id'' = Inr rid"
    "rs_conflict_status (cf_resolver cfg) rid = Inr (Some conflict)" "cs_state conflict = ConflictClear"
    "cfg_fresh P cfg (cs_observed_at conflict) now (cf_status_max_age cfg) = Inr True"
    by (auto simp: conflict_reasons_def res_iff simp del: fresh_True_iff split: option.splits)
  show ?thesis
    by (intro exI [of _ ctx] exI [of _ requirement] exI [of _ obs] exI [of _ rid] exI [of _ conflict]
        conjI ballI allI impI ctx con' obs policy_item_ok pol' evidence_item_ok each)
qed

lemma authorized_needs_current_inputs_witness:
  "\<exists>context requirement. rs_authority_context (cf_resolver (demo_config GrantActive)) (context_ref demo_proposal) =
     Inr (Some context) \<and> map_of context ''requirement'' = Some requirement"
  using authorized_needs_current_inputs
    [OF demo_resolves [of GrantActive, unfolded if_True simp_thms(6)]] by blast

text \<open>
  C10. An authorized operation is within every limit: the target, amount, unit and number of
  effects are allowed by a permission of the requirement and by one of the grant, the target is
  listed by the manifest's action (which never allows any target), and the cap handed to the
  destination is at most the cap of either permission.
\<close>

theorem authorized_within_limits:
  assumes "resolve P cfg p now = Inr (rs, Some b)"
  shows "\<exists>context g requirement action tp targets rp gp er eg.
     rs_authority_context (cf_resolver cfg) (context_ref p) = Inr (Some context) \<and>
     map_of context ''grant'' = Some (PDict g) \<and> map_of context ''requirement'' = Some requirement \<and>
     (\<exists>perms. bindE (vget_or requirement ''permissions'' (PList [])) py_iter = Inr perms \<and> rp \<in> set perms) \<and>
     (\<exists>perms. py_iter (dget_or g ''permissions'' (PList [])) = Inr perms \<and> gp \<in> set perms) \<and>
     within_permission P p rp er \<and> within_permission P p gp eg \<and>
     find_action (cf_manifest cfg) (p_action_id p) = Inr (Some (PDict action)) \<and>
     map_of action ''target_policy'' = Some (PDict tp) \<and> \<not> truthy (dget tp ''allow_any_target'') \<and>
     map_of tp ''allowed_targets'' = Some targets \<and> py_in (PStr (p_target p)) targets = Inr True \<and>
     b_target b = p_target p \<and> b_amount b = p_amount p \<and> b_unit b = p_unit p \<and> b_effects b = p_effects p \<and>
     b_effective_max_effects b \<le> er \<and> b_effective_max_effects b \<le> eg"
  using assms
proof (rule authorized_parts)
  fix ctx g action mapping requirement rp gp n
  assume mm: "manifest_mismatches P (cf_manifest cfg) p now = Inr []"
    and ctx: "rs_authority_context (cf_resolver cfg) (context_ref p) = Inr (Some ctx)"
      "map_of ctx ''grant'' = Some (PDict g)" "map_of ctx ''requirement'' = Some requirement"
    and rp: "matching_permission P (cf_manifest cfg) requirement p = Inr (Some rp)"
    and gp: "matching_permission P (cf_manifest cfg) (PDict g) p = Inr (Some gp)"
    and n: "effective_max_effects P p action (Some rp) (Some gp) = Inr n"
    and b: "make_binding P ctx (PDict g) p mapping n = Inr b"
  from mm obtain a where a: "find_action (cf_manifest cfg) (p_action_id p) = Inr (Some a)"
    and rs: "action_reasons P (cf_manifest cfg) a p now = Inr []" by (rule manifest_ok)
  from find_action_Some [OF a] obtain ad where ad: "a = PDict ad" by blast
  with rs have "target_reasons (PDict ad) p = Inr []" by (simp add: action_ok)
  from target_ok [OF this] obtain tp v where tp: "map_of ad ''target_policy'' = Some (PDict tp)"
    "\<not> truthy (dget tp ''allow_any_target'')" "map_of tp ''allowed_targets'' = Some v"
    "py_in (PStr (p_target p)) v = Inr True" by blast
  from n obtain er eg where e: "permission_max_effects P (Some rp) = Inr er"
    "permission_max_effects P (Some gp) = Inr eg" "n \<le> er" "n \<le> eg" by (rule effective_max_ok)
  from matching_within [OF rp e(1)] matching_within [OF gp e(2)] tp ctx a ad e(3,4) show ?thesis
    unfolding vget_PDict bindE_simps make_binding_fields [OF b] by blast
qed

lemma authorized_within_limits_witness:
  "\<exists>rp er. within_permission demo_prims demo_proposal rp er \<and> b_effective_max_effects demo_binding \<le> er"
  using authorized_within_limits
    [OF demo_resolves [of GrantActive, unfolded if_True simp_thms(6)]] by blast

text \<open>
  A resolution either authorizes without reasons or holds with reasons: there is a binding
  exactly when the list of reasons is empty, and the list is sorted and free of duplicates.
\<close>

theorem resolution_binds_or_explains:
  assumes "resolve P cfg p now = Inr (rs, bo)"
  shows "(rs = [] \<longleftrightarrow> bo \<noteq> None) \<and> sorted rs \<and> distinct rs"
  using assms by (rule resolve_shape)

lemma resolution_binds_or_explains_witness:
  "([''grant_not_active''] = [] \<longleftrightarrow> (None :: binding option) \<noteq> None) \<and> sorted [''grant_not_active''] \<and>
   distinct [''grant_not_active'']"
  using resolution_binds_or_explains [of demo_prims "demo_config GrantRevoked" demo_proposal demo_now]
  by (simp add: demo_resolves)

end
