(* ===== verification/Workflow.thy ===== *)
theory Workflow
  imports Reconcile Authority
begin

text \<open>
  \<open>BoundedAuthorizationWorkflow\<close> of \<open>bounded.py\<close>: \<open>decide\<close>, \<open>execute\<close> and what they share
  (\<open>_effect_id\<close>, \<open>_effect_time_changed_inputs\<close>). \<open>execute\<close> is cut at its early exits: the
  persisted decision is checked, the authorization is resolved again, the destination is
  observed, and only then is the effect dispatched.
\<close>

section \<open>Effect identity and decisions\<close>

definition identity_doc :: "string \<Rightarrow> pyval \<Rightarrow> pyval \<Rightarrow> pyval" where
  "identity_doc commitment_text grant_id grant_revision = PDict
     [(''proposal'', PStr commitment_text), (''grant_id'', grant_id), (''grant_revision'', grant_revision)]"

definition effect_id :: "prims \<Rightarrow> binding \<Rightarrow> string" where
  "effect_id P b = commitment P
     (identity_doc (b_proposal_commitment b) (PStr (b_grant_id b)) (PStr (b_grant_revision b)))"

definition decide ::
  "prims \<Rightarrow> config \<Rightarrow> proposal \<Rightarrow> pydatetime option \<Rightarrow> ('d, decision) act" where
  "decide P cfg p now =
     bindA (given_or_now P now) (\<lambda>t.
     bindA (liftA (resolve P cfg p t)) (\<lambda>(reasons, bo).
     bindA (uuidA P) (\<lambda>i.
       let d = \<lparr>d_decision_id = i,
                d_effect_id = (case bo of
                   Some b \<Rightarrow> effect_id P b
                 | None \<Rightarrow> commitment P (identity_doc (proposal_commitment P p) PNone PNone)),
                d_result = (if reasons = [] then Authorized else Hold),
                d_reasons = reasons, d_decided_at = iso P t,
                d_binding = (if reasons = [] then bo else None)\<rparr>
       in bindA (recordA (EDecision d)) (\<lambda>_. returnA d))))"

section \<open>What changed since the decision\<close>

definition input :: "input_type \<Rightarrow> string \<Rightarrow> string \<Rightarrow> string \<Rightarrow> refusal_input" where
  "input k i expected observed =
     \<lparr>ri_input_type = k, ri_input_id = i, ri_expected_version = expected, ri_observed_version = observed\<rparr>"

definition changed_grant :: "config \<Rightarrow> binding \<Rightarrow> refusal_input list res" where
  "changed_grant cfg b =
     bindE (rs_grant_status (cf_resolver cfg) (PStr (b_grant_id b))) (\<lambda>status.
       let expected = ''revision='' @ b_grant_revision b @ '';status=active'';
           observed = (case status of None \<Rightarrow> ''missing''
             | Some st \<Rightarrow> ''revision='' @ gs_revision st @ '';status='' @ grant_state_str (gs_status st) @
                 '';version='' @ gs_version st)
       in Inr (if observed \<noteq> expected \<and>
            \<not> (case status of None \<Rightarrow> False | Some st \<Rightarrow>
                 gs_revision st = b_grant_revision b \<and> gs_status st = GrantActive)
          then [input InGrant (b_grant_id b) expected observed] else []))"

definition changed_policy :: "prims \<Rightarrow> config \<Rightarrow> pydict \<Rightarrow> refusal_input list res" where
  "changed_policy P cfg pv =
     (let ref = py_str P (dget_or pv ''ref'' (PStr ''''));
          version = dget pv ''version''
      in bindE (rs_policy_status (cf_resolver cfg) (PStr ref)) (\<lambda>current.
           Inr (case current of
              None \<Rightarrow> [input InPolicy ref (''version='' @ py_str P version @ '';status=active'') ''missing'']
            | Some st \<Rightarrow>
                if version \<noteq> PStr (ps_version st) \<or> ps_status st \<noteq> PolicyActive
                then [input InPolicy ref (''version='' @ py_str P version @ '';status=active'')
                        (''version='' @ ps_version st @ '';status='' @ policy_state_str (ps_status st))]
                else [])))"

definition policies_commitment :: "prims \<Rightarrow> pydict list \<Rightarrow> string" where
  "policies_commitment P ds = commitment P (PList (map PDict ds))"

definition changed_approval :: "prims \<Rightarrow> config \<Rightarrow> binding \<Rightarrow> pyval \<Rightarrow> refusal_input list res" where
  "changed_approval P cfg b ref =
     bindE (rs_approval_status (cf_resolver cfg) ref) (\<lambda>current.
       let expected = ''grant_revision='' @ b_grant_revision b @ '';status=active;'' @
             ''proposal='' @ b_proposal_commitment b @ '';policies='' @ policies_commitment P (b_policy_versions b)
       in Inr (case current of
            None \<Rightarrow> [input InApproval (py_str P ref) expected ''missing'']
          | Some a \<Rightarrow>
              if as_grant_id a \<noteq> b_grant_id b \<or> as_grant_revision a \<noteq> b_grant_revision b \<or>
                 as_status a \<noteq> ApprovalActive \<or> as_proposal_commitment a \<noteq> b_proposal_commitment b \<or>
                 policies_commitment P (as_policy_versions a) \<noteq> policies_commitment P (b_policy_versions b)
              then [input InApproval (py_str P ref) expected
                      (''grant_revision='' @ as_grant_revision a @ '';status='' @ approval_state_str (as_status a) @
                       '';'' @ ''proposal='' @ as_proposal_commitment a @ '';'' @
                       ''policies='' @ policies_commitment P (as_policy_versions a))]
              else []))"

definition changed_evidence :: "prims \<Rightarrow> config \<Rightarrow> pyval \<Rightarrow> refusal_input list res" where
  "changed_evidence P cfg obligation =
     bindE (vget_or obligation ''obligation_id'' (PStr '''')) (\<lambda>oid.
     bindE (rs_evidence_status (cf_resolver cfg) (PStr (py_str P oid))) (\<lambda>current.
     bindE (vget obligation ''required'') (\<lambda>required.
     bindE (vget obligation ''kind'') (\<lambda>kind.
       Inr (if truthy required \<and> kind = PStr ''authorization'' then
              (case current of
                 None \<Rightarrow> [input InEvidence (py_str P oid) ''state=current'' ''missing'']
               | Some st \<Rightarrow>
                   if es_state st \<noteq> EvidenceCurrent
                   then [input InEvidence (py_str P oid) ''state=current''
                           (''state='' @ evidence_state_str (es_state st) @ '';observed_at='' @ es_observed_at st)]
                   else [])
            else [])))))"

definition changed_mapping :: "prims \<Rightarrow> config \<Rightarrow> pydict \<Rightarrow> binding \<Rightarrow> refusal_input list res" where
  "changed_mapping P cfg context b =
     bindE (vget_or (py_or (dget context ''institution'') (PDict [])) ''institution_id'' (PStr '''')) (\<lambda>iid.
     bindE (rs_role_mapping (cf_resolver cfg) (PStr (py_str P iid))) (\<lambda>mapping.
       let expected = ''version='' @ b_role_mapping_version b @ '';digest='' @ b_role_mapping_digest b
       in Inr (case mapping of
            None \<Rightarrow> [input InRoleMapping (py_str P iid) expected ''missing'']
          | Some m \<Rightarrow>
              if rm_version m \<noteq> b_role_mapping_version b \<or> rm_digest m \<noteq> b_role_mapping_digest b
              then [input InRoleMapping (py_str P iid) expected
                      (''version='' @ rm_version m @ '';digest='' @ rm_digest m)]
              else [])))"

definition changed_inputs :: "prims \<Rightarrow> config \<Rightarrow> proposal \<Rightarrow> binding \<Rightarrow> refusal_input list res" where
  "changed_inputs P cfg p b =
     bindE (rs_authority_context (cf_resolver cfg) (context_ref p)) (\<lambda>found.
       let context = (case found of None \<Rightarrow> [] | Some c \<Rightarrow> c);
           grant = py_or (dget context ''grant'') (PDict []);
           requirement = py_or (dget context ''requirement'') (PDict [])
       in appendE (changed_grant cfg b)
         (appendE (collectE (changed_policy P cfg) (b_policy_versions b))
         (appendE (bindE (bindE (vget_or grant ''approval_refs'' (PList [])) py_iter)
                     (collectE (changed_approval P cfg b)))
         (appendE (bindE (bindE (vget_or requirement ''evidence'' (PList [])) py_iter)
                     (collectE (changed_evidence P cfg)))
                  (changed_mapping P cfg context b)))))"

section \<open>Execution\<close>

definition check_persisted :: "prims \<Rightarrow> decision \<Rightarrow> decision option \<Rightarrow> (decision \<times> binding) res" where
  "check_persisted P d persisted = (case persisted of
      None \<Rightarrow> throw_msg PermissionError ''decision is not the immutable persisted decision''
    | Some s \<Rightarrow>
        if \<not> decision_eq s d then throw_msg PermissionError ''decision is not the immutable persisted decision''
        else (case d_binding s of
            None \<Rightarrow> throw_msg PermissionError ''decision is not authorized''
          | Some b \<Rightarrow>
              if d_result s \<noteq> Authorized then throw_msg PermissionError ''decision is not authorized''
              else if d_effect_id s \<noteq> effect_id P b
                then throw_msg PermissionError ''decision effect identity is invalid''
              else Inr (s, b)))"

text \<open>Resolving again at effect time: the current binding, or a recorded refusal and a raise.\<close>

definition refuse ::
  "prims \<Rightarrow> config \<Rightarrow> proposal \<Rightarrow> decision \<Rightarrow> binding \<Rightarrow> pydatetime \<Rightarrow> string list \<Rightarrow> ('d, 'a) act" where
  "refuse P cfg p s b t reasons =
     bindA (uuidA P) (\<lambda>i.
     bindA (liftA (changed_inputs P cfg p b)) (\<lambda>changed.
     bindA (recordA (ERefusal \<lparr>r_refusal_id = i, r_decision_id = d_decision_id s, r_effect_id = d_effect_id s,
              r_recorded_at = iso P t, r_reasons = reasons, r_changed_inputs = changed\<rparr>)) (\<lambda>_.
       raiseA PermissionError ''authorization-critical inputs changed before effect'')))"

definition revalidate ::
  "prims \<Rightarrow> config \<Rightarrow> proposal \<Rightarrow> decision \<Rightarrow> binding \<Rightarrow> pydatetime \<Rightarrow> ('d, binding) act" where
  "revalidate P cfg p s b t =
     bindA (liftA (resolve P cfg p t)) (\<lambda>(reasons, current).
       let same = option_eq binding_eq current (Some b);
           refusal_reasons = sorted_set reasons
       in if reasons \<noteq> [] \<or> current = None \<or> \<not> same
          then refuse P cfg p s b t
                 (if refusal_reasons = [] \<and> \<not> same then [''authorization_binding_changed''] else refusal_reasons)
          else returnA (the current))"

definition new_attempt :: "prims \<Rightarrow> string \<Rightarrow> decision \<Rightarrow> pydatetime \<Rightarrow> attempt_status \<Rightarrow> pydict \<Rightarrow> attempt" where
  "new_attempt P i s t status ack =
     \<lparr>a_attempt_id = i, a_effect_id = d_effect_id s, a_decision_id = d_decision_id s,
      a_started_at = iso P t, a_status = status, a_acknowledgement = ack, a_error = None\<rparr>"

text \<open>The effect is already there: one attempt is recorded and nothing is dispatched.\<close>

definition already_there ::
  "prims \<Rightarrow> decision \<Rightarrow> pydatetime \<Rightarrow> attempt_status \<Rightarrow> observation option \<Rightarrow>
     ('d, attempt \<times> observation option) act" where
  "already_there P s t status existing =
     bindA (uuidA P) (\<lambda>i.
       let a = new_attempt P i s t status [(''reconciled_existing'', PBool True)]
       in bindA (recordA (EAttempt a)) (\<lambda>_. returnA (a, existing)))"

definition request_of :: "proposal \<Rightarrow> decision \<Rightarrow> binding \<Rightarrow> bool \<Rightarrow> bool \<Rightarrow> apply_request" where
  "request_of p s c lose_ack part =
     \<lparr>rq_effect_id = d_effect_id s, rq_grant_id = b_grant_id c,
      rq_max_effects = b_effective_max_effects c, rq_target = p_target p, rq_amount = p_amount p,
      rq_unit = p_unit p, rq_payload = p_payload p, rq_lose_ack = lose_ack, rq_partial = part\<rparr>"

text \<open>The attempt after the destination answered: acknowledged, unknown or failed.\<close>

definition settle :: "attempt \<Rightarrow> bool \<Rightarrow> pydict res \<Rightarrow> attempt" where
  "settle a part outcome = (case outcome of
      Inr ack \<Rightarrow> a\<lparr>a_status := (if part then AttemptPartial else Acknowledged), a_acknowledgement := ack\<rparr>
    | Inl e \<Rightarrow> a\<lparr>a_status := (if exn_kind e = TimeoutError then AttemptUnknown else AttemptFailed),
                a_error := Some (exn_message e)\<rparr>)"

definition dispatch ::
  "prims \<Rightarrow> config \<Rightarrow> 'd destination \<Rightarrow> proposal \<Rightarrow> decision \<Rightarrow> binding \<Rightarrow> pydatetime \<Rightarrow> bool \<Rightarrow> bool \<Rightarrow>
     ('d, attempt \<times> observation option) act" where
  "dispatch P cfg D p s c t lose_ack part =
     bindA (uuidA P) (\<lambda>i.
       let a = new_attempt P i s t Attempted []
       in bindA (recordA (EAttempt a)) (\<lambda>_.
          bindA (submitA D (request_of p s c lose_ack part)) (\<lambda>outcome.
          bindA (recordA (EAttempt (settle a part outcome))) (\<lambda>_.
          bindA (observe_and_reconcile P cfg D (d_effect_id s) (Some t)) (\<lambda>post.
            returnA (settle a part outcome,
              if rec_observation_accepted post then rec_observation post else None))))))"

text \<open>After the second resolution: look before dispatching.\<close>

definition perform ::
  "prims \<Rightarrow> config \<Rightarrow> 'd destination \<Rightarrow> proposal \<Rightarrow> decision \<Rightarrow> binding \<Rightarrow> pydatetime \<Rightarrow> bool \<Rightarrow> bool \<Rightarrow>
     ('d, attempt \<times> observation option) act" where
  "perform P cfg D p s c t lose_ack part =
     bindA loadA (\<lambda>r.
     let prior = filter (\<lambda>a. a_effect_id a = d_effect_id s) (rr_attempts r)
     in bindA (observe_and_reconcile P cfg D (d_effect_id s) (Some t)) (\<lambda>rec.
        if rec_result rec = RecApplied then already_there P s t Acknowledged (rec_observation rec)
        else if (case rec_observation rec of None \<Rightarrow> False | Some obs \<Rightarrow> o_state obs = ObsPartial)
                \<and> rec_observation_accepted rec
          then already_there P s t AttemptPartial (rec_observation rec)
        else if rec_result rec \<noteq> RecObservedAbsent
          then raiseA PermissionError ''destination observation is not valid for effect dispatch''
        else if prior \<noteq> []
          then raiseA PermissionError
            ''observed absence does not establish retry eligibility after a prior attempt''
        else dispatch P cfg D p s c t lose_ack part))"

definition execute ::
  "prims \<Rightarrow> config \<Rightarrow> 'd destination \<Rightarrow> proposal \<Rightarrow> decision \<Rightarrow> string \<Rightarrow> pydatetime option \<Rightarrow> bool \<Rightarrow> bool \<Rightarrow>
     ('d, attempt \<times> observation option) act" where
  "execute P cfg D p d adapter_id now lose_ack part =
     bindA (given_or_now P now) (\<lambda>t.
     bindA (\<lambda>w. (store_decision (d_decision_id d) (w_store w), w)) (\<lambda>found.
     bindA (liftA (check_persisted P d found)) (\<lambda>(s, b).
     bindA (revalidate P cfg p s b t) (\<lambda>c.
       if adapter_id \<noteq> b_adapter_id c then raiseA PermissionError ''adapter substitution detected''
       else perform P cfg D p s c t lose_ack part))))"

section \<open>Frame lemmas\<close>

lemma keeps_decide [keeps]: "keeps_dest (decide P cfg p now)"
  by (auto simp: decide_def Let_def intro!: keeps_bindA keeps split: prod.splits)

lemma extends_decide [extending]: "extends_store (decide P cfg p now)"
  by (auto simp: decide_def Let_def intro!: extends_bindA extending split: prod.splits)

lemma keeps_refuse [keeps]: "keeps_dest (refuse P cfg p s b t rs)"
  by (auto simp: refuse_def intro!: keeps_bindA keeps)

lemma extends_refuse [extending]: "extends_store (refuse P cfg p s b t rs)"
  by (auto simp: refuse_def intro!: extends_bindA extending)

lemma keeps_revalidate [keeps]: "keeps_dest (revalidate P cfg p s b t)"
  by (auto simp: revalidate_def Let_def intro!: keeps_bindA keeps split: prod.splits)

lemma extends_revalidate [extending]: "extends_store (revalidate P cfg p s b t)"
  by (auto simp: revalidate_def Let_def intro!: extends_bindA extending split: prod.splits)

lemma keeps_already_there [keeps]: "keeps_dest (already_there P s t st ex)"
  by (auto simp: already_there_def Let_def intro!: keeps_bindA keeps)

lemma extends_already_there [extending]: "extends_store (already_there P s t st ex)"
  by (auto simp: already_there_def Let_def intro!: extends_bindA extending)

lemma extends_dispatch [extending]: "extends_store (dispatch P cfg D p s c t l q)"
  by (auto simp: dispatch_def Let_def intro!: extends_bindA extending)

lemma extends_perform [extending]: "extends_store (perform P cfg D p s c t l q)"
  by (auto simp: perform_def Let_def intro!: extends_bindA extending)

lemma extends_lookup [extending]: "extends_store (\<lambda>w. (store_decision i (w_store w), w))"
  by (simp add: extends_store_def store.extends_refl)

lemma keeps_lookup [keeps]: "keeps_dest (\<lambda>w. (store_decision i (w_store w), w))"
  by (simp add: keeps_dest_def)

lemma extends_execute [extending]: "extends_store (execute P cfg D p d ad now l q)"
  by (auto simp: execute_def intro!: extends_bindA extending split: prod.splits)

section \<open>How the destination can change\<close>

lemma recordA_cases:
  assumes "recordA e w = (r, w')"
  obtains (failed) x where "r = Inl x" "w' = w"
  | (stored) rr where "r = Inr ()" "w_store w = Document rr" "w' = w\<lparr>w_store := Document (add_entry e rr)\<rparr>"
proof (cases "store_append e (w_store w)")
  case (Inl x)
  with assms show ?thesis by (intro failed [of x]) (simp_all add: recordA_def)
next
  case (Inr f)
  then obtain rr where "w_store w = Document rr" "f = Document (add_entry e rr)"
    by (auto simp: store_append_Inr_iff)
  with assms Inr show ?thesis by (intro stored [of rr]) (simp_all add: recordA_def)
qed

text \<open>
  A dispatch that changes the destination has recorded its attempt first, and the destination's
  new state is the answer to exactly one request.
\<close>

lemma dispatch_run:
  assumes "dispatch P cfg D p s c t lose part w = (r, w')" "w_dest w' \<noteq> w_dest w"
  shows "\<exists>rr i. w_store w = Document rr \<and>
     w_dest w' = snd (dst_submit D (request_of p s c lose part) (w_dest w)) \<and>
     store.extends (Document (add_entry (EAttempt (new_attempt P i s t Attempted [])) rr)) (w_store w')"
proof -
  define a where "a = new_attempt P (uuid4 P (w_uuids w)) s t Attempted []"
  let ?q = "request_of p s c lose part"
  define rest where "rest = (\<lambda>outcome.
     bindA (recordA (EAttempt (settle a part outcome))) (\<lambda>_.
     bindA (observe_and_reconcile P cfg D (d_effect_id s) (Some t)) (\<lambda>post.
       returnA (settle a part outcome, if rec_observation_accepted post then rec_observation post else None))))"
  have rest: "keeps_dest (rest x)" "extends_store (rest x)" for x
    by (auto simp: rest_def intro!: keeps_bindA keeps extends_bindA extending)
  let ?v = "w\<lparr>w_uuids := Suc (w_uuids w)\<rparr>"
  have "bindA (recordA (EAttempt a)) (\<lambda>_. bindA (submitA D ?q) rest) ?v = (r, w')"
    using assms(1) by (simp add: dispatch_def uuidA_def bindA_def [of "uuidA P"] a_def rest_def Let_def)
  then show ?thesis
  proof (cases rule: bindA_cases)
    case (raised e)
    then have "w' = ?v" by (cases rule: recordA_cases [OF raised(1)]) auto
    with assms(2) show ?thesis by simp
  next
    case (went_on x v)
    from went_on(1) obtain rr where rr: "w_store ?v = Document rr"
      and v: "v = ?v\<lparr>w_store := Document (add_entry (EAttempt a) rr)\<rparr>"
      by (cases rule: recordA_cases [OF went_on(1)]) auto
    obtain ack d where sub: "dst_submit D ?q (w_dest v) = (ack, d)" by fastforce
    with went_on(2) have run: "rest ack (v\<lparr>w_dest := d\<rparr>) = (r, w')"
      by (simp add: bindA_def submitA_def)
    from keeps_destD [OF rest(1) run] sub v have "w_dest w' = snd (dst_submit D ?q (w_dest w))" by simp
    moreover from extends_storeD [OF rest(2) run] v
    have "store.extends (Document (add_entry (EAttempt a) rr)) (w_store w')" by simp
    ultimately show ?thesis using rr by (auto simp: a_def)
  qed
qed

lemma perform_run:
  assumes "perform P cfg D p s c t lose part w = (r, w')" "w_dest w' \<noteq> w_dest w"
  obtains rr v rec w1 where "w_store w = Document rr"
    "\<forall>a\<in>set (rr_attempts rr). a_effect_id a \<noteq> d_effect_id s"
    "observe_and_reconcile P cfg D (d_effect_id s) (Some t) w = (Inr rec, w1)"
    "rec_result rec = RecObservedAbsent" "dispatch P cfg D p s c t lose part w1 = (r, w')"
    "w_dest w1 = w_dest w" "store.extends (w_store w) (w_store w1)"
proof -
  from assms(1) have "w_store w = CorruptFile \<or> w_store w = NoFile \<Longrightarrow> w' = w"
    by (auto simp: perform_def bindA_def loadA_def store_load_def throw_def)
  with assms(2) obtain rr where rr: "w_store w = Document rr" by (cases "w_store w") auto
  let ?obs = "observe_and_reconcile P cfg D (d_effect_id s) (Some t)"
  define next' where "next' = (\<lambda>rec :: reconciliation.
        if rec_result rec = RecApplied then already_there P s t Acknowledged (rec_observation rec)
        else if (case rec_observation rec of None \<Rightarrow> False | Some obs \<Rightarrow> o_state obs = ObsPartial)
                \<and> rec_observation_accepted rec
          then already_there P s t AttemptPartial (rec_observation rec)
        else if rec_result rec \<noteq> RecObservedAbsent
          then raiseA PermissionError ''destination observation is not valid for effect dispatch''
        else if filter (\<lambda>a. a_effect_id a = d_effect_id s) (rr_attempts rr) \<noteq> []
          then raiseA PermissionError
            ''observed absence does not establish retry eligibility after a prior attempt''
        else dispatch P cfg D p s c t lose part)"
  have "bindA ?obs next' w = (r, w')"
    using assms(1) rr by (simp add: perform_def bindA_def [of loadA] loadA_def store_load_def next'_def)
  then show thesis
  proof (cases rule: bindA_cases)
    case (raised e)
    from keeps_destD [OF keeps_observe_and_reconcile raised(1)] assms(2) show thesis by simp
  next
    case (went_on rec w1)
    note k = keeps_destD [OF keeps_observe_and_reconcile went_on(1)]
      and ext = extends_storeD [OF extends_observe_and_reconcile went_on(1)]
    have "\<not> keeps_dest (next' rec)"
      using keeps_destD [of "next' rec" w1 r w'] went_on(2) k assms(2) by auto
    then have "next' rec = dispatch P cfg D p s c t lose part \<and> rec_result rec = RecObservedAbsent \<and>
       filter (\<lambda>a. a_effect_id a = d_effect_id s) (rr_attempts rr) = []"
      by (auto simp: next'_def keeps split: if_split_asm)
    with went_on k ext rr show thesis
      by (intro that [of rr rec w1]) (auto simp: filter_empty_conv)
  qed
qed


lemma check_persisted_ok:
  assumes "check_persisted P d found = Inr (s, b)"
  shows "found = Some s" "decision_eq s d" "d_binding s = Some b" "d_result s = Authorized"
    "d_effect_id s = effect_id P b"
  using assms by (auto simp: check_persisted_def split: option.splits if_splits)

lemma revalidate_ok:
  assumes "revalidate P cfg p s b t w = (Inr c, w')"
  shows "w' = w \<and> resolve P cfg p t = Inr ([], Some c) \<and> binding_eq c b"
proof -
  from assms obtain reasons current where res: "resolve P cfg p t = Inr (reasons, current)"
    and go: "(let same = option_eq binding_eq current (Some b); refusal_reasons = sorted_set reasons
       in if reasons \<noteq> [] \<or> current = None \<or> \<not> same
          then refuse P cfg p s b t
                 (if refusal_reasons = [] \<and> \<not> same then [''authorization_binding_changed''] else refusal_reasons)
          else returnA (the current)) w = (Inr c, w')"
    by (auto simp: revalidate_def act_iff)
  have refuse: "refuse P cfg p s b t rs w \<noteq> (Inr c, w')" for rs
    by (auto simp: refuse_def act_iff)
  with go res show ?thesis
    by (auto simp: option_eq_Some Let_def act_iff split: if_splits)
qed

lemma given_or_now_run:
  assumes "given_or_now P now w = (r, w')"
  shows "\<exists>t. r = Inr t \<and> w_store w' = w_store w \<and> w_dest w' = w_dest w \<and> (\<forall>u. now = Some u \<longrightarrow> t = u)"
  using assms by (cases now) (auto simp: given_or_now_def act_iff)

lemma execute_run:
  assumes "execute P cfg D p d ad now lose part w = (r, w')" "w_dest w' \<noteq> w_dest w"
  obtains t s b c w0 rr where "store_decision (d_decision_id d) (w_store w) = Inr (Some s)"
    "decision_eq s d" "d_binding s = Some b" "d_result s = Authorized" "d_effect_id s = effect_id P b"
    "\<forall>u. now = Some u \<longrightarrow> t = u" "resolve P cfg p t = Inr ([], Some c)" "binding_eq c b"
    "ad = b_adapter_id c" "w_store w0 = w_store w" "w_dest w0 = w_dest w"
    "perform P cfg D p s c t lose part w0 = (r, w')"
  using assms(1) unfolding execute_def
proof (cases rule: bindA_cases)
  case (raised e)
  from given_or_now_run [OF raised(1)] show ?thesis by simp
next
  case (went_on t w0)
  from given_or_now_run [OF went_on(1)] have w0: "w_store w0 = w_store w" "w_dest w0 = w_dest w"
    and t: "\<forall>u. now = Some u \<longrightarrow> t = u" by auto
  from went_on(2) show ?thesis
  proof (cases rule: bindA_cases)
    case (raised e)
    then show ?thesis using assms(2) w0 by simp
  next
    case (went_on found w1)
    then have w1: "w1 = w0" and found: "store_decision (d_decision_id d) (w_store w) = Inr found"
      using w0 by auto
    from went_on(2) show ?thesis
    proof (cases rule: bindA_cases)
      case (raised e)
      then show ?thesis using assms(2) w0 w1 by (simp add: act_iff)
    next
      case (went_on sb w2)
      obtain s b where sb: "sb = (s, b)" by (cases sb)
      with went_on(1) w1 have chk: "check_persisted P d found = Inr (s, b)" and w2: "w2 = w0"
        by (auto simp: act_iff)
      note ok = check_persisted_ok [OF chk]
      from went_on(2) sb have "bindA (revalidate P cfg p s b t) (\<lambda>c.
          if ad \<noteq> b_adapter_id c then raiseA PermissionError ''adapter substitution detected''
          else perform P cfg D p s c t lose part) w0 = (r, w')"
        using w2 by simp
      then show ?thesis
      proof (cases rule: bindA_cases)
        case (raised e)
        from keeps_destD [OF keeps_revalidate raised(1)] show ?thesis using assms(2) w0 by simp
      next
        case (went_on c w3)
        from revalidate_ok [OF went_on(1)] have c: "w3 = w0" "resolve P cfg p t = Inr ([], Some c)"
          "binding_eq c b" by auto
        with went_on(2) w0 assms(2) have "ad = b_adapter_id c"
          "perform P cfg D p s c t lose part w0 = (r, w')"
          by (auto simp: act_iff split: if_splits)
        with ok c w0 t found show ?thesis by (intro that [of s b t c w0]) auto
      qed
    qed
  qed
qed

text \<open>The binding of an authorized resolution is about the proposal itself.\<close>

lemma resolved_request:
  assumes "resolve P cfg p t = Inr ([], Some c)"
  shows "commitment P (PDict (p_payload p)) = b_payload_commitment c \<and> p_target p = b_target c \<and>
     p_amount p = b_amount c \<and> p_unit p = b_unit c"
  using assms
proof (rule authorized_parts)
  fix ctx g mapping n
  assume "manifest_mismatches P (cf_manifest cfg) p t = Inr []"
    and b: "make_binding P ctx (PDict g) p mapping n = Inr c"
  then show ?thesis
    by (elim manifest_ok) (auto simp: version_ok make_binding_fields [OF b])
qed

text \<open>All of it at once: what a change of the destination by \<open>execute\<close> rests on.\<close>

lemma execute_dispatch_facts:
  assumes "execute P cfg D p d ad now lose part w = (r, w')" "w_dest w' \<noteq> w_dest w"
  obtains rr rr1 s b c t q a where "w_store w = Document rr" "s \<in> set (rr_decisions rr)"
    "d_decision_id s = d_decision_id d" "decision_eq s d" "d_result s = Authorized" "d_binding s = Some b"
    "d_effect_id s = effect_id P b" "\<forall>u. now = Some u \<longrightarrow> t = u"
    "resolve P cfg p t = Inr ([], Some c)" "binding_eq c b" "ad = b_adapter_id b"
    "\<forall>a\<in>set (rr_attempts rr). a_effect_id a \<noteq> d_effect_id s"
    "w_dest w' = snd (dst_submit D q (w_dest w))"
    "rq_effect_id q = d_effect_id s" "rq_grant_id q = b_grant_id b"
    "rq_max_effects q = b_effective_max_effects b" "rq_target q = b_target b" "rq_amount q = b_amount b"
    "rq_unit q = b_unit b" "commitment P (PDict (rq_payload q)) = b_payload_commitment b"
    "a_effect_id a = d_effect_id s" "a_decision_id a = d_decision_id s" "a_status a = Attempted"
    "store.extends (Document (add_entry (EAttempt a) rr1)) (w_store w')"
proof (rule execute_run [OF assms])
  fix t s b c w0
  assume s: "store_decision (d_decision_id d) (w_store w) = Inr (Some s)" "decision_eq s d"
      "d_binding s = Some b" "d_result s = Authorized" "d_effect_id s = effect_id P b"
    and t: "\<forall>u. now = Some u \<longrightarrow> t = u"
    and res: "resolve P cfg p t = Inr ([], Some c)" and c: "binding_eq c b" "ad = b_adapter_id c"
    and w0: "w_store w0 = w_store w" "w_dest w0 = w_dest w"
    and run: "perform P cfg D p s c t lose part w0 = (r, w')"
  from assms(2) w0 have "w_dest w' \<noteq> w_dest w0" by simp
  from run this show thesis
  proof (rule perform_run)
    fix rr rec w1
    assume rr: "w_store w0 = Document rr" "\<forall>a\<in>set (rr_attempts rr). a_effect_id a \<noteq> d_effect_id s"
      and dis: "dispatch P cfg D p s c t lose part w1 = (r, w')" and w1: "w_dest w1 = w_dest w0"
    from assms(2) w0 w1 have "w_dest w' \<noteq> w_dest w1" by simp
    from dispatch_run [OF dis this] obtain rr1 i where
      d': "w_dest w' = snd (dst_submit D (request_of p s c lose part) (w_dest w))"
      and ext: "store.extends (Document (add_entry (EAttempt (new_attempt P i s t Attempted [])) rr1)) (w_store w')"
      using w0 w1 by auto
    from store_decision_Some [OF s(1)] rr w0 have mem: "s \<in> set (rr_decisions rr)"
      "d_decision_id s = d_decision_id d" by auto
    from resolved_request [OF res] show thesis
      by (intro that [of rr s b t c "request_of p s c lose part" "new_attempt P i s t Attempted []" rr1])
         (use s mem rr w0 d' ext t res c in
           \<open>simp_all add: request_of_def new_attempt_def binding_eq_fields [OF c(1)]\<close>)
  qed
qed

section \<open>Properties\<close>

text \<open>
  C1. The destination is touched only for a live authorization. When a call of \<open>execute\<close> changes
  the destination, the decision it was given is equal to one persisted under its id, that one is
  authorized, its effect id is the commitment of its binding, the proposal resolves again without
  reasons at effect time to an equal binding, the caller's adapter is the bound one, no attempt
  was recorded for this effect before, and the destination's new state is the result of exactly one
  request whose effect id, grant, cap, target, amount, unit and payload commitment are those of
  the persisted binding.
\<close>

theorem execute_dispatches_only_authorized:
  assumes "execute P cfg D p d ad now lose part w = (r, w')" "w_dest w' \<noteq> w_dest w"
  shows "\<exists>rr s b c t q. w_store w = Document rr \<and> s \<in> set (rr_decisions rr) \<and>
     d_decision_id s = d_decision_id d \<and> decision_eq s d \<and> d_result s = Authorized \<and> d_binding s = Some b \<and>
     d_effect_id s = effect_id P b \<and> (\<forall>u. now = Some u \<longrightarrow> t = u) \<and>
     resolve P cfg p t = Inr ([], Some c) \<and> binding_eq c b \<and> ad = b_adapter_id b \<and>
     (\<forall>a\<in>set (rr_attempts rr). a_effect_id a \<noteq> d_effect_id s) \<and>
     w_dest w' = snd (dst_submit D q (w_dest w)) \<and>
     rq_effect_id q = d_effect_id s \<and> rq_grant_id q = b_grant_id b \<and>
     rq_max_effects q = b_effective_max_effects b \<and> rq_target q = b_target b \<and> rq_amount q = b_amount b \<and>
     rq_unit q = b_unit b \<and> commitment P (PDict (rq_payload q)) = b_payload_commitment b"
  by (rule execute_dispatch_facts [OF assms]) blast

text \<open>
  C16. A decision is authorized or held, never denied, and is on record before it is returned: the
  call appends exactly that decision and leaves the destination alone; it is authorized exactly
  when it has no reasons and then carries the binding the resolution gave, with the effect id
  committed to by that binding.
\<close>

theorem decide_records_its_decision:
  assumes "decide P cfg p now w = (Inr d, w')"
  shows "\<exists>rr t bo. w_store w = Document rr \<and> w_store w' = Document (add_entry (EDecision d) rr) \<and>
     w_dest w' = w_dest w \<and> (\<forall>u. now = Some u \<longrightarrow> t = u) \<and> resolve P cfg p t = Inr (d_reasons d, bo) \<and>
     d_binding d = bo \<and> d_result d \<noteq> Deny \<and> (d_result d = Authorized \<longleftrightarrow> d_reasons d = []) \<and>
     (d_result d = Authorized \<longleftrightarrow> bo \<noteq> None) \<and> (\<forall>b. bo = Some b \<longrightarrow> d_effect_id d = effect_id P b)"
proof -
  from assms obtain t w0 reasons bo rr where t: "given_or_now P now w = (Inr t, w0)"
    and res: "resolve P cfg p t = Inr (reasons, bo)"
    and rec: "w_store w0 = Document rr" "w_store w' = Document (add_entry (EDecision d) rr)"
       "w_dest w' = w_dest w0"
    and d: "d_reasons d = reasons" "d_result d = (if reasons = [] then Authorized else Hold)"
      "d_binding d = (if reasons = [] then bo else None)" "bo = Some b \<Longrightarrow> d_effect_id d = effect_id P b" for b
    by (auto simp: decide_def act_iff Let_def)
  from resolve_shape [OF res] given_or_now_run [OF t] res rec d show ?thesis
    by (intro exI [of _ rr] exI [of _ t] exI [of _ bo]) (auto split: if_splits)
qed

text \<open>
  C7. Authority that changed between decision and effect is refused on the record. If a persisted,
  authorized decision no longer resolves to an equal binding at effect time, \<open>execute\<close> raises
  without touching the destination or recording any attempt, and appends one refusal that names
  the decision and effect, with at least one reason, all of the new reasons, and the inputs that
  changed.
\<close>

theorem execute_refuses_changed_authority:
  assumes "w_store w = Document rr" "store_decision (d_decision_id d) (w_store w) = Inr found"
    and "check_persisted P d found = Inr (s, b)"
    and "resolve P cfg p t = Inr (reasons, current)" "\<not> option_eq binding_eq current (Some b)"
    and "changed_inputs P cfg p b = Inr changed"
  shows "\<exists>x w'. execute P cfg D p d ad (Some t) lose part w =
       (throw_msg PermissionError ''authorization-critical inputs changed before effect'', w') \<and>
     w_dest w' = w_dest w \<and> w_store w' = Document (add_entry (ERefusal x) rr) \<and>
     r_decision_id x = d_decision_id s \<and> r_effect_id x = d_effect_id s \<and>
     r_reasons x \<noteq> [] \<and> set reasons \<subseteq> set (r_reasons x) \<and> r_changed_inputs x = changed"
proof -
  define rs where "rs = (if sorted_set reasons = [] \<and> \<not> option_eq binding_eq current (Some b)
    then [''authorization_binding_changed''] else sorted_set reasons)"
  define x where "x = \<lparr>r_refusal_id = uuid4 P (w_uuids w), r_decision_id = d_decision_id s,
    r_effect_id = d_effect_id s, r_recorded_at = iso P t, r_reasons = rs, r_changed_inputs = changed\<rparr>"
  have "revalidate P cfg p s b t w = refuse P cfg p s b t rs w"
    using assms(4,5) by (simp add: revalidate_def bindA_def liftA_def rs_def Let_def)
  also have "\<dots> = (throw_msg PermissionError ''authorization-critical inputs changed before effect'',
      w\<lparr>w_uuids := Suc (w_uuids w), w_store := Document (add_entry (ERefusal x) rr)\<rparr>)"
    using assms(1,6) by (simp add: refuse_def bindA_def uuidA_def liftA_def recordA_def store_append_def
        raiseA_def x_def)
  finally have rev: "revalidate P cfg p s b t w = \<dots>" .
  let ?w' = "w\<lparr>w_uuids := Suc (w_uuids w), w_store := Document (add_entry (ERefusal x) rr)\<rparr>"
  have "execute P cfg D p d ad (Some t) lose part w =
      (throw_msg PermissionError ''authorization-critical inputs changed before effect'',
       ?w')"
    using assms(2,3) rev
    by (simp add: execute_def given_or_now_def bindA_def returnA_def liftA_def throw_msg_def)
  moreover have "rs \<noteq> []" "set reasons \<subseteq> set rs" using assms(5) by (auto simp: rs_def)
  ultimately show ?thesis by (intro exI [of _ x] exI [of _ ?w']) (simp add: x_def)
qed

text \<open>What a dispatch that returns has appended.\<close>

lemma dispatch_journals_attempt_core:
  assumes "dispatch P cfg D p s c t lose part w = (Inr (a, seen), w')"
  shows "\<exists>rr rr' first outcome. w_store w = Document rr \<and> w_store w' = Document rr' \<and>
     fst (dst_submit D (request_of p s c lose part) (w_dest w)) = outcome \<and>
     rr_attempts rr' = rr_attempts rr @ [first, a] \<and>
     a_status first = Attempted \<and> a_attempt_id first = a_attempt_id a \<and>
     a_effect_id first = d_effect_id s \<and> a_effect_id a = d_effect_id s \<and> a_decision_id a = d_decision_id s \<and>
     (case outcome of
        Inr ack \<Rightarrow> a_status a = (if part then AttemptPartial else Acknowledged) \<and> a_acknowledgement a = ack
      | Inl e \<Rightarrow> a_status a = (if exn_kind e = TimeoutError then AttemptUnknown else AttemptFailed))"
proof -
  define first where "first = new_attempt P (uuid4 P (w_uuids w)) s t Attempted []"
  let ?sub = "dst_submit D (request_of p s c lose part) (w_dest w)"
  obtain ack dd where sub: "?sub = (ack, dd)" by fastforce
  from assms obtain rr where rr: "w_store w = Document rr"
    by (auto simp: dispatch_def act_iff Let_def)
  define rr1 where "rr1 = add_entry (EAttempt (settle first part ack)) (add_entry (EAttempt first) rr)"
  define v where "v = w\<lparr>w_uuids := Suc (w_uuids w), w_dest := dd, w_store := Document rr1\<rparr>"
  from assms rr sub obtain post where a: "a = settle first part ack"
    and obs: "observe_and_reconcile P cfg D (d_effect_id s) (Some t) v = (Inr post, w')"
    by (auto simp: dispatch_def act_iff Let_def first_def submitA_def v_def rr1_def)
  have v: "w_store v = Document rr1" "rr_attempts rr1 = rr_attempts rr @ [first, a]"
    by (simp_all add: v_def rr1_def a)
  obtain rr' where rr': "w_store w' = Document rr'" "rr_attempts rr' = rr_attempts rr1"
    using observe_and_reconcile_attempts [OF obs v(1)] by blast
  have fields: "a_status first = Attempted" "a_attempt_id a = a_attempt_id first"
    "a_effect_id first = d_effect_id s" "a_effect_id a = d_effect_id s" "a_decision_id a = d_decision_id s"
    "case ack of Inr k \<Rightarrow> a_status a = (if part then AttemptPartial else Acknowledged) \<and> a_acknowledgement a = k
      | Inl e \<Rightarrow> a_status a = (if exn_kind e = TimeoutError then AttemptUnknown else AttemptFailed)"
    by (auto simp: a first_def settle_def new_attempt_def split: sum.splits)
  show ?thesis
    by (rule exI [of _ rr], rule exI [of _ rr'], rule exI [of _ first], rule exI [of _ ack])
      (use fields in \<open>simp add: rr rr' v sub\<close>)
qed

text \<open>
  C15. Every dispatch is journalled. A dispatch that returns has appended the attempt twice under
  one attempt id, first as attempted and then as settled: partial or acknowledged with the
  destination's acknowledgement if it answered, unknown if it timed out, failed on any other
  exception; and the returned observation is one the reconciliation accepted.
\<close>

theorem dispatch_journals_attempt:
  assumes "dispatch P cfg D p s c t lose part w = (Inr (a, seen), w')"
  shows "\<exists>rr rr' first outcome. w_store w = Document rr \<and> w_store w' = Document rr' \<and>
     fst (dst_submit D (request_of p s c lose part) (w_dest w)) = outcome \<and>
     rr_attempts rr' = rr_attempts rr @ [first, a] \<and>
     a_status first = Attempted \<and> a_attempt_id first = a_attempt_id a \<and>
     a_effect_id first = d_effect_id s \<and> a_effect_id a = d_effect_id s \<and> a_decision_id a = d_decision_id s \<and>
     (case outcome of
        Inr ack \<Rightarrow> a_status a = (if part then AttemptPartial else Acknowledged) \<and> a_acknowledgement a = ack
      | Inl e \<Rightarrow> a_status a = (if exn_kind e = TimeoutError then AttemptUnknown else AttemptFailed))"
  by (rule dispatch_journals_attempt_core [OF assms])

lemma dump_proposal_keys:
  "dump_proposal p = PDict d \<Longrightarrow> distinct (map fst d)"
  by (auto simp: dump_proposal_def split: option.splits)

lemma dump_proposal_lookup:
  assumes "dump_proposal p = PDict d"
  shows "map_of d ''target'' = Some (PStr (p_target p))" "map_of d ''amount'' = Some (PFloat (p_amount p))"
    "map_of d ''unit'' = Some (PStr (p_unit p))" "map_of d ''effects'' = Some (PInt (p_effects p))"
    "map_of d ''actor'' = Some (PStr (p_actor p))" "map_of d ''principal'' = Some (PStr (p_principal p))"
    "map_of d ''action_id'' = Some (PStr (p_action_id p))"
    "map_of d ''requested_permissions'' = Some (str_list (p_requested_permissions p))"
    "map_of d ''tenant_id'' = map_option PStr (p_tenant_id p)"
  using assms unfolding dump_proposal_def pyval.inject by (cases "p_tenant_id p"; auto)+

text \<open>
  C17. An effect id identifies the operation and its authority: barring a digest collision on the
  committed documents, two bindings with the same effect id have the same grant and revision, and
  the proposals they commit to agree on every field up to the key order of their payload and
  risk metadata: in particular on target, amount, unit, actor, principal, action and tenant.
\<close>

theorem effect_id_identifies_operation:
  assumes "float_repr_ok P" "effect_id P b1 = effect_id P b2"
    and "b_proposal_commitment b1 = proposal_commitment P p1"
    and "b_proposal_commitment b2 = proposal_commitment P p2"
    and "no_collision P (identity_doc (b_proposal_commitment b1) (PStr (b_grant_id b1)) (PStr (b_grant_revision b1)))
           (identity_doc (b_proposal_commitment b2) (PStr (b_grant_id b2)) (PStr (b_grant_revision b2)))"
    and "no_collision P (dump_proposal p1) (dump_proposal p2)"
  shows "b_grant_id b1 = b_grant_id b2 \<and> b_grant_revision b1 = b_grant_revision b2 \<and>
     key_norm (dump_proposal p1) = key_norm (dump_proposal p2) \<and>
     p_target p1 = p_target p2 \<and> p_amount p1 = p_amount p2 \<and> p_unit p1 = p_unit p2 \<and>
     p_effects p1 = p_effects p2 \<and> p_actor p1 = p_actor p2 \<and> p_principal p1 = p_principal p2 \<and>
     p_action_id p1 = p_action_id p2 \<and> p_tenant_id p1 = p_tenant_id p2 \<and>
     p_requested_permissions p1 = p_requested_permissions p2"
proof -
  define doc where "doc = (\<lambda>b :: binding. [(''proposal'', PStr (b_proposal_commitment b)),
    (''grant_id'', PStr (b_grant_id b)), (''grant_revision'', PStr (b_grant_revision b))])"
  from commitment_binding [OF assms(1,5)] assms(2)
  have "key_norm (PDict (doc b1)) = key_norm (PDict (doc b2))"
    by (simp add: effect_id_def identity_doc_def doc_def)
  note id = key_norm_lookup [OF this]
  have ids: "b_grant_id b1 = b_grant_id b2" "b_grant_revision b1 = b_grant_revision b2"
    "b_proposal_commitment b1 = b_proposal_commitment b2"
    using id [of "''grant_id''"] id [of "''grant_revision''"] id [of "''proposal''"]
    by (simp_all add: doc_def)
  then have eq: "key_norm (dump_proposal p1) = key_norm (dump_proposal p2)"
    using commitment_binding [OF assms(1,6)] assms(3,4) by (simp add: proposal_commitment_def)
  obtain d1 d2 where d: "dump_proposal p1 = PDict d1" "dump_proposal p2 = PDict d2"
    by (auto simp: dump_proposal_def)
  have look: "map_option key_norm (map_of d1 k) = map_option key_norm (map_of d2 k)" for k
    using key_norm_lookup [OF eq [unfolded d] dump_proposal_keys [OF d(1)] dump_proposal_keys [OF d(2)]] .
  have perms: "map (key_norm \<circ> PStr) xs = map (key_norm \<circ> PStr) ys \<Longrightarrow> xs = ys" for xs ys
    by (simp add: inj_map_eq_map inj_def)
  have tenant: "map_option (key_norm \<circ> PStr) x = map_option (key_norm \<circ> PStr) y \<Longrightarrow> x = y" for x y
    by (cases x; cases y) auto
  show ?thesis
    using look [of "''target''"] look [of "''amount''"] look [of "''unit''"] look [of "''effects''"]
      look [of "''actor''"] look [of "''principal''"] look [of "''action_id''"] look [of "''tenant_id''"]
      look [of "''requested_permissions''"] ids eq tenant perms
    by (simp add: dump_proposal_lookup [OF d(1)] dump_proposal_lookup [OF d(2)] option.map_comp)
qed

section \<open>The worked example, run\<close>

definition demo_decision :: decision where
  "demo_decision = \<lparr>d_decision_id = uuid4 demo_prims 0, d_effect_id = effect_id demo_prims demo_binding,
     d_result = Authorized, d_reasons = [], d_decided_at = iso demo_prims demo_now,
     d_binding = Some demo_binding\<rparr>"

definition demo_decided :: "dest_file world" where
  "demo_decided = demo_world\<lparr>w_store := Document (add_entry (EDecision demo_decision) (empty_run_record ''run'')),
     w_uuids := 1\<rparr>"

lemma demo_decide:
  "decide demo_prims (demo_config GrantActive) demo_proposal (Some demo_now) demo_world =
     (Inr demo_decision, demo_decided)"
  by (simp add: decide_def given_or_now_def bindA_def returnA_def liftA_def demo_resolves uuidA_def
      recordA_def store_append_def demo_decided_def demo_decision_def demo_world_def Let_def)

lemma decide_records_its_decision_witness:
  "\<exists>rr. w_store demo_decided = Document (add_entry (EDecision demo_decision) rr) \<and> d_result demo_decision \<noteq> Deny"
  using decide_records_its_decision [OF demo_decide] by blast

lemma demo_binding_eq: "binding_eq demo_binding demo_binding"
  by (rule binding_eq_refl) (simp add: demo_binding_def)

lemma demo_stored: "store_decision (d_decision_id demo_decision) (w_store demo_decided) = Inr (Some demo_decision)"
  by (simp add: store_decision_def demo_decided_def empty_run_record_def store_load_def)

lemma demo_check: "check_persisted demo_prims demo_decision (Some demo_decision) = Inr (demo_decision, demo_binding)"
  by (simp add: check_persisted_def decision_eq_def demo_binding_eq demo_decision_def)

text \<open>On a readable record file a dispatch always returns, and has submitted its request.\<close>

lemma dispatch_total:
  assumes "w_store w = Document rr"
  shows "\<exists>a seen w'. dispatch P cfg D p s c t lose part w = (Inr (a, seen), w') \<and>
     w_dest w' = snd (dst_submit D (request_of p s c lose part) (w_dest w))"
proof -
  define first where "first = new_attempt P (uuid4 P (w_uuids w)) s t Attempted []"
  obtain ack dd where sub: "dst_submit D (request_of p s c lose part) (w_dest w) = (ack, dd)" by fastforce
  define v where "v = w\<lparr>w_uuids := Suc (w_uuids w), w_dest := dd,
    w_store := Document (add_entry (EAttempt (settle first part ack)) (add_entry (EAttempt first) rr))\<rparr>"
  obtain post w' where obs: "observe_and_reconcile P cfg D (d_effect_id s) (Some t) v = (Inr post, w')"
    using observe_and_reconcile_total [of v] by (fastforce simp: v_def)
  have "dispatch P cfg D p s c t lose part w = (Inr (settle first part ack,
      if rec_observation_accepted post then rec_observation post else None), w')"
    using obs assms sub
    by (simp add: dispatch_def bindA_def uuidA_def recordA_def store_append_def submitA_def Let_def
        first_def v_def returnA_def)
  moreover have "w_dest w' = dd" using keeps_destD [OF keeps_observe_and_reconcile obs] by (simp add: v_def)
  ultimately show ?thesis using sub by auto
qed

lemma demo_submit:
  "effect_in (snd (dst_submit (local_destination demo_prims)
     (request_of demo_proposal demo_decision demo_binding False False) empty_destination))
     (d_effect_id demo_decision) \<noteq> None"
  by (simp add: local_destination_def local_apply_def empty_destination_def request_of_def grant_used_def
      Let_def) (simp add: demo_binding_def)

lemma demo_perform:
  "\<exists>a w'. perform demo_prims (demo_config GrantActive) (local_destination demo_prims) demo_proposal demo_decision
     demo_binding demo_now False False demo_decided = (Inr a, w') \<and> w_dest w' \<noteq> w_dest demo_decided"
proof -
  have start: "w_dest demo_decided = empty_destination" "\<exists>rr. w_store demo_decided = Document rr \<and> rr_attempts rr = []"
    by (simp_all add: demo_decided_def demo_world_def empty_run_record_def)
  then obtain rr where rr: "w_store demo_decided = Document rr" "rr_attempts rr = []" by blast
  from demo_look [OF start(1) rr(1)] obtain rec w1 rr1 where
    look: "observe_and_reconcile demo_prims (demo_config GrantActive) (local_destination demo_prims)
      (d_effect_id demo_decision) (Some demo_now) demo_decided = (Inr rec, w1)"
      "rec_result rec = RecObservedAbsent"
      "case rec_observation rec of None \<Rightarrow> True | Some obs \<Rightarrow> o_state obs \<noteq> ObsPartial"
    and w1: "w_dest w1 = empty_destination" "w_store w1 = Document rr1" by fastforce
  have "perform demo_prims (demo_config GrantActive) (local_destination demo_prims) demo_proposal demo_decision
     demo_binding demo_now False False demo_decided =
     dispatch demo_prims (demo_config GrantActive) (local_destination demo_prims) demo_proposal demo_decision
     demo_binding demo_now False False w1"
    using look rr by (auto simp: perform_def bindA_def loadA_def store_load_def Let_def split: option.splits)
  with dispatch_total [OF w1(2)] w1(1) start(1) demo_submit show ?thesis
    by (metis effect_in_simps(1) empty_destination_def dest_state.select_convs(1))
qed

lemma demo_execute:
  "\<exists>a w'. execute demo_prims (demo_config GrantActive) (local_destination demo_prims) demo_proposal demo_decision
     ''adapter'' (Some demo_now) False False demo_decided = (Inr a, w') \<and> w_dest w' \<noteq> w_dest demo_decided"
proof -
  have "revalidate demo_prims (demo_config GrantActive) demo_proposal demo_decision demo_binding demo_now demo_decided =
     (Inr demo_binding, demo_decided)"
    by (simp add: revalidate_def bindA_def liftA_def demo_resolves demo_binding_eq returnA_def Let_def)
  then show ?thesis
    using demo_perform
    by (simp add: execute_def bindA_def given_or_now_def returnA_def liftA_def demo_stored demo_check)
       (simp add: demo_binding_def)
qed

lemma execute_dispatches_only_authorized_witness:
  "\<exists>(w' :: dest_file world) q. w_dest w' = snd (dst_submit (local_destination demo_prims) q (w_dest demo_decided)) \<and>
     rq_effect_id q = d_effect_id demo_decision"
proof -
  from demo_execute obtain a w' where run: "execute demo_prims (demo_config GrantActive)
     (local_destination demo_prims) demo_proposal demo_decision ''adapter'' (Some demo_now) False False
     demo_decided = (Inr a, w')" and d: "w_dest w' \<noteq> w_dest demo_decided" by blast
  from execute_dispatches_only_authorized [OF run d] show ?thesis
    using decision_eq_fields(2) by metis
qed

lemma dispatch_journals_attempt_witness:
  "\<exists>a (w' :: dest_file world) rr'. w_store w' = Document rr' \<and> a \<in> set (rr_attempts rr') \<and> a_effect_id a = d_effect_id demo_decision"
proof -
  have "w_store demo_decided = Document (add_entry (EDecision demo_decision) (empty_run_record ''run''))"
    by (simp add: demo_decided_def)
  from dispatch_total [OF this] obtain a seen w' where "dispatch demo_prims (demo_config GrantActive)
     (local_destination demo_prims) demo_proposal demo_decision demo_binding demo_now False False
     demo_decided = (Inr (a, seen), w')" by blast
  from dispatch_journals_attempt [OF this] obtain rr :: run_record and rr' first where
    "w_store w' = Document rr'" "rr_attempts rr' = rr_attempts rr @ [first, a]"
    "a_effect_id a = d_effect_id demo_decision" by blast
  then show ?thesis by (intro exI [of _ a] exI [of _ w'] exI [of _ rr']) simp
qed

lemma demo_changed_inputs:
  "\<exists>ch. changed_inputs demo_prims (demo_config GrantRevoked) demo_proposal demo_binding = Inr ch"
  by (simp add: changed_inputs_def changed_grant_def changed_policy_def changed_approval_def
      changed_evidence_def changed_mapping_def context_ref_def demo_simps)

lemma execute_refuses_changed_authority_witness:
  "\<exists>(x :: refusal) w'. execute demo_prims (demo_config GrantRevoked) (local_destination demo_prims) demo_proposal demo_decision
       ''adapter'' (Some demo_now) False False demo_decided =
     (throw_msg PermissionError ''authorization-critical inputs changed before effect'', w') \<and>
     r_reasons x \<noteq> [] \<and> w_dest w' = w_dest demo_decided"
proof -
  from demo_changed_inputs obtain ch where
    ch: "changed_inputs demo_prims (demo_config GrantRevoked) demo_proposal demo_binding = Inr ch" by blast
  have "w_store demo_decided = Document (add_entry (EDecision demo_decision) (empty_run_record ''run''))"
    by (simp add: demo_decided_def)
  from execute_refuses_changed_authority [OF this demo_stored demo_check _ _ ch,
      where t = demo_now and reasons = "[''grant_not_active'']" and current = None
        and D = "local_destination demo_prims" and ad = "''adapter''" and lose = False and part = False]
  show ?thesis unfolding demo_resolves by auto
qed

lemma effect_id_identifies_operation_witness:
  "let P = demo_prims\<lparr>float_repr := ratio_repr\<rparr>;
       b = demo_binding\<lparr>b_proposal_commitment := proposal_commitment P demo_proposal\<rparr>
   in effect_id P b = effect_id P b \<and> p_amount demo_proposal = p_amount demo_proposal"
  using effect_id_identifies_operation
    [of "demo_prims\<lparr>float_repr := ratio_repr\<rparr>"
        "demo_binding\<lparr>b_proposal_commitment :=
           proposal_commitment (demo_prims\<lparr>float_repr := ratio_repr\<rparr>) demo_proposal\<rparr>"
        "demo_binding\<lparr>b_proposal_commitment :=
           proposal_commitment (demo_prims\<lparr>float_repr := ratio_repr\<rparr>) demo_proposal\<rparr>"
        demo_proposal demo_proposal, OF ratio_repr_ok refl]
  by (simp add: no_collision_def)

end
