(* ===== verification/Calls.thy ===== *)
theory Calls
  imports Workflow
begin

text \<open>
  The calls of the workflow in steps. \<open>execute\<close>, \<open>decide\<close> and \<open>reconcile\<close> of \<open>bounded.py\<close> hold no
  lock of their own: the record store locks one transaction at a time, the destination one
  operation at a time, and between two of them another thread may do anything. A call is here a
  tree of such atomic steps, each ending where the code calls the store, the destination, the
  clock or \<open>uuid4\<close> again; running the steps of a call without interruption is the call of \<open>Workflow\<close>
  (lemma \<open>run_execute\<close> and its siblings).
\<close>

section \<open>Calls as trees of steps\<close>

datatype ('d, 'a) call = Ended "'a res" | Step "'d world \<Rightarrow> ('d, 'a) call \<times> 'd world"

text \<open>Induction over what a call may do next.\<close>

lemma call_steps [case_names Ended Step]:
  assumes "\<And>r. Q (Ended r)" and "\<And>f. (\<And>w c w'. f w = (c, w') \<Longrightarrow> Q c) \<Longrightarrow> Q (Step f)"
  shows "Q c"
proof (induction c)
  case (Ended r)
  show ?case by (rule assms(1))
next
  case (Step f)
  show ?case
  proof (rule assms(2))
    fix w c w'
    assume c: "f w = (c, w')"
    show "Q c" by (rule Step.IH [of "f w"], rule rangeI) (simp add: c)
  qed
qed

primrec run :: "('d, 'a) call \<Rightarrow> ('d, 'a) act" where
  "run (Ended r) = (\<lambda>w. (r, w))"
| "run (Step f) = (\<lambda>w. case map_prod run id (f w) of (m, w') \<Rightarrow> m w')"

text \<open>One atomic action.\<close>

definition atom :: "('d, 'a) act \<Rightarrow> ('d, 'a) call" where
  "atom m = Step (\<lambda>w. map_prod Ended id (m w))"

primrec bindC :: "('d, 'a) call \<Rightarrow> ('a \<Rightarrow> ('d, 'b) call) \<Rightarrow> ('d, 'b) call" where
  "bindC (Ended r) k = (case r of Inl e \<Rightarrow> Ended (Inl e) | Inr x \<Rightarrow> k x)"
| "bindC (Step f) k = Step (\<lambda>w. map_prod (\<lambda>c. bindC c k) id (f w))"

abbreviation returnC :: "'a \<Rightarrow> ('d, 'a) call" where
  "returnC x \<equiv> Ended (Inr x)"

abbreviation raiseC :: "exn_class \<Rightarrow> string \<Rightarrow> ('d, 'a) call" where
  "raiseC c m \<equiv> Ended (throw_msg c m)"

lemma run_atom [simp]: "run (atom m) = m"
  by (auto simp: atom_def map_prod_def split: prod.splits)

lemma run_bindC [simp]: "run (bindC c k) = bindA (run c) (\<lambda>x. run (k x))"
proof (induction c rule: call_steps)
  case (Ended r)
  then show ?case by (auto simp: bindA_def split: sum.splits)
next
  case (Step f)
  show ?case
  proof
    fix w
    obtain c w' where fw: "f w = (c, w')" by fastforce
    note Step.IH [OF fw]
    then show "run (bindC (Step f) k) w = bindA (run (Step f)) (\<lambda>x. run (k x)) w"
      by (simp add: fw bindA_def)
  qed
qed

lemma run_Ended: "run (Ended r) = liftA r" "liftA (Inr x) = returnA x" "liftA (throw_msg e m) = raiseA e m"
  by (auto simp: returnA_def raiseA_def liftA_def)

declare bindC.simps [simp del] run.simps(1) [simp del]

section \<open>The operations\<close>

definition given_or_now_steps :: "prims \<Rightarrow> pydatetime option \<Rightarrow> ('d, pydatetime) call" where
  "given_or_now_steps P now = (case now of Some t \<Rightarrow> returnC t | None \<Rightarrow> atom (nowA P))"

definition decide_steps :: "prims \<Rightarrow> config \<Rightarrow> proposal \<Rightarrow> pydatetime option \<Rightarrow> ('d, decision) call" where
  "decide_steps P cfg p now =
     bindC (given_or_now_steps P now) (\<lambda>t.
     bindC (Ended (resolve P cfg p t)) (\<lambda>(reasons, bo).
     bindC (atom (uuidA P)) (\<lambda>i.
       let d = \<lparr>d_decision_id = i,
                d_effect_id = (case bo of
                   Some b \<Rightarrow> effect_id P b
                 | None \<Rightarrow> commitment P (identity_doc (proposal_commitment P p) PNone PNone)),
                d_result = (if reasons = [] then Authorized else Hold),
                d_reasons = reasons, d_decided_at = iso P t,
                d_binding = (if reasons = [] then bo else None)\<rparr>
       in bindC (atom (recordA (EDecision d))) (\<lambda>_. returnC d))))"

definition reconcile_observation_steps ::
  "prims \<Rightarrow> config \<Rightarrow> string \<Rightarrow> observation \<Rightarrow> pydatetime option \<Rightarrow> ('d, reconciliation) call" where
  "reconcile_observation_steps P cfg i obs now =
     (let policy = cf_observation_policy cfg;
          reasons = observation_reasons P policy i obs now;
          accepted = (reasons = [])
      in bindC (if accepted then atom (recordA (EObservation obs)) else returnC ()) (\<lambda>_.
         bindC (atom (nowA P)) (\<lambda>stamp.
         let value = reconciliation_of P policy i now stamp (classify accepted obs) (Some obs) accepted reasons
         in bindC (atom (recordA (EReconciliation value))) (\<lambda>_. returnC value))))"

definition reconcile_steps ::
  "prims \<Rightarrow> config \<Rightarrow> 'd destination \<Rightarrow> string \<Rightarrow> pydatetime option \<Rightarrow> ('d, reconciliation) call" where
  "reconcile_steps P cfg D i now =
     bindC (atom (observeA P D i)) (\<lambda>seen. case seen of
       Inr obs \<Rightarrow> reconcile_observation_steps P cfg i obs now
     | Inl e \<Rightarrow>
        (let policy = cf_observation_policy cfg;
             reasons = fst (trusted_evaluation_time now) @
               flag (policy = None) ''observation_policy_missing'' @
               [''observation_unavailable:'' @ exn_name (exn_kind e)]
         in bindC (atom (nowA P)) (\<lambda>stamp.
            let value = reconciliation_of P policy i now stamp RecHold None False reasons
            in bindC (atom (recordA (EReconciliation value))) (\<lambda>_. returnC value))))"

definition refuse_steps ::
  "prims \<Rightarrow> config \<Rightarrow> proposal \<Rightarrow> decision \<Rightarrow> binding \<Rightarrow> pydatetime \<Rightarrow> string list \<Rightarrow> ('d, 'a) call" where
  "refuse_steps P cfg p s b t reasons =
     bindC (atom (uuidA P)) (\<lambda>i.
     bindC (Ended (changed_inputs P cfg p b)) (\<lambda>changed.
     bindC (atom (recordA (ERefusal \<lparr>r_refusal_id = i, r_decision_id = d_decision_id s, r_effect_id = d_effect_id s,
              r_recorded_at = iso P t, r_reasons = reasons, r_changed_inputs = changed\<rparr>))) (\<lambda>_.
       raiseC PermissionError ''authorization-critical inputs changed before effect'')))"

definition revalidate_steps ::
  "prims \<Rightarrow> config \<Rightarrow> proposal \<Rightarrow> decision \<Rightarrow> binding \<Rightarrow> pydatetime \<Rightarrow> ('d, binding) call" where
  "revalidate_steps P cfg p s b t =
     bindC (Ended (resolve P cfg p t)) (\<lambda>(reasons, current).
       let same = option_eq binding_eq current (Some b);
           refusal_reasons = sorted_set reasons
       in if reasons \<noteq> [] \<or> current = None \<or> \<not> same
          then refuse_steps P cfg p s b t
                 (if refusal_reasons = [] \<and> \<not> same then [''authorization_binding_changed''] else refusal_reasons)
          else returnC (the current))"

definition already_there_steps ::
  "prims \<Rightarrow> decision \<Rightarrow> pydatetime \<Rightarrow> attempt_status \<Rightarrow> observation option \<Rightarrow>
     ('d, attempt \<times> observation option) call" where
  "already_there_steps P s t status existing =
     bindC (atom (uuidA P)) (\<lambda>i.
       let a = new_attempt P i s t status [(''reconciled_existing'', PBool True)]
       in bindC (atom (recordA (EAttempt a))) (\<lambda>_. returnC (a, existing)))"

definition dispatch_steps ::
  "prims \<Rightarrow> config \<Rightarrow> 'd destination \<Rightarrow> proposal \<Rightarrow> decision \<Rightarrow> binding \<Rightarrow> pydatetime \<Rightarrow> bool \<Rightarrow> bool \<Rightarrow>
     ('d, attempt \<times> observation option) call" where
  "dispatch_steps P cfg D p s c t lose_ack part =
     bindC (atom (uuidA P)) (\<lambda>i.
       let a = new_attempt P i s t Attempted []
       in bindC (atom (recordA (EAttempt a))) (\<lambda>_.
          bindC (atom (submitA D (request_of p s c lose_ack part))) (\<lambda>outcome.
          bindC (atom (recordA (EAttempt (settle a part outcome)))) (\<lambda>_.
          bindC (reconcile_steps P cfg D (d_effect_id s) (Some t)) (\<lambda>post.
            returnC (settle a part outcome,
              if rec_observation_accepted post then rec_observation post else None))))))"

definition perform_steps ::
  "prims \<Rightarrow> config \<Rightarrow> 'd destination \<Rightarrow> proposal \<Rightarrow> decision \<Rightarrow> binding \<Rightarrow> pydatetime \<Rightarrow> bool \<Rightarrow> bool \<Rightarrow>
     ('d, attempt \<times> observation option) call" where
  "perform_steps P cfg D p s c t lose_ack part =
     bindC (atom loadA) (\<lambda>r.
     let prior = filter (\<lambda>a. a_effect_id a = d_effect_id s) (rr_attempts r)
     in bindC (reconcile_steps P cfg D (d_effect_id s) (Some t)) (\<lambda>rec.
        if rec_result rec = RecApplied then already_there_steps P s t Acknowledged (rec_observation rec)
        else if (case rec_observation rec of None \<Rightarrow> False | Some obs \<Rightarrow> o_state obs = ObsPartial)
                \<and> rec_observation_accepted rec
          then already_there_steps P s t AttemptPartial (rec_observation rec)
        else if rec_result rec \<noteq> RecObservedAbsent
          then raiseC PermissionError ''destination observation is not valid for effect dispatch''
        else if prior \<noteq> []
          then raiseC PermissionError
            ''observed absence does not establish retry eligibility after a prior attempt''
        else dispatch_steps P cfg D p s c t lose_ack part))"

definition execute_steps ::
  "prims \<Rightarrow> config \<Rightarrow> 'd destination \<Rightarrow> proposal \<Rightarrow> decision \<Rightarrow> string \<Rightarrow> pydatetime option \<Rightarrow> bool \<Rightarrow> bool \<Rightarrow>
     ('d, attempt \<times> observation option) call" where
  "execute_steps P cfg D p d adapter_id now lose_ack part =
     bindC (given_or_now_steps P now) (\<lambda>t.
     bindC (atom (\<lambda>w. (store_decision (d_decision_id d) (w_store w), w))) (\<lambda>found.
     bindC (Ended (check_persisted P d found)) (\<lambda>(s, b).
     bindC (revalidate_steps P cfg p s b t) (\<lambda>c.
       if adapter_id \<noteq> b_adapter_id c then raiseC PermissionError ''adapter substitution detected''
       else perform_steps P cfg D p s c t lose_ack part))))"

text \<open>Uninterrupted, the steps are the call.\<close>

lemma run_given_or_now: "run (given_or_now_steps P now) = given_or_now P now"
  by (auto simp: given_or_now_steps_def given_or_now_def run_Ended split: option.splits)

lemma run_decide: "run (decide_steps P cfg p now) = decide P cfg p now"
  by (simp add: decide_steps_def decide_def run_given_or_now Let_def run_Ended split_def)

lemma run_reconcile_observation: "run (reconcile_observation_steps P cfg i obs now) = reconcile_observation P cfg i obs now"
  by (simp add: reconcile_observation_steps_def reconcile_observation_def Let_def run_Ended)

lemma run_reconcile: "run (reconcile_steps P cfg D i now) = reconcile P cfg D i now"
  unfolding reconcile_def observe_and_reconcile_def reconcile_steps_def run_bindC run_atom
  by (rule arg_cong2 [where f = bindA, OF refl], rule ext)
     (simp add: run_reconcile_observation Let_def run_Ended split: sum.split)

lemma run_refuse: "run (refuse_steps P cfg p s b t rs) = refuse P cfg p s b t rs"
  by (simp add: refuse_steps_def refuse_def run_Ended)

lemma run_revalidate: "run (revalidate_steps P cfg p s b t) = revalidate P cfg p s b t"
  by (simp add: revalidate_steps_def revalidate_def Let_def run_Ended run_refuse split_def if_distrib [of run] cong: if_cong)

lemma run_already_there: "run (already_there_steps P s t st ex) = already_there P s t st ex"
  by (simp add: already_there_steps_def already_there_def Let_def run_Ended)

lemma run_dispatch: "run (dispatch_steps P cfg D p s c t lose part) = dispatch P cfg D p s c t lose part"
  by (simp add: dispatch_steps_def dispatch_def Let_def run_Ended run_reconcile reconcile_def)

lemma run_perform: "run (perform_steps P cfg D p s c t lose part) = perform P cfg D p s c t lose part"
  by (simp add: perform_steps_def perform_def Let_def run_Ended run_reconcile reconcile_def run_already_there
      run_dispatch if_distrib [of run] cong: if_cong)

lemma run_execute: "run (execute_steps P cfg D p d ad now lose part) = execute P cfg D p d ad now lose part"
  by (simp add: execute_steps_def execute_def run_given_or_now run_Ended run_revalidate run_perform split_def
      if_distrib [of run] cong: if_cong)

text \<open>Sequencing is associative, and nothing follows a refusal.\<close>

lemma bindC_assoc: "bindC (bindC c f) g = bindC c (\<lambda>x. bindC (f x) g)"
proof (induction c rule: call_steps)
  case (Ended r)
  show ?case by (cases r) (simp_all add: bindC.simps)
next
  case (Step h)
  then show ?case by (auto simp: bindC.simps map_prod_def split: prod.splits)
qed

lemma bind_refuse: "bindC (refuse_steps P cfg p s b t rs) k = refuse_steps P cfg p s b t rs"
proof -
  have "bindC (Ended (throw_msg e m)) k = Ended (throw_msg e m)" for e m
    by (simp add: bindC.simps throw_msg_def)
  then show ?thesis by (simp add: refuse_steps_def bindC_assoc)
qed

section \<open>How many steps a call takes\<close>

text \<open>
  A call that takes \<open>n\<close> steps of its own at most, whatever the worlds it finds; and \<open>n\<close> steps of a
  call among others, who change the world as they like before each of them.
\<close>

primrec ends_within :: "('d, 'a) call \<Rightarrow> nat \<Rightarrow> bool" where
  "ends_within (Ended r) = (\<lambda>n. True)"
| "ends_within (Step f) = (\<lambda>n. 0 < n \<and> (\<forall>w. fst (map_prod ends_within id (f w)) (n - 1)))"

fun drive :: "nat \<Rightarrow> (nat \<Rightarrow> 'd world \<Rightarrow> 'd world) \<Rightarrow> ('d, 'a) call \<times> 'd world \<Rightarrow> ('d, 'a) call \<times> 'd world" where
  "drive 0 others x = x"
| "drive (Suc n) others (Ended r, w) = (Ended r, w)"
| "drive (Suc n) others (Step f, w) = drive n (\<lambda>k. others (Suc k)) (f (others 0 w))"

lemma within_Step: "ends_within (Step f) (Suc n) \<longleftrightarrow> (\<forall>w c w'. f w = (c, w') \<longrightarrow> ends_within c n)"
  by (auto simp: map_prod_def split: prod.splits)

lemma within_0: "ends_within c 0 \<Longrightarrow> \<exists>r. c = Ended r"
  by (cases c) auto

lemma within_mono: "ends_within c m \<Longrightarrow> m \<le> n \<Longrightarrow> ends_within c n"
proof (induction c arbitrary: m n rule: call_steps)
  case (Step f)
  from Step.prems obtain k l where kl: "m = Suc k" "n = Suc l" "k \<le> l" by (cases m; cases n) auto
  have "ends_within c l" if "f w = (c, w')" for w c w'
    using Step.prems(1) kl that by (intro Step.IH [OF that _ kl(3)]) (auto simp only: within_Step)
  then show ?case unfolding kl(2) within_Step by blast
qed simp

lemma within_bind:
  assumes "ends_within c m" "\<And>x. ends_within (k x) n"
  shows "ends_within (bindC c k) (m + n)"
  using assms(1)
proof (induction c arbitrary: m rule: call_steps)
  case (Ended r)
  have "ends_within (k x) (m + n)" for x by (rule within_mono [OF assms(2)]) simp
  then show ?case by (cases r) (simp_all add: bindC.simps)
next
  case (Step f)
  from Step.prems obtain l where l: "m = Suc l" by (cases m) auto
  have "ends_within b (l + n)" if "map_prod (\<lambda>c. bindC c k) id (f w) = (b, w')" for w b w'
  proof -
    obtain c v where c: "f w = (c, v)" by fastforce
    with Step.prems [unfolded l within_Step] have "ends_within c l" by blast
    from Step.IH [OF c this] that c show ?thesis by auto
  qed
  then show ?case unfolding bindC.simps l add_Suc within_Step by blast
qed

lemma within_atom: "ends_within (atom m) (Suc 0)"
  unfolding atom_def within_Step by (auto simp: map_prod_def split: prod.splits)

lemma within_drive: "ends_within c n \<Longrightarrow> \<exists>r w'. drive n others (c, w) = (Ended r, w')"
proof (induction n arbitrary: c w others)
  case 0
  then show ?case using within_0 by fastforce
next
  case (Suc n)
  show ?case
  proof (cases c)
    case (Step f)
    obtain d v where "f (others 0 w) = (d, v)" by fastforce
    with Suc Step show ?thesis by (simp only: drive.simps within_Step)
  qed simp
qed

lemma within_step: "(\<And>x. ends_within (k x) n) \<Longrightarrow> ends_within (bindC (atom m) k) (Suc n)"
  using within_bind [OF within_atom, of k n m] by simp

lemma within_pure: "(\<And>x. ends_within (k x) n) \<Longrightarrow> ends_within (bindC (Ended r) k) n"
  by (cases r) (simp_all add: bindC.simps)

lemma within_now: "ends_within (given_or_now_steps P now) (Suc 0)"
  by (auto simp: given_or_now_steps_def within_atom split: option.split)

lemma within_decide: "ends_within (decide_steps P cfg p now) 3"
proof -
  have "ends_within (decide_steps P cfg p now) (Suc 0 + Suc (Suc 0))"
    unfolding decide_steps_def Let_def split_def
    by (intro within_bind [OF within_now] within_pure within_step) simp
  then show ?thesis by (simp add: numeral_eq_Suc)
qed

lemma within_reconcile: "ends_within (reconcile_steps P cfg D i now) 4"
proof -
  have "ends_within (reconcile_observation_steps P cfg i obs now) (Suc 0 + Suc (Suc 0))" for obs
    unfolding reconcile_observation_steps_def Let_def
    by (intro within_bind within_step) (simp_all add: within_atom)
  then have seen: "ends_within (reconcile_observation_steps P cfg i obs now) (Suc (Suc (Suc 0)))" for obs by simp
  have "ends_within (reconcile_steps P cfg D i now) (Suc (Suc (Suc (Suc 0))))"
    unfolding reconcile_steps_def Let_def
  proof (rule within_step, goal_cases)
    case (1 x)
    show ?case by (cases x) (simp_all only: sum.case seen, intro within_step, simp)
  qed
  then show ?thesis by (simp add: numeral_eq_Suc)
qed

lemma within_dispatch: "ends_within (dispatch_steps P cfg D p s c t lose part) 8"
proof -
  have "ends_within (dispatch_steps P cfg D p s c t lose part) (Suc (Suc (Suc (Suc (4 + 0)))))"
    unfolding dispatch_steps_def Let_def
    by (intro within_step within_bind [OF within_reconcile]) simp
  then show ?thesis by (simp add: numeral_eq_Suc)
qed

lemma within_perform: "ends_within (perform_steps P cfg D p s c t lose part) 13"
proof -
  have "ends_within (already_there_steps P s t st ex) (Suc (Suc 0))" for st ex
    unfolding already_there_steps_def Let_def by (intro within_step) simp
  then have there: "ends_within (already_there_steps P s t st ex) 8" for st ex
    by (rule within_mono) simp
  have "ends_within (perform_steps P cfg D p s c t lose part) (Suc (4 + 8))"
    unfolding perform_steps_def Let_def
    by (intro within_step within_bind [OF within_reconcile]) (simp add: there within_dispatch)
  then show ?thesis by simp
qed

lemma within_execute: "ends_within (execute_steps P cfg D p d ad now lose part) 15"
proof -
  have refuse: "ends_within (refuse_steps P cfg p s b t rs) (Suc (Suc 0))" for s b t rs
    unfolding refuse_steps_def by (intro within_step within_pure) simp
  then have refuse: "ends_within (refuse_steps P cfg p s b t rs) 13" for s b t rs
    by (rule within_mono) simp
  have rest: "ends_within (bindC (revalidate_steps P cfg p s b t) k) 13"
    if "\<And>c. ends_within (k c) 13" for s b t and k :: "binding \<Rightarrow> ('b, attempt \<times> observation option) call"
    using that refuse
    by (cases "resolve P cfg p t") (auto simp: revalidate_steps_def bindC.simps Let_def bind_refuse split: prod.splits)
  have "ends_within (execute_steps P cfg D p d ad now lose part) (Suc 0 + Suc 13)"
    unfolding execute_steps_def split_def
    by (intro within_bind [OF within_now] within_step within_pure rest) (simp add: within_perform)
  then show ?thesis by simp
qed

text \<open>
  C34. Every call ends. Whatever other calls do to the records, the destination and the clock between
  its steps, \<open>decide\<close> has returned or raised after 3 steps of its own (transactions of the record
  store, calls of the destination, clock readings and fresh ids), \<open>reconcile\<close> after 4 and \<open>execute\<close>
  after 15: nothing is retried.
\<close>

theorem calls_end:
  "(\<exists>r w'. drive 3 others (decide_steps P cfg p now, w) = (Ended r, w')) \<and>
   (\<exists>r w'. drive 4 others (reconcile_steps P cfg D i now, w) = (Ended r, w')) \<and>
   (\<exists>r w'. drive 15 others (execute_steps P cfg D p d ad now lose part, w) = (Ended r, w'))"
  by (intro conjI within_drive within_decide within_reconcile within_execute)

end
