(* ===== verification/Interleaving.thy ===== *)
theory Interleaving
  imports Calls
begin

text \<open>
  Any number of overlapping calls on one record file and one local destination. A pool holds the
  calls in progress; a step starts a call, lets one call take its next atomic step, or removes one
  that returned or whose thread died. What the calls guarantee to each other is proved by
  rely-guarantee: every call relies on the record file only growing, and guarantees to change
  the destination only by a request that the records license.
\<close>

section \<open>Pools of calls\<close>

type_synonym pool = "nat \<rightharpoonup> (dest_file, unit) call"

text \<open>A call in the pool, whatever it returns.\<close>

definition quietly :: "('d, 'a) call \<Rightarrow> ('d, unit) call" where
  "quietly c = bindC c (\<lambda>_. returnC ())"

definition initial_world :: "string \<Rightarrow> dest_file world" where
  "initial_world run_id = \<lparr>w_store = Document (empty_run_record run_id), w_dest = empty_destination,
     w_uuids = 0, w_ticks = 0\<rparr>"

inductive pool_step :: "prims \<Rightarrow> pool \<times> dest_file world \<Rightarrow> pool \<times> dest_file world \<Rightarrow> bool" for P where
  start_decide: "calls k = None \<Longrightarrow>
    pool_step P (calls, w) (calls(k \<mapsto> quietly (decide_steps P cfg p now)), w)"
| start_execute: "calls k = None \<Longrightarrow>
    pool_step P (calls, w) (calls(k \<mapsto> quietly (execute_steps P cfg (local_destination P) p d ad now lose part)), w)"
| start_reconcile: "calls k = None \<Longrightarrow>
    pool_step P (calls, w) (calls(k \<mapsto> quietly (reconcile_steps P cfg (local_destination P) i now)), w)"
| advance: "calls k = Some (Step f) \<Longrightarrow> f w = (c, w') \<Longrightarrow> pool_step P (calls, w) (calls(k \<mapsto> c), w')"
| leave: "calls k = Some c \<Longrightarrow> pool_step P (calls, w) (calls(k := None), w)"

inductive reachable :: "prims \<Rightarrow> pool \<Rightarrow> dest_file world \<Rightarrow> bool" for P where
  reach_init: "reachable P Map.empty (initial_world run_id)"
| reach_step: "reachable P calls w \<Longrightarrow> pool_step P (calls, w) (calls', w') \<Longrightarrow> reachable P calls' w'"

inductive_cases pool_stepE [consumes 1, case_names decide execute reconcile advance leave]:
  "pool_step P (calls, w) (calls', w')"

section \<open>What the records say of an effect\<close>

lemma extends_document:
  assumes "store.extends (Document r) f"
  obtains r' where "f = Document r'" "set (rr_decisions r) \<subseteq> set (rr_decisions r')"
    "set (rr_attempts r) \<subseteq> set (rr_attempts r')"
proof -
  from assms obtain r' where r': "store_load f = Inr r'"
    and ext: "\<And>k. \<exists>es. entries k r' = entries k r @ es"
    unfolding store.extends_def by (auto simp: store_load_Inr_iff)
  from ext [of KDecision] have "set (map EDecision (rr_decisions r)) \<subseteq> set (map EDecision (rr_decisions r'))"
    by (metis Un_upper1 entries.simps(1) set_append)
  moreover from ext [of KAttempt] have "set (map EAttempt (rr_attempts r)) \<subseteq> set (map EAttempt (rr_attempts r'))"
    by (metis Un_upper1 entries.simps(3) set_append)
  ultimately show thesis
    using r' by (intro that [of r']) (auto simp: store_load_Inr_iff)
qed

text \<open>
  The abstract contract: an effect at the destination is backed by a persisted, authorized
  decision for exactly that effect, and by an attempt recorded before it was dispatched.
\<close>

definition backed :: "prims \<Rightarrow> run_record \<Rightarrow> string \<Rightarrow> effect \<Rightarrow> bool" where
  "backed P rr i e \<longleftrightarrow> (\<exists>s\<in>set (rr_decisions rr). \<exists>b. \<exists>a\<in>set (rr_attempts rr).
     d_result s = Authorized \<and> d_binding s = Some b \<and> d_effect_id s = i \<and> effect_id P b = i \<and>
     ef_grant_id e = b_grant_id b \<and> ef_target e = b_target b \<and> ef_amount e = b_amount b \<and>
     ef_unit e = b_unit b \<and> commitment P (PDict (ef_payload e)) = b_payload_commitment b \<and>
     a_effect_id a = i \<and> a_decision_id a = d_decision_id s \<and> a_status a = Attempted)"

text \<open>A request the records license: its effect would be backed, and its cap is the decision's.\<close>

definition licensed :: "prims \<Rightarrow> run_record \<Rightarrow> apply_request \<Rightarrow> bool" where
  "licensed P rr q \<longleftrightarrow> backed P rr (rq_effect_id q) (effect_of_request q) \<and>
     (\<exists>s\<in>set (rr_decisions rr). \<exists>b. d_result s = Authorized \<and> d_binding s = Some b \<and>
        b_grant_id b = rq_grant_id q \<and> rq_max_effects q = b_effective_max_effects b)"

lemma backed_mono:
  "backed P rr i e \<Longrightarrow> set (rr_decisions rr) \<subseteq> set (rr_decisions rr') \<Longrightarrow>
     set (rr_attempts rr) \<subseteq> set (rr_attempts rr') \<Longrightarrow> backed P rr' i e"
  unfolding backed_def by blast

text \<open>How many effects a grant has is within the cap of one of its authorized decisions.\<close>

definition capped :: "run_record \<Rightarrow> dest_file \<Rightarrow> string \<Rightarrow> bool" where
  "capped rr f g \<longleftrightarrow> used_in f g \<le> 0 \<or> (\<exists>s\<in>set (rr_decisions rr). \<exists>b. d_result s = Authorized \<and>
     d_binding s = Some b \<and> b_grant_id b = g \<and> used_in f g \<le> b_effective_max_effects b)"

lemma capped_mono:
  "capped rr f g \<Longrightarrow> set (rr_decisions rr) \<subseteq> set (rr_decisions rr') \<Longrightarrow> used_in f' g = used_in f g \<Longrightarrow>
     capped rr' f' g"
  unfolding capped_def by (metis subsetD)

lemma capped_submit:
  assumes "capped rr f (rq_grant_id q)" "licensed P rr q"
  shows "capped rr (snd (local_apply q f)) (rq_grant_id q)"
proof (cases "rq_max_effects q \<le> used_in f (rq_grant_id q)")
  case True
  from local.used_cap [OF this] assms(1) show ?thesis by (simp add: capped_def)
next
  case False
  from assms(2) obtain s b where "s \<in> set (rr_decisions rr)" "d_result s = Authorized" "d_binding s = Some b"
    "b_grant_id b = rq_grant_id q" "rq_max_effects q = b_effective_max_effects b"
    by (auto simp: licensed_def)
  moreover from this False have "used_in (snd (local_apply q f)) (rq_grant_id q) \<le> b_effective_max_effects b"
    using local.used_le [of q f "rq_grant_id q"] by linarith
  ultimately show ?thesis unfolding capped_def by blast
qed

section \<open>Rely and guarantee\<close>

definition rely :: "'d world \<Rightarrow> 'd world \<Rightarrow> bool" where
  "rely w v \<longleftrightarrow> store.extends (w_store w) (w_store v)"

definition allowed :: "prims \<Rightarrow> dest_file world \<Rightarrow> dest_file world \<Rightarrow> bool" where
  "allowed P v v' \<longleftrightarrow> rely v v' \<and>
     (w_dest v' = w_dest v \<or>
      (\<exists>rr q. w_store v = Document rr \<and> licensed P rr q \<and> w_dest v' = snd (local_apply q (w_dest v))))"

lemma rely_refl [simp]: "rely w w"
  by (simp add: rely_def store.extends_refl)

lemma rely_trans: "rely u v \<Longrightarrow> rely v w \<Longrightarrow> rely u w"
  unfolding rely_def by (rule store.extends_trans)

text \<open>
  A call is safe at a world for a claim about its end: while others let the records grow, each of
  its steps is allowed, and when it ends the claim holds.
\<close>

primrec safe :: "(dest_file, 'a) call \<Rightarrow> prims \<Rightarrow> ('a res \<Rightarrow> dest_file world \<Rightarrow> bool) \<Rightarrow> dest_file world \<Rightarrow> bool" where
  "safe (Ended r) = (\<lambda>P Q w. \<forall>v. rely w v \<longrightarrow> Q r v)"
| "safe (Step f) = (\<lambda>P Q w. \<forall>v. rely w v \<longrightarrow> (case map_prod safe id (f v) of (s, v') \<Rightarrow> allowed P v v' \<and> s P Q v'))"

lemma safe_later: "safe c P Q w \<Longrightarrow> rely w v \<Longrightarrow> safe c P Q v"
  by (cases c) (auto intro: rely_trans)

lemma safe_Step: "safe (Step f) P Q w \<Longrightarrow> rely w v \<Longrightarrow> f v = (c, v') \<Longrightarrow> allowed P v v' \<and> safe c P Q v'"
  by (fastforce split: prod.splits)

lemma safe_StepI: "(\<And>v c v'. rely w v \<Longrightarrow> f v = (c, v') \<Longrightarrow> allowed P v v' \<and> safe c P Q v') \<Longrightarrow> safe (Step f) P Q w"
  by (auto simp: map_prod_def split: prod.splits)

lemma safe_bind:
  assumes "safe c P R w"
    and "\<And>v x. rely w v \<Longrightarrow> R (Inr x) v \<Longrightarrow> safe (k x) P Q v"
    and "\<And>v e. rely w v \<Longrightarrow> R (Inl e) v \<Longrightarrow> Q (Inl e) v"
  shows "safe (bindC c k) P Q w"
  using assms
proof (induction c arbitrary: w rule: call_steps)
  case (Ended r)
  from Ended.prems(1) have "R r w" by simp
  with Ended.prems show ?case by (cases r) (auto simp: bindC.simps)
next
  case (Step f)
  show ?case unfolding bindC.simps
  proof (rule safe_StepI)
    fix v b v'
    assume v: "rely w v" and fv: "map_prod (\<lambda>c. bindC c k) id (f v) = (b, v')"
    then obtain c where c: "f v = (c, v')" "b = bindC c k" by (cases "f v") auto
    from safe_Step [OF Step.prems(1) v c(1)] have st: "allowed P v v'" "safe c P R v'" by auto
    then have "rely w v'" using v by (auto simp: allowed_def intro: rely_trans)
    then have "safe (bindC c k) P Q v'"
      by (intro Step.IH [OF c(1) st(2)] Step.prems(2,3)) (blast intro: rely_trans)+
    with st c show "allowed P v v' \<and> safe b P Q v'" by simp
  qed
qed

text \<open>A claim that others keep is kept.\<close>

lemma safe_frame:
  assumes "safe c P R w" "I w" "\<And>u v. I u \<Longrightarrow> rely u v \<Longrightarrow> I v"
  shows "safe c P (\<lambda>r v. R r v \<and> I v) w"
  using assms(1,2)
proof (induction c arbitrary: w rule: call_steps)
  case (Ended r)
  then show ?case using assms(3) by auto
next
  case (Step f)
  show ?case
  proof (rule safe_StepI)
    fix v c v'
    assume v: "rely w v" "f v = (c, v')"
    from safe_Step [OF Step.prems(1) v] have st: "allowed P v v'" "safe c P R v'" by auto
    then have "I v'" using Step.prems(2) assms(3) v(1) by (meson allowed_def)
    with st Step.IH [OF v(2)] show "allowed P v v' \<and> safe c P (\<lambda>r v. R r v \<and> I v) v'" by auto
  qed
qed

lemma safe_atom:
  assumes "\<And>v r v'. rely w v \<Longrightarrow> m v = (r, v') \<Longrightarrow> allowed P v v' \<and> (\<forall>u. rely v' u \<longrightarrow> Q r u)"
  shows "safe (atom m) P Q w"
  unfolding atom_def by (rule safe_StepI) (use assms in \<open>fastforce simp: map_prod_def split: prod.splits\<close>)

text \<open>Calls that leave the destination alone.\<close>

definition harmless :: "(dest_file, 'a) call \<Rightarrow> bool" where
  "harmless c \<longleftrightarrow> (\<forall>P w. safe c P (\<lambda>r v. True) w)"

named_theorems harmless_intros "calls that leave the destination alone"

lemma harmless_Ended [harmless_intros]: "harmless (Ended r)"
  by (simp add: harmless_def)

lemma harmless_bind: "harmless c \<Longrightarrow> (\<And>x. harmless (k x)) \<Longrightarrow> harmless (bindC c k)"
  unfolding harmless_def by (meson safe_bind)

lemma harmless_atom: "keeps_dest m \<Longrightarrow> extends_store m \<Longrightarrow> harmless (atom m)"
  unfolding harmless_def
  by (auto intro!: safe_atom simp: allowed_def rely_def dest: keeps_destD extends_storeD)

lemma harmless_atoms [harmless_intros]: "harmless (atom (nowA P))" "harmless (atom (uuidA P))"
  "harmless (atom (recordA e))" "harmless (atom loadA)" "harmless (atom (observeA P D i))"
  by (auto intro!: harmless_atom keeps extending)

lemma harmless_now [harmless_intros]: "harmless (given_or_now_steps P now)"
  by (auto simp: given_or_now_steps_def intro: harmless_intros split: option.split)

lemma harmless_decide [harmless_intros]: "harmless (decide_steps P cfg p now)"
  by (auto simp: decide_steps_def Let_def intro!: harmless_bind harmless_intros split: prod.split)

lemma harmless_reconcile [harmless_intros]: "harmless (reconcile_steps P cfg D i now)"
  by (auto simp: reconcile_steps_def reconcile_observation_steps_def Let_def
      intro!: harmless_bind harmless_intros split: sum.split)

lemma harmless_already_there [harmless_intros]: "harmless (already_there_steps P s t st ex)"
  by (auto simp: already_there_steps_def Let_def intro!: harmless_bind harmless_intros)

lemma harmless_safe: "harmless c \<Longrightarrow> safe c P (\<lambda>r v. True) w"
  by (simp add: harmless_def)

section \<open>What \<open>execute\<close> guarantees\<close>

definition on_record :: "decision \<Rightarrow> dest_file world \<Rightarrow> bool" where
  "on_record s w \<longleftrightarrow> (\<exists>rr. w_store w = Document rr \<and> s \<in> set (rr_decisions rr))"

definition started :: "attempt \<Rightarrow> dest_file world \<Rightarrow> bool" where
  "started a w \<longleftrightarrow> (\<exists>rr. w_store w = Document rr \<and> a \<in> set (rr_attempts rr))"

lemma on_record_later: "on_record s u \<Longrightarrow> rely u v \<Longrightarrow> on_record s v"
  unfolding on_record_def rely_def by (metis extends_document subsetD)

lemma started_later: "started a u \<Longrightarrow> rely u v \<Longrightarrow> started a v"
  unfolding started_def rely_def by (metis extends_document subsetD)

lemma record_attempt:
  "safe (atom (recordA (EAttempt a))) P (\<lambda>r v. r = Inr () \<longrightarrow> started a v) w"
proof (rule safe_atom)
  fix v r and v' :: "dest_file world"
  assume run: "recordA (EAttempt a) v = (r, v')"
  have "allowed P v v'"
    using keeps_destD [OF keeps_basic(7) run] extends_storeD [OF extends_basic(10) run] by (simp add: allowed_def rely_def)
  moreover have "r = Inr () \<Longrightarrow> started a v'"
    using run by (auto simp: act_iff started_def)
  ultimately show "allowed P v v' \<and> (\<forall>u. rely v' u \<longrightarrow> r = Inr () \<longrightarrow> started a u)"
    using started_later by blast
qed

text \<open>A dispatch on a decision of record, for the binding the proposal resolves to.\<close>

lemma safe_dispatch:
  assumes s: "on_record s w" "d_result s = Authorized" "d_binding s = Some b" "d_effect_id s = effect_id P b"
    and c: "resolve P cfg p t = Inr ([], Some c)" "binding_eq c b"
  shows "safe (dispatch_steps P cfg (local_destination P) p s c t lose part) P (\<lambda>r v. True) w"
proof -
  define q where "q = request_of p s c lose part"
  note same = binding_eq_fields [OF c(2)] and req = resolved_request [OF c(1)]
  have submit: "safe (atom (submitA (local_destination P) q)) P (\<lambda>r v. True) v"
    if a: "on_record s v" "started a v" "a_effect_id a = d_effect_id s" "a_decision_id a = d_decision_id s"
      "a_status a = Attempted" for a v
  proof (rule safe_atom)
    fix u r and u' :: "dest_file world"
    assume u: "rely v u" and run: "submitA (local_destination P) q u = (r, u')"
    from on_record_later [OF a(1) u] started_later [OF a(2) u] obtain rr where rr: "w_store u = Document rr"
      "s \<in> set (rr_decisions rr)" "a \<in> set (rr_attempts rr)" by (auto simp: on_record_def started_def)
    have "backed P rr (rq_effect_id q) (effect_of_request q)"
      unfolding backed_def
      by (rule bexI [OF _ rr(2)], rule exI [of _ b], rule bexI [OF _ rr(3)])
        (use s a req in \<open>simp add: q_def request_of_def effect_of_request_def same\<close>)
    moreover have "\<exists>s\<in>set (rr_decisions rr). \<exists>b. d_result s = Authorized \<and> d_binding s = Some b \<and>
        b_grant_id b = rq_grant_id q \<and> rq_max_effects q = b_effective_max_effects b"
      by (rule bexI [OF _ rr(2)], rule exI [of _ b]) (use s in \<open>simp add: q_def request_of_def same\<close>)
    ultimately have "licensed P rr q" unfolding licensed_def by blast
    moreover have "w_dest u' = snd (local_apply q (w_dest u))"
      using run by (auto simp: submitA_def local_destination_def split: prod.splits)
    ultimately show "allowed P u u' \<and> (\<forall>u. rely u' u \<longrightarrow> True)"
      using rr(1) extends_storeD [OF extends_basic(8) run] by (auto simp: allowed_def rely_def)
  qed
  show ?thesis unfolding dispatch_steps_def Let_def q_def [symmetric]
  proof (rule safe_bind [OF harmless_safe [OF harmless_atoms(2)]])
    fix v i
    assume v: "rely w v"
    define a where "a = new_attempt P i s t Attempted []"
    have a: "a_effect_id a = d_effect_id s" "a_decision_id a = d_decision_id s" "a_status a = Attempted"
      by (simp_all add: a_def new_attempt_def)
    show "safe (bindC (atom (recordA (EAttempt (new_attempt P i s t Attempted [])))) (\<lambda>_.
          bindC (atom (submitA (local_destination P) q)) (\<lambda>outcome.
          bindC (atom (recordA (EAttempt (settle (new_attempt P i s t Attempted []) part outcome)))) (\<lambda>_.
          bindC (reconcile_steps P cfg (local_destination P) (d_effect_id s) (Some t)) (\<lambda>post.
            returnC (settle (new_attempt P i s t Attempted []) part outcome,
              if rec_observation_accepted post then rec_observation post else None)))))) P (\<lambda>r v. True) v"
      unfolding a_def [symmetric]
    proof (rule safe_bind [OF record_attempt])
      fix u x
      assume u: "rely v u" "Inr x = Inr () \<longrightarrow> started a u"
      have "on_record s u" by (rule on_record_later [OF s(1) rely_trans [OF v u(1)]])
      moreover have "started a u" using u(2) by simp
      ultimately show "safe (bindC (atom (submitA (local_destination P) q)) (\<lambda>outcome.
          bindC (atom (recordA (EAttempt (settle a part outcome)))) (\<lambda>_.
          bindC (reconcile_steps P cfg (local_destination P) (d_effect_id s) (Some t)) (\<lambda>post.
            returnC (settle a part outcome,
              if rec_observation_accepted post then rec_observation post else None))))) P (\<lambda>r v. True) u"
        by (intro safe_bind [OF submit [OF _ _ a]] harmless_safe harmless_bind harmless_intros) simp_all
    qed simp
  qed simp
qed

lemma safe_perform:
  assumes "on_record s w" "d_result s = Authorized" "d_binding s = Some b" "d_effect_id s = effect_id P b"
    and "resolve P cfg p t = Inr ([], Some c)" "binding_eq c b"
  shows "safe (perform_steps P cfg (local_destination P) p s c t lose part) P (\<lambda>r v. True) w"
proof -
  have "safe (dispatch_steps P cfg (local_destination P) p s c t lose part) P (\<lambda>r v. True) v" if "rely w v" for v
    by (rule safe_dispatch [OF on_record_later [OF assms(1) that] assms(2-6)])
  moreover have "safe x P (\<lambda>r v. True) v" if "harmless x" for x :: "(dest_file, attempt \<times> observation option) call" and v
    using that by (rule harmless_safe)
  ultimately show ?thesis
    unfolding perform_steps_def Let_def
    by (intro safe_bind [OF harmless_safe [OF harmless_atoms(4)]] safe_bind [OF harmless_safe [OF harmless_reconcile]])
      (auto intro: harmless_intros rely_trans)
qed

text \<open>What the second resolution passes on.\<close>

lemma safe_revalidate:
  "safe (revalidate_steps P cfg p s b t) P
     (\<lambda>r v. \<forall>c. r = Inr c \<longrightarrow> resolve P cfg p t = Inr ([], Some c) \<and> binding_eq c b) w"
proof (cases "resolve P cfg p t")
  case (Inl e)
  then show ?thesis by (simp add: revalidate_steps_def bindC.simps)
next
  case (Inr x)
  obtain reasons current where x: "x = (reasons, current)" by (cases x)
  have refused: "safe (refuse_steps P cfg p s b t rs) P (\<lambda>r v. \<forall>c. r = Inr c \<longrightarrow> F c) u" for rs F u
    unfolding refuse_steps_def
    by (intro safe_bind [OF harmless_safe [OF harmless_atoms(2)]] safe_bind [OF harmless_safe [OF harmless_Ended]]
        safe_bind [OF harmless_safe [OF harmless_atoms(3)]]) (simp_all add: throw_msg_def)
  show ?thesis
    using Inr by (auto simp: revalidate_steps_def bindC.simps x Let_def option_eq_Some intro: refused)
qed

lemma safe_execute: "safe (execute_steps P cfg (local_destination P) p d ad now lose part) P (\<lambda>r v. True) w"
  unfolding execute_steps_def
proof (rule safe_bind [OF harmless_safe [OF harmless_now]])
  fix v :: "dest_file world" and t
  have look: "safe (atom (\<lambda>w. (store_decision (d_decision_id d) (w_store w), w))) P
      (\<lambda>r u. \<forall>s. r = Inr (Some s) \<longrightarrow> on_record s u) v"
  proof (rule safe_atom)
    fix u r and u' :: "dest_file world"
    assume "(store_decision (d_decision_id d) (w_store u), u) = (r, u')"
    then have r: "r = store_decision (d_decision_id d) (w_store u)" and u': "u' = u" by auto
    have "on_record s u" if "r = Inr (Some s)" for s
      using store_decision_Some [of _ _ s] that unfolding r on_record_def by blast
    then show "allowed P u u' \<and> (\<forall>x. rely u' x \<longrightarrow> (\<forall>s. r = Inr (Some s) \<longrightarrow> on_record s x))"
      unfolding u' by (simp add: allowed_def) (blast intro: on_record_later)
  qed
  show "safe (bindC (atom (\<lambda>w. (store_decision (d_decision_id d) (w_store w), w)))
      (\<lambda>found. bindC (Ended (check_persisted P d found))
         (\<lambda>(s, b). bindC (revalidate_steps P cfg p s b t)
            (\<lambda>c. if ad \<noteq> b_adapter_id c then raiseC PermissionError ''adapter substitution detected''
                  else perform_steps P cfg (local_destination P) p s c t lose part)))) P (\<lambda>r v. True) v"
  proof (rule safe_bind [OF look])
    fix u found
    assume rec: "\<forall>s. Inr found = Inr (Some s) \<longrightarrow> on_record s u"
    show "safe (bindC (Ended (check_persisted P d found))
         (\<lambda>(s, b). bindC (revalidate_steps P cfg p s b t)
            (\<lambda>c. if ad \<noteq> b_adapter_id c then raiseC PermissionError ''adapter substitution detected''
                  else perform_steps P cfg (local_destination P) p s c t lose part))) P (\<lambda>r v. True) u"
    proof (cases "check_persisted P d found")
      case (Inl e)
      then show ?thesis by (simp add: bindC.simps)
    next
      case (Inr sb)
      obtain s b where sb: "sb = (s, b)" by (cases sb)
      note ok = check_persisted_ok [OF Inr [unfolded sb]]
      have "safe (bindC (revalidate_steps P cfg p s b t)
            (\<lambda>c. if ad \<noteq> b_adapter_id c then raiseC PermissionError ''adapter substitution detected''
                  else perform_steps P cfg (local_destination P) p s c t lose part)) P (\<lambda>r v. True) u"
      proof (rule safe_bind [OF safe_revalidate])
        fix x c
        assume x: "rely u x" and c: "\<forall>c'. Inr c = Inr c' \<longrightarrow> resolve P cfg p t = Inr ([], Some c') \<and> binding_eq c' b"
        have "on_record s x" using rec ok(1) on_record_later [OF _ x] by blast
        with c ok show "safe (if ad \<noteq> b_adapter_id c then raiseC PermissionError ''adapter substitution detected''
                  else perform_steps P cfg (local_destination P) p s c t lose part) P (\<lambda>r v. True) x"
          by (auto intro: safe_perform)
      qed simp
      then show ?thesis by (simp add: Inr sb bindC.simps)
    qed
  qed simp
qed simp

section \<open>The invariant of a pool\<close>

definition sys_inv :: "prims \<Rightarrow> dest_file world \<Rightarrow> bool" where
  "sys_inv P w \<longleftrightarrow> (\<exists>rr. w_store w = Document rr \<and>
     (\<forall>i e. effect_in (w_dest w) i = Some e \<longrightarrow> backed P rr i e) \<and>
     (\<forall>g. capped rr (w_dest w) g) \<and> dest_inv (w_dest w))"

lemma sys_inv_initial: "sys_inv P (initial_world run_id)"
  by (simp add: sys_inv_def initial_world_def dest_inv_empty capped_def)
     (simp add: empty_destination_def grant_used_def)

lemma sys_inv_allowed:
  assumes inv: "sys_inv P w" and step: "allowed P w w'"
  shows "sys_inv P w'"
proof -
  from inv obtain rr where rr: "w_store w = Document rr"
    and bk: "\<And>i e. effect_in (w_dest w) i = Some e \<Longrightarrow> backed P rr i e"
    and cap: "\<And>g. capped rr (w_dest w) g" and di: "dest_inv (w_dest w)"
    by (auto simp: sys_inv_def)
  from step [unfolded allowed_def rely_def rr] obtain rr' where rr': "w_store w' = Document rr'"
      "set (rr_decisions rr) \<subseteq> set (rr_decisions rr')" "set (rr_attempts rr) \<subseteq> set (rr_attempts rr')"
    by (auto elim: extends_document)
  from step consider (quiet) "w_dest w' = w_dest w"
    | (applied) q where "licensed P rr q" "w_dest w' = snd (local_apply q (w_dest w))"
    using rr by (auto simp: allowed_def)
  then show ?thesis
  proof cases
    case quiet
    with bk cap di rr' show ?thesis unfolding sys_inv_def by (metis backed_mono capped_mono)
  next
    case applied
    from applied(1) have new: "backed P rr (rq_effect_id q) (effect_of_request q)" by (simp add: licensed_def)
    have "backed P rr' i e" if "effect_in (w_dest w') i = Some e" for i e
      using local.submit_origin [of q "w_dest w" i e] that new bk backed_mono [OF _ rr'(2,3)]
      unfolding applied(2) by blast
    moreover have "capped rr' (w_dest w') g" for g
    proof (cases "g = rq_grant_id q")
      case True
      have "capped rr (w_dest w') g"
        unfolding applied(2) True by (rule capped_submit [OF cap applied(1)])
      then show ?thesis by (rule capped_mono [OF _ rr'(2) refl])
    next
      case False
      from local.used_other [OF this] applied(2) show ?thesis by (metis cap capped_mono rr'(2))
    qed
    moreover have "dest_inv (w_dest w')" unfolding applied(2) by (rule dest_inv_apply [OF di])
    ultimately show ?thesis using rr'(1) by (auto simp: sys_inv_def)
  qed
qed

definition pool_safe :: "prims \<Rightarrow> pool \<Rightarrow> dest_file world \<Rightarrow> bool" where
  "pool_safe P calls w \<longleftrightarrow> (\<forall>k c. calls k = Some c \<longrightarrow> safe c P (\<lambda>r v. True) w)"

lemma pool_safe_start: "pool_safe P calls w \<Longrightarrow> safe c P (\<lambda>r v. True) w \<Longrightarrow> pool_safe P (calls(k \<mapsto> c)) w"
  by (auto simp: pool_safe_def)

lemma safe_quietly: "safe c P (\<lambda>r v. True) w \<Longrightarrow> safe (quietly c) P (\<lambda>r v. True) w"
  unfolding quietly_def by (rule safe_bind) auto

lemma pool_invariant:
  assumes "pool_step P (calls, w) (calls', w')" "sys_inv P w" "pool_safe P calls w"
  shows "sys_inv P w' \<and> pool_safe P calls' w'"
  using assms(1)
proof (cases rule: pool_stepE)
  case (decide k cfg p now)
  have "safe (quietly (decide_steps P cfg p now)) P (\<lambda>r v. True) w"
    by (rule safe_quietly [OF harmless_safe [OF harmless_decide]])
  with decide assms show ?thesis by (simp add: pool_safe_start)
next
  case (execute k cfg p d ad now lose part)
  have "safe (quietly (execute_steps P cfg (local_destination P) p d ad now lose part)) P (\<lambda>r v. True) w"
    by (rule safe_quietly [OF safe_execute])
  with execute assms show ?thesis by (simp add: pool_safe_start)
next
  case (reconcile k cfg i now)
  have "safe (quietly (reconcile_steps P cfg (local_destination P) i now)) P (\<lambda>r v. True) w"
    by (rule safe_quietly [OF harmless_safe [OF harmless_reconcile]])
  with reconcile assms show ?thesis by (simp add: pool_safe_start)
next
  case (advance k f c)
  from assms(3) advance(2) have "safe (Step f) P (\<lambda>r v. True) w" unfolding pool_safe_def by blast
  from safe_Step [OF this rely_refl advance(3)] have step: "allowed P w w'" "safe c P (\<lambda>r v. True) w'" by auto
  then have "rely w w'" by (simp add: allowed_def)
  with assms(3) have "pool_safe P calls w'" unfolding pool_safe_def by (blast intro: safe_later)
  with step sys_inv_allowed [OF assms(2)] advance show ?thesis by (simp add: pool_safe_start)
next
  case (leave k c)
  with assms show ?thesis by (auto simp: pool_safe_def)
qed

lemma reachable_inv: "reachable P calls w \<Longrightarrow> sys_inv P w \<and> pool_safe P calls w"
proof (induction rule: reachable.induct)
  case (reach_init run_id)
  show ?case by (simp add: sys_inv_initial pool_safe_def)
next
  case (reach_step calls w calls' w')
  then show ?case using pool_invariant by blast
qed

end
