(* ===== verification/System.thy ===== *)
theory System
  imports Interleaving
begin

text \<open>
  The system over time. Overlapping calls, in the steps of \<open>Interleaving\<close>: what holds of the
  destination in every state they can reach. Then calls that do not overlap, as whole steps: a
  dispatch is then started once per effect, which overlapping calls do not guarantee (lemma
  \<open>overlapping_calls_start_twice\<close>; the documentation claims no atomic workflow).
\<close>

section \<open>Calls one after the other\<close>

inductive sys_step :: "prims \<Rightarrow> dest_file world \<Rightarrow> dest_file world \<Rightarrow> bool" for P where
  sys_decide: "sys_step P w (snd (decide P cfg p now w))"
| sys_execute: "sys_step P w (snd (execute P cfg (local_destination P) p d ad now lose part w))"
| sys_reconcile: "sys_step P w (snd (reconcile P cfg (local_destination P) i now w))"

inductive serially_reachable :: "prims \<Rightarrow> dest_file world \<Rightarrow> bool" for P where
  serial_init: "serially_reachable P (initial_world run_id)"
| serial_step: "serially_reachable P w \<Longrightarrow> sys_step P w w' \<Longrightarrow> serially_reachable P w'"

inductive_cases sys_stepE [consumes 1, case_names sys_decide sys_execute sys_reconcile]: "sys_step P w w'"
inductive_simps sys_step_iff: "sys_step P w w'"

text \<open>A call of a pool that nobody interrupts.\<close>

inductive own_step :: "('d, 'a) call \<times> 'd world \<Rightarrow> ('d, 'a) call \<times> 'd world \<Rightarrow> bool" where
  own_step: "f w = (c, w') \<Longrightarrow> own_step (Step f, w) (c, w')"

abbreviation own_steps :: "('d, 'a) call \<times> 'd world \<Rightarrow> ('d, 'a) call \<times> 'd world \<Rightarrow> bool" where
  "own_steps \<equiv> own_step\<^sup>*\<^sup>*"

lemma own_step_bind: "own_step (c, w) (c', w') \<Longrightarrow> own_step (bindC c k, w) (bindC c' k, w')"
  by (auto simp: own_step.simps bindC.simps)

lemma own_steps_bind: "own_steps (c, w) (c', w') \<Longrightarrow> own_steps (bindC c k, w) (bindC c' k, w')"
proof (induction "(c', w')" arbitrary: c' w' rule: rtranclp_induct)
  case (step y)
  obtain d v where y: "y = (d, v)" by (cases y)
  with step have "own_steps (bindC c k, w) (bindC d k, v)" "own_step (bindC d k, v) (bindC c' k, w')"
    by (auto intro: own_step_bind)
  then show ?case by simp
qed simp

lemma own_run: "run c w = (r, w') \<Longrightarrow> own_steps (c, w) (Ended r, w')"
proof (induction c arbitrary: w rule: call_steps)
  case (Ended r')
  then show ?case by (simp add: run.simps)
next
  case (Step f)
  obtain c v where c: "f w = (c, v)" by fastforce
  with Step.prems have "run c v = (r, w')" by (simp add: run.simps)
  with Step.IH [OF c] c show ?case by (meson converse_rtranclp_into_rtranclp own_step)
qed

text \<open>Running the first part of a call, and going on.\<close>

lemma own_first: "run c w = (Inr x, w') \<Longrightarrow> own_steps (k x, w') y \<Longrightarrow> own_steps (bindC c k, w) y"
  using own_steps_bind [OF own_run, of c w "Inr x" w' k] by (simp add: bindC.simps)

lemma pool_own:
  assumes "own_steps (c, w) (c', w')" "reachable P calls w" "calls k = Some c"
  shows "reachable P (calls(k \<mapsto> c')) w'"
  using assms(1)
proof (induction "(c', w')" arbitrary: c' w' rule: rtranclp_induct)
  case base
  then show ?case using assms(2,3) by (simp add: fun_upd_idem)
next
  case (step y)
  obtain d v where y: "y = (d, v)" by (cases y)
  with step have r: "reachable P (calls(k \<mapsto> d)) v" by simp
  from step(2) y obtain f where f: "d = Step f" "f v = (c', w')" by (auto elim: own_step.cases)
  have "pool_step P (calls(k \<mapsto> d), v) ((calls(k \<mapsto> d))(k \<mapsto> c'), w')"
    by (rule advance [of _ _ f]) (simp_all add: f)
  with r show ?case by (auto intro: reach_step)
qed

lemma pool_call:
  assumes "reachable P Map.empty w" "pool_step P (Map.empty, w) ([0 \<mapsto> quietly c], w)" "run c w = (r, w')"
  shows "reachable P Map.empty w'"
proof -
  obtain x where x: "run (quietly c) w = (x, w')"
    using assms(3) by (cases r) (auto simp: quietly_def bindA_def run_Ended returnA_def)
  have "reachable P [0 \<mapsto> quietly c] w" by (rule reach_step [OF assms(1,2)])
  from pool_own [OF own_run [OF x] this, of 0] have "reachable P [0 \<mapsto> Ended x] w'" by simp
  moreover have "pool_step P ([0 \<mapsto> Ended x], w') ([0 \<mapsto> Ended x](0 := None), w')" by (rule leave) simp
  ultimately show ?thesis using reach_step by fastforce
qed

text \<open>What calls reach one after the other they reach in a pool.\<close>

lemma serial_in_pool: "serially_reachable P w \<Longrightarrow> reachable P Map.empty w"
proof (induction rule: serially_reachable.induct)
  case (serial_init run_id)
  show ?case by (rule reach_init)
next
  case (serial_step w w')
  from serial_step(2) show ?case
  proof (cases rule: sys_stepE)
    case (sys_decide cfg p now)
    have "pool_step P (Map.empty, w) ([0 \<mapsto> quietly (decide_steps P cfg p now)], w)" by (rule start_decide) simp
    from pool_call [OF serial_step.IH this] sys_decide show ?thesis by (metis run_decide prod.collapse)
  next
    case (sys_execute cfg p d ad now lose part)
    have "pool_step P (Map.empty, w)
        ([0 \<mapsto> quietly (execute_steps P cfg (local_destination P) p d ad now lose part)], w)"
      by (rule start_execute) simp
    from pool_call [OF serial_step.IH this] sys_execute show ?thesis by (metis run_execute prod.collapse)
  next
    case (sys_reconcile cfg i now)
    have "pool_step P (Map.empty, w) ([0 \<mapsto> quietly (reconcile_steps P cfg (local_destination P) i now)], w)"
      by (rule start_reconcile) simp
    from pool_call [OF serial_step.IH this] sys_reconcile show ?thesis by (metis run_reconcile prod.collapse)
  qed
qed

section \<open>One dispatch per effect\<close>

text \<open>The effects for which a dispatch was started, in the order of the record file.\<close>

definition attempted_ids :: "run_record \<Rightarrow> string list" where
  "attempted_ids rr = map a_effect_id (filter (\<lambda>a. a_status a = Attempted) (rr_attempts rr))"

text \<open>Actions that keep the record file readable and start no dispatch.\<close>

definition starts_nothing :: "('d, 'a) act \<Rightarrow> bool" where
  "starts_nothing m \<longleftrightarrow> (\<forall>w rr. w_store w = Document rr \<longrightarrow>
     (\<exists>rr'. w_store (snd (m w)) = Document rr' \<and> attempted_ids rr' = attempted_ids rr))"

named_theorems starting "actions that start no dispatch"

lemma starts_nothingD:
  "starts_nothing m \<Longrightarrow> m w = (r, w') \<Longrightarrow> w_store w = Document rr \<Longrightarrow>
     \<exists>rr'. w_store w' = Document rr' \<and> attempted_ids rr' = attempted_ids rr"
  unfolding starts_nothing_def by (metis snd_conv)

lemma starts_bindA: "starts_nothing m \<Longrightarrow> (\<And>x. starts_nothing (f x)) \<Longrightarrow> starts_nothing (bindA m f)"
  unfolding starts_nothing_def bindA_def by (auto split: prod.splits sum.splits) (metis snd_conv)+

lemma starts_basic [starting]: "starts_nothing (returnA x)" "starts_nothing (liftA r)"
  "starts_nothing (raiseA c s)" "starts_nothing (nowA P)" "starts_nothing (given_or_now P t)"
  "starts_nothing (uuidA P)" "starts_nothing loadA" "starts_nothing (observeA P D i)"
  "starts_nothing (recordA (EDecision d))" "starts_nothing (recordA (ERefusal rf))"
  "starts_nothing (recordA (EObservation ob))" "starts_nothing (recordA (EReconciliation rc))"
  "a_status a \<noteq> Attempted \<Longrightarrow> starts_nothing (recordA (EAttempt a))"
  "starts_nothing (\<lambda>w. (store_decision i (w_store w), w))"
  by (auto simp: starts_nothing_def act_defs store_append_def attempted_ids_def split: option.splits)

lemma starts_observe [starting]: "starts_nothing (observe_and_reconcile P cfg D i now)"
  by (auto simp: observe_and_reconcile_def reconcile_observation_def Let_def
      intro!: starts_bindA starting split: sum.splits)

lemma starts_decide [starting]: "starts_nothing (decide P cfg p now)"
  by (auto simp: decide_def Let_def intro!: starts_bindA starting split: prod.splits)

lemma starts_revalidate [starting]: "starts_nothing (revalidate P cfg p s b t)"
  by (auto simp: revalidate_def refuse_def Let_def intro!: starts_bindA starting split: prod.splits)

lemma starts_already_there [starting]: "st \<noteq> Attempted \<Longrightarrow> starts_nothing (already_there P s t st ex)"
  by (auto simp: already_there_def new_attempt_def Let_def intro!: starts_bindA starting)

text \<open>A dispatch starts itself, once.\<close>

lemma dispatch_starts:
  assumes "dispatch P cfg D p s c t lose part w = (r, w')" "w_store w = Document rr"
  shows "\<exists>rr'. w_store w' = Document rr' \<and> attempted_ids rr' = attempted_ids rr @ [d_effect_id s]"
proof -
  from dispatch_total [OF assms(2), of P cfg D p s c t lose part] assms(1) obtain a seen where "r = Inr (a, seen)" by fastforce
  from dispatch_journals_attempt_core [OF assms(1) [unfolded this]] assms(2) show ?thesis
    by (auto simp: attempted_ids_def split: sum.splits if_splits)
qed

text \<open>Actions that start at most one dispatch, and only of an effect never dispatched before.\<close>

definition starts_fresh :: "('d, 'a) act \<Rightarrow> bool" where
  "starts_fresh m \<longleftrightarrow> (\<forall>w rr. w_store w = Document rr \<longrightarrow>
     (\<exists>rr'. w_store (snd (m w)) = Document rr' \<and> (attempted_ids rr' = attempted_ids rr \<or>
        (\<exists>i. attempted_ids rr' = attempted_ids rr @ [i] \<and> i \<notin> set (attempted_ids rr)))))"

lemma starts_nothing_fresh: "starts_nothing m \<Longrightarrow> starts_fresh m"
  unfolding starts_nothing_def starts_fresh_def by blast

lemma fresh_bindA: "starts_nothing m \<Longrightarrow> (\<And>x. starts_fresh (f x)) \<Longrightarrow> starts_fresh (bindA m f)"
  unfolding starts_nothing_def starts_fresh_def bindA_def
  by (auto split: prod.splits sum.splits) (metis snd_conv)+

lemma starts_fresh_perform: "starts_fresh (perform P cfg D p s c t lose part)"
  unfolding starts_fresh_def
proof (intro allI impI)
  fix w :: "'a world" and rr
  assume rr: "w_store w = Document rr"
  obtain r w' where run: "perform P cfg D p s c t lose part w = (r, w')" by fastforce
  obtain rec w1 where obs: "observe_and_reconcile P cfg D (d_effect_id s) (Some t) w = (Inr rec, w1)"
    using observe_and_reconcile_total [OF rr] by blast
  from observe_and_reconcile_attempts [OF obs rr] obtain rr1 where
    rr1: "w_store w1 = Document rr1" "rr_attempts rr1 = rr_attempts rr" by blast
  define next' where "next' = (
        if rec_result rec = RecApplied then already_there P s t Acknowledged (rec_observation rec)
        else if (case rec_observation rec of None \<Rightarrow> False | Some obs \<Rightarrow> o_state obs = ObsPartial)
                \<and> rec_observation_accepted rec
          then already_there P s t AttemptPartial (rec_observation rec)
        else if rec_result rec \<noteq> RecObservedAbsent
          then raiseA PermissionError ''destination observation is not valid for effect dispatch''
        else if filter (\<lambda>a. a_effect_id a = d_effect_id s) (rr_attempts rr) \<noteq> []
          then raiseA PermissionError
            ''observed absence does not establish retry eligibility after a prior attempt''
        else dispatch P cfg D p s c t lose part)"
  have step: "next' w1 = (r, w')"
    using run obs rr
    by (simp add: perform_def bindA_def loadA_def store_load_def Let_def next'_def)
  have "starts_nothing next' \<or> next' = dispatch P cfg D p s c t lose part \<and>
     (\<forall>a\<in>set (rr_attempts rr). a_effect_id a \<noteq> d_effect_id s)"
    by (auto simp: next'_def starting filter_empty_conv)
  then show "\<exists>rr'. w_store (snd (perform P cfg D p s c t lose part w)) = Document rr' \<and>
     (attempted_ids rr' = attempted_ids rr \<or>
        (\<exists>i. attempted_ids rr' = attempted_ids rr @ [i] \<and> i \<notin> set (attempted_ids rr)))"
  proof (elim disjE conjE)
    assume "starts_nothing next'"
    from starts_nothingD [OF this step rr1(1)] rr1(2) run show ?thesis by (auto simp: attempted_ids_def)
  next
    assume "next' = dispatch P cfg D p s c t lose part"
      and none: "\<forall>a\<in>set (rr_attempts rr). a_effect_id a \<noteq> d_effect_id s"
    with step have "dispatch P cfg D p s c t lose part w1 = (r, w')" by simp
    from dispatch_starts [OF this rr1(1)] have "\<exists>rr'. w_store w' = Document rr' \<and>
        attempted_ids rr' = attempted_ids rr @ [d_effect_id s]"
      using rr1(2) by (simp add: attempted_ids_def)
    moreover from none have "d_effect_id s \<notin> set (attempted_ids rr)"
      by (fastforce simp: attempted_ids_def)
    ultimately show ?thesis using run by auto
  qed
qed

lemma starts_fresh_execute: "starts_fresh (execute P cfg D p d ad now lose part)"
  unfolding execute_def
  by (intro fresh_bindA starting)
     (auto intro!: fresh_bindA starting starts_fresh_perform intro: starts_nothing_fresh [OF starts_basic(3)]
       split: prod.splits)

lemma sys_step_fresh:
  assumes "sys_step P w w'" "w_store w = Document rr" "distinct (attempted_ids rr)"
  shows "\<exists>rr'. w_store w' = Document rr' \<and> distinct (attempted_ids rr')"
proof -
  have "\<exists>rr'. w_store w' = Document rr' \<and> (attempted_ids rr' = attempted_ids rr \<or>
        (\<exists>i. attempted_ids rr' = attempted_ids rr @ [i] \<and> i \<notin> set (attempted_ids rr)))"
    using assms(1)
  proof (cases rule: sys_stepE)
    case (sys_decide cfg p now)
    with starts_decide [THEN starts_nothing_fresh, unfolded starts_fresh_def] assms(2) show ?thesis by blast
  next
    case (sys_execute cfg p d ad now lose part)
    with starts_fresh_execute [unfolded starts_fresh_def] assms(2) show ?thesis by blast
  next
    case (sys_reconcile cfg i now)
    with starts_observe [THEN starts_nothing_fresh, unfolded starts_fresh_def] assms(2) show ?thesis
      unfolding reconcile_def by blast
  qed
  then show ?thesis
    using assms(3) by fastforce
qed

lemma serially_distinct:
  "serially_reachable P w \<Longrightarrow> \<exists>rr. w_store w = Document rr \<and> distinct (attempted_ids rr)"
  by (induction rule: serially_reachable.induct)
     (use sys_step_fresh in \<open>auto simp: initial_world_def empty_run_record_def attempted_ids_def\<close>)

section \<open>Overlapping calls\<close>

text \<open>
  Two calls of \<open>execute\<close> on the decision of the worked example, each past its look at the records
  and at the destination before the other records its attempt.
\<close>

abbreviation demo_call :: "(dest_file, attempt \<times> observation option) call" where
  "demo_call \<equiv> execute_steps demo_prims (demo_config GrantActive) (local_destination demo_prims) demo_proposal
     demo_decision ''adapter'' (Some demo_now) False False"

abbreviation demo_rest :: "(dest_file, attempt \<times> observation option) call" where
  "demo_rest \<equiv> dispatch_steps demo_prims (demo_config GrantActive) (local_destination demo_prims) demo_proposal
     demo_decision demo_binding demo_now False False"

definition undispatched :: "dest_file world \<Rightarrow> bool" where
  "undispatched w \<longleftrightarrow> w_dest w = empty_destination \<and>
     (\<exists>rr. w_store w = Document rr \<and> rr_decisions rr = [demo_decision] \<and> rr_attempts rr = [])"

lemma demo_looks:
  assumes "undispatched w"
  shows "\<exists>w'. own_steps (demo_call, w) (demo_rest, w') \<and> undispatched w'"
proof -
  from assms obtain rr where w: "w_dest w = empty_destination" "w_store w = Document rr"
    "rr_decisions rr = [demo_decision]" "rr_attempts rr = []" by (auto simp: undispatched_def)
  from demo_look [OF w(1,2)] obtain rec w1 where look:
    "observe_and_reconcile demo_prims (demo_config GrantActive) (local_destination demo_prims)
      (d_effect_id demo_decision) (Some demo_now) w = (Inr rec, w1)" "rec_result rec = RecObservedAbsent"
    "case rec_observation rec of None \<Rightarrow> True | Some obs \<Rightarrow> o_state obs \<noteq> ObsPartial" "w_dest w1 = empty_destination"
    by fastforce
  from observe_and_reconcile_attempts [OF look(1) w(2)] w(3,4) look(4) have "undispatched w1"
    by (auto simp: undispatched_def)
  moreover have "own_steps (demo_call, w) (demo_rest, w1)"
    unfolding execute_steps_def
  proof (rule own_first)
    show "run (given_or_now_steps demo_prims (Some demo_now)) w = (Inr demo_now, w)"
      by (simp add: run_given_or_now given_or_now_def returnA_def)
    have found: "run (atom (\<lambda>w. (store_decision (d_decision_id demo_decision) (w_store w), w))) w = (Inr (Some demo_decision), w)"
      using w by (simp add: store_decision_def store_load_def)
    have check: "run (Ended (check_persisted demo_prims demo_decision (Some demo_decision))) w = (Inr (demo_decision, demo_binding), w)"
      by (simp add: demo_check run.simps(1))
    have again: "run (revalidate_steps demo_prims (demo_config GrantActive) demo_proposal demo_decision demo_binding demo_now) w =
        (Inr demo_binding, w)"
      by (simp add: run_revalidate revalidate_def bindA_def liftA_def demo_resolves demo_binding_eq returnA_def Let_def)
    have load: "run (atom loadA) w = (Inr rr, w)" using w(2) by (simp add: loadA_def store_load_def)
    have seen: "run (reconcile_steps demo_prims (demo_config GrantActive) (local_destination demo_prims)
      (d_effect_id demo_decision) (Some demo_now)) w = (Inr rec, w1)"
      using look(1) by (simp add: run_reconcile reconcile_def)
    have "own_steps (perform_steps demo_prims (demo_config GrantActive) (local_destination demo_prims) demo_proposal
        demo_decision demo_binding demo_now False False, w) (demo_rest, w1)"
      unfolding perform_steps_def Let_def
      by (rule own_first [OF load], rule own_first [OF seen]) (use look w(4) in \<open>auto split: option.splits\<close>)
    moreover have "b_adapter_id demo_binding = ''adapter''" by (simp add: demo_binding_def)
    ultimately show "own_steps (bindC (atom (\<lambda>w. (store_decision (d_decision_id demo_decision) (w_store w), w)))
        (\<lambda>found. bindC (Ended (check_persisted demo_prims demo_decision found))
          (\<lambda>(s, b). bindC (revalidate_steps demo_prims (demo_config GrantActive) demo_proposal s b demo_now)
             (\<lambda>c. if ''adapter'' \<noteq> b_adapter_id c then raiseC PermissionError ''adapter substitution detected''
                  else perform_steps demo_prims (demo_config GrantActive) (local_destination demo_prims)
                    demo_proposal s c demo_now False False))), w) (demo_rest, w1)"
      by (intro own_first [OF found] own_first [OF check]) (simp add: own_first [OF again])
  qed
  ultimately show ?thesis by blast
qed

lemma demo_starts:
  assumes "w_store w = Document rr"
  shows "\<exists>c w' rr'. own_steps (demo_rest, w) (c, w') \<and> w_store w' = Document rr' \<and>
     attempted_ids rr' = attempted_ids rr @ [d_effect_id demo_decision]"
proof -
  define a where "a = new_attempt demo_prims (uuid4 demo_prims (w_uuids w)) demo_decision demo_now Attempted []"
  have ids: "run (atom (uuidA demo_prims)) w = (Inr (uuid4 demo_prims (w_uuids w)), w\<lparr>w_uuids := Suc (w_uuids w)\<rparr>)"
    by (simp add: uuidA_def)
  have rec: "run (atom (recordA (EAttempt a))) (w\<lparr>w_uuids := Suc (w_uuids w)\<rparr>) =
      (Inr (), w\<lparr>w_uuids := Suc (w_uuids w), w_store := Document (add_entry (EAttempt a) rr)\<rparr>)"
    using assms by (simp add: recordA_def store_append_def)
  have "\<exists>c. own_steps (demo_rest, w) (c, w\<lparr>w_uuids := Suc (w_uuids w), w_store := Document (add_entry (EAttempt a) rr)\<rparr>)"
    unfolding dispatch_steps_def Let_def
    by (rule exI, rule own_first [OF ids], unfold a_def [symmetric], rule own_first [OF rec], rule rtranclp.rtrancl_refl)
  then show ?thesis by (fastforce simp: attempted_ids_def a_def new_attempt_def)
qed

lemma quietly_own: "own_steps (c, w) (c', w') \<Longrightarrow> own_steps (quietly c, w) (quietly c', w')"
  unfolding quietly_def by (rule own_steps_bind)

lemma demo_decided_serial: "serially_reachable demo_prims demo_decided"
proof -
  have "demo_world = initial_world ''run''" by (simp add: demo_world_def initial_world_def)
  moreover have "sys_step demo_prims demo_world demo_decided"
    unfolding sys_step_iff using demo_decide by (metis snd_conv)
  ultimately show ?thesis by (metis serial_init serial_step)
qed

lemma overlapping_calls_start_twice:
  "\<exists>calls w rr. reachable demo_prims calls w \<and> w_store w = Document rr \<and> \<not> distinct (attempted_ids rr)"
proof -
  let ?start = "\<lambda>calls k w. pool_step demo_prims (calls, w) (calls(k \<mapsto> quietly demo_call), w)"
  have start: "reachable demo_prims calls w \<Longrightarrow> calls k = None \<Longrightarrow> reachable demo_prims (calls(k \<mapsto> quietly demo_call)) w"
    for calls k w by (erule reach_step) (rule start_execute)
  have "undispatched demo_decided"
    by (simp add: undispatched_def demo_decided_def demo_world_def empty_run_record_def)
  from demo_looks [OF this] obtain w1 where w1: "own_steps (demo_call, demo_decided) (demo_rest, w1)" "undispatched w1"
    by blast
  from demo_looks [OF w1(2)] obtain w2 rr2 where w2: "own_steps (demo_call, w1) (demo_rest, w2)" "w_store w2 = Document rr2"
    by (auto simp: undispatched_def)
  from demo_starts [OF w2(2)] obtain c3 w3 rr3 where w3: "own_steps (demo_rest, w2) (c3, w3)" "w_store w3 = Document rr3"
    "attempted_ids rr3 = attempted_ids rr2 @ [d_effect_id demo_decision]" by blast
  from demo_starts [OF w3(2)] obtain c4 w4 rr4 where w4: "own_steps (demo_rest, w3) (c4, w4)" "w_store w4 = Document rr4"
    "attempted_ids rr4 = attempted_ids rr3 @ [d_effect_id demo_decision]" by blast
  have "reachable demo_prims [0 \<mapsto> quietly demo_call] demo_decided"
    by (rule start [OF serial_in_pool [OF demo_decided_serial]]) simp
  from pool_own [OF quietly_own [OF w1(1)] this, of 0] have "reachable demo_prims [0 \<mapsto> quietly demo_rest] w1" by simp
  from start [OF this, of 1] have "reachable demo_prims [0 \<mapsto> quietly demo_rest, 1 \<mapsto> quietly demo_call] w1" by simp
  from pool_own [OF quietly_own [OF w2(1)] this, of 1]
  have "reachable demo_prims [0 \<mapsto> quietly demo_rest, 1 \<mapsto> quietly demo_rest] w2" by simp
  from pool_own [OF quietly_own [OF w3(1)] this, of 0]
  have "reachable demo_prims ([0 \<mapsto> quietly demo_rest, 1 \<mapsto> quietly demo_rest](0 \<mapsto> quietly c3)) w3" by simp
  from pool_own [OF quietly_own [OF w4(1)] this, of 1] w3(3) w4(2,3) show ?thesis by fastforce
qed

section \<open>Properties\<close>

lemma demo_reachable:
  "\<exists>(w :: dest_file world). serially_reachable demo_prims w \<and>
     effect_in (w_dest w) (d_effect_id demo_decision) \<noteq> None \<and> used_in (w_dest w) ''g'' = 1"
proof -
  from demo_execute obtain a w' where run: "execute demo_prims (demo_config GrantActive)
     (local_destination demo_prims) demo_proposal demo_decision ''adapter'' (Some demo_now) False False
     demo_decided = (Inr a, w')" and d: "w_dest w' \<noteq> w_dest demo_decided" by blast
  have "sys_step demo_prims demo_decided w'"
    using sys_execute [of demo_prims demo_decided "demo_config GrantActive" demo_proposal demo_decision
        "''adapter''" "Some demo_now" False False] by (simp add: run)
  with demo_decided_serial have "serially_reachable demo_prims w'" by (rule serial_step)
  moreover have "effect_in (w_dest w') (d_effect_id demo_decision) \<noteq> None \<and> used_in (w_dest w') ''g'' = 1"
  proof (rule execute_dispatch_facts [OF run d])
    fix s q b
    assume s: "decision_eq s demo_decision" "d_binding s = Some b" and q: "w_dest w' = snd (dst_submit (local_destination demo_prims) q (w_dest demo_decided))"
      "rq_effect_id q = d_effect_id s" "rq_grant_id q = b_grant_id b"
    have g: "rq_grant_id q = ''g''"
    proof -
      from decision_eq_fields(5) [OF s(1)] s(2) have "binding_eq b demo_binding"
        by (simp add: demo_decision_def option_eq_Some)
      from binding_eq_fields [OF this] q(3) show ?thesis by (simp add: demo_binding_def)
    qed
    have start: "w_dest demo_decided = empty_destination" by (simp add: demo_decided_def demo_world_def)
    from q(1) d have "snd (local_apply q (w_dest demo_decided)) \<noteq> w_dest demo_decided"
      by (simp add: local_destination_def)
    then have "effect_in (w_dest w') (rq_effect_id q) \<noteq> None \<and> used_in (w_dest w') (rq_grant_id q) = 1"
      using q(1) start by (cases rule: local_apply_cases [of "w_dest demo_decided" q])
        (auto simp: local_destination_def grant_used_def empty_destination_def)
    with q(2) g decision_eq_fields(2) [OF s(1)] show ?thesis by simp
  qed
  ultimately show ?thesis by blast
qed

text \<open>
  C2. Every effect is backed. However any number of calls of decide, execute and reconcile overlap,
  with any inputs and resolver answers, and whichever of them die half-way, each effect
  the destination holds has in the record file an authorized decision for exactly that effect id,
  grant, target, amount, unit and payload commitment, and an attempt of that decision for it,
  recorded as attempted. The steps between which calls overlap are the transactions of the record
  store and the operations of the destination, which the threads of one process lock.
\<close>

theorem reachable_effects_backed:
  assumes "reachable P calls w" "effect_in (w_dest w) i = Some e"
  shows "\<exists>rr. w_store w = Document rr \<and> backed P rr i e"
  using reachable_inv [OF assms(1)] assms(2) by (auto simp: sys_inv_def)

lemma reachable_effects_backed_witness:
  "\<exists>(w :: dest_file world) rr e. w_store w = Document rr \<and> backed demo_prims rr (d_effect_id demo_decision) e \<and>
     effect_in (w_dest w) (d_effect_id demo_decision) = Some e"
proof -
  from demo_reachable obtain w e where "serially_reachable demo_prims w"
    "effect_in (w_dest w) (d_effect_id demo_decision) = Some e" by auto
  from reachable_effects_backed [OF serial_in_pool [OF this(1)] this(2)] this(2) show ?thesis by blast
qed

text \<open>
  C4. The cap of a grant is cumulative over the life of the destination, however the calls of one
  process overlap: in every reachable state, if the destination holds effects of a grant, their
  number is at most the effective cap some persisted authorized decision for that grant was bound to.
\<close>

theorem reachable_grant_cap:
  assumes "reachable P calls w"
  shows "\<exists>rr. w_store w = Document rr \<and>
     (card {i. \<exists>e. effect_in (w_dest w) i = Some e \<and> ef_grant_id e = g} = 0 \<or>
      (\<exists>s\<in>set (rr_decisions rr). \<exists>b. d_result s = Authorized \<and> d_binding s = Some b \<and> b_grant_id b = g \<and>
         int (card {i. \<exists>e. effect_in (w_dest w) i = Some e \<and> ef_grant_id e = g}) \<le> b_effective_max_effects b))"
proof -
  from reachable_inv [OF assms] obtain rr where rr: "w_store w = Document rr"
    and cap: "capped rr (w_dest w) g" and inv: "dest_inv (w_dest w)"
    by (auto simp: sys_inv_def)
  have "used_in (w_dest w) g = int (card {i. \<exists>e. effect_in (w_dest w) i = Some e \<and> ef_grant_id e = g})"
    using inv by (cases "w_dest w") (auto simp: dest_inv_def)
  with rr cap show ?thesis by (auto simp: capped_def)
qed

text \<open>The worked example has used up its cap of one.\<close>

lemma reachable_grant_cap_witness:
  "\<exists>(w :: dest_file world) rr. w_store w = Document rr \<and>
     card {i. \<exists>e. effect_in (w_dest w) i = Some e \<and> ef_grant_id e = ''g''} = 1 \<and>
     (\<exists>s\<in>set (rr_decisions rr). \<exists>b. d_result s = Authorized \<and> d_binding s = Some b \<and> b_grant_id b = ''g'' \<and>
        1 \<le> b_effective_max_effects b)"
proof -
  from demo_reachable obtain w where w: "serially_reachable demo_prims w" "used_in (w_dest w) ''g'' = 1" by blast
  note pool = serial_in_pool [OF w(1)]
  from reachable_inv [OF pool] have "dest_inv (w_dest w)" by (auto simp: sys_inv_def)
  with w(2) have one: "card {i. \<exists>e. effect_in (w_dest w) i = Some e \<and> ef_grant_id e = ''g''} = 1"
    by (cases "w_dest w") (auto simp: dest_inv_def)
  from reachable_grant_cap [OF pool, of "''g''"] show ?thesis unfolding one
    by (intro exI [of _ w]) (auto simp: one)
qed

text \<open>
  C3. At most one dispatch per effect, as long as calls do not overlap: after any calls of decide,
  execute and reconcile one after the other, the record file is readable and no effect id has
  two attempts recorded as attempted. The whole workflow is not atomic: two overlapping calls can
  each start an attempt (lemma \<open>overlapping_calls_start_twice\<close>), of which the destination applies one.
\<close>

theorem serial_single_dispatch:
  assumes "serially_reachable P w"
  shows "\<exists>rr. w_store w = Document rr \<and> distinct (attempted_ids rr)"
  using serially_distinct [OF assms] .

lemma serial_single_dispatch_witness:
  "\<exists>(w :: dest_file world) rr. w_store w = Document rr \<and> distinct (attempted_ids rr) \<and>
     effect_in (w_dest w) (d_effect_id demo_decision) \<noteq> None"
proof -
  from demo_reachable obtain w where w: "serially_reachable demo_prims w"
    "effect_in (w_dest w) (d_effect_id demo_decision) \<noteq> None" by blast
  from serial_single_dispatch [OF w(1)] w(2) show ?thesis by blast
qed

end
