(* ===== verification/StoreConcurrency.thy ===== *)
theory StoreConcurrency
  imports RecordStore
begin

text \<open>
  The transactions of \<open>BoundedRecordStore\<close> (\<open>_transaction\<close>, \<open>_append\<close>, \<open>_write\<close>, \<open>load\<close>) at the
  grain of their system calls, run by any number of processes that may die between any two of
  them: take the exclusive lock on the sidecar file, read the document, write and sync a temporary
  file, rename it over the document, let go of the lock. The kernel's part is in the steps: one
  holder of the lock at a time, released when its process dies, and an atomic rename. The
  theorems show that this implements the atomic \<open>store_append\<close> of \<open>RecordStore\<close>.
\<close>

section \<open>States and steps\<close>

datatype phase =
    Idle
  | Waiting entry
  | Locked entry
  | Loaded entry run_record
  | Staged entry run_record
  | Replaced entry
  | ReadWaiting
  | ReadLocked
  | ReadDone run_record

fun holds_lock :: "phase \<Rightarrow> bool" where
  "holds_lock Idle = False"
| "holds_lock (Waiting e) = False"
| "holds_lock ReadWaiting = False"
| "holds_lock _ = True"

record conc =
  c_file :: store_file
  c_lock :: "nat option"
  c_phase :: "nat \<Rightarrow> phase"
  c_log :: "entry list"

definition set_phase :: "nat \<Rightarrow> phase \<Rightarrow> conc \<Rightarrow> conc" where
  "set_phase p ph c = c\<lparr>c_phase := (c_phase c)(p := ph)\<rparr>"

text \<open>Leaving \<open>_transaction\<close> (the \<open>finally\<close> closes the lock file), or dying inside it.\<close>

definition leave :: "nat \<Rightarrow> conc \<Rightarrow> conc" where
  "leave p c = set_phase p Idle (c\<lparr>c_lock := (if c_lock c = Some p then None else c_lock c)\<rparr>)"

inductive conc_step :: "conc \<Rightarrow> conc \<Rightarrow> bool" where
  call_append: "c_phase c p = Idle \<Longrightarrow> conc_step c (set_phase p (Waiting e) c)"
| lock_append: "c_phase c p = Waiting e \<Longrightarrow> c_lock c = None \<Longrightarrow>
    conc_step c (set_phase p (Locked e) (c\<lparr>c_lock := Some p\<rparr>))"
| read_append: "c_phase c p = Locked e \<Longrightarrow> read_document (c_file c) = Inr r \<Longrightarrow>
    conc_step c (set_phase p (Loaded e r) c)"
| read_fails: "c_phase c p = Locked e \<Longrightarrow> read_document (c_file c) = Inl x \<Longrightarrow> conc_step c (leave p c)"
| stage: "c_phase c p = Loaded e r \<Longrightarrow> conc_step c (set_phase p (Staged e (add_entry e r)) c)"
| rename: "c_phase c p = Staged e r \<Longrightarrow>
    conc_step c (set_phase p (Replaced e) (c\<lparr>c_file := Document r, c_log := c_log c @ [e]\<rparr>))"
| unlock: "c_phase c p = Replaced e \<Longrightarrow> conc_step c (leave p c)"
| call_load: "c_phase c p = Idle \<Longrightarrow> conc_step c (set_phase p ReadWaiting c)"
| lock_load: "c_phase c p = ReadWaiting \<Longrightarrow> c_lock c = None \<Longrightarrow>
    conc_step c (set_phase p ReadLocked (c\<lparr>c_lock := Some p\<rparr>))"
| read_load: "c_phase c p = ReadLocked \<Longrightarrow> read_document (c_file c) = Inr r \<Longrightarrow>
    conc_step c (set_phase p (ReadDone r) c)"
| read_load_fails: "c_phase c p = ReadLocked \<Longrightarrow> read_document (c_file c) = Inl x \<Longrightarrow> conc_step c (leave p c)"
| unlock_load: "c_phase c p = ReadDone r \<Longrightarrow> conc_step c (leave p c)"
| die: "conc_step c (leave p c)"

inductive conc_reach :: "store_file \<Rightarrow> conc \<Rightarrow> bool" for f0 where
  conc_init: "conc_reach f0 \<lparr>c_file = f0, c_lock = None, c_phase = (\<lambda>_. Idle), c_log = []\<rparr>"
| conc_next: "conc_reach f0 c \<Longrightarrow> conc_step c c' \<Longrightarrow> conc_reach f0 c'"

section \<open>The invariant\<close>

text \<open>
  Who is inside the transaction holds the lock, and what a process has read or staged is the
  document as it still is on disk.
\<close>

definition conc_inv :: "conc \<Rightarrow> bool" where
  "conc_inv c \<longleftrightarrow> (\<forall>p. holds_lock (c_phase c p) \<longleftrightarrow> c_lock c = Some p) \<and>
     (\<forall>p e r. c_phase c p = Loaded e r \<longrightarrow> c_file c = Document r) \<and>
     (\<forall>p e r. c_phase c p = Staged e r \<longrightarrow> (\<exists>r0. c_file c = Document r0 \<and> r = add_entry e r0)) \<and>
     (\<forall>p r. c_phase c p = ReadDone r \<longrightarrow> c_file c = Document r)"

lemma conc_inv_lock: "conc_inv c \<Longrightarrow> holds_lock (c_phase c p) \<Longrightarrow> c_lock c = Some p"
  by (simp add: conc_inv_def)

lemma conc_inv_leave: "conc_inv c \<Longrightarrow> conc_inv (leave p c)"
  unfolding conc_inv_def leave_def set_phase_def by (auto split: if_splits)

text \<open>A process that moves on without touching lock or file.\<close>

lemma conc_inv_move:
  assumes "conc_inv c" "holds_lock ph \<longleftrightarrow> holds_lock (c_phase c p)"
    and "\<And>e r. ph = Loaded e r \<Longrightarrow> c_file c = Document r"
    and "\<And>e r. ph = Staged e r \<Longrightarrow> \<exists>r0. c_file c = Document r0 \<and> r = add_entry e r0"
    and "\<And>r. ph = ReadDone r \<Longrightarrow> c_file c = Document r"
  shows "conc_inv (set_phase p ph c)"
  using assms unfolding conc_inv_def set_phase_def by (auto split: if_splits)

lemma conc_inv_acquire:
  assumes "conc_inv c" "c_lock c = None" "holds_lock ph"
    and "\<And>e r. ph \<noteq> Loaded e r" "\<And>e r. ph \<noteq> Staged e r" "\<And>r. ph \<noteq> ReadDone r"
  shows "conc_inv (set_phase p ph (c\<lparr>c_lock := Some p\<rparr>))"
  using assms unfolding conc_inv_def set_phase_def by (auto split: if_splits)

lemma conc_inv_rename:
  assumes inv: "conc_inv c" and ph: "c_phase c p = Staged e r"
  shows "conc_inv (set_phase p (Replaced e) (c\<lparr>c_file := Document r, c_log := c_log c @ [e]\<rparr>))"
proof -
  have lock: "c_lock c = Some p" using conc_inv_lock [OF inv, of p] ph by simp
  have "\<not> holds_lock (c_phase c q)" if "q \<noteq> p" for q
    using conc_inv_lock [OF inv, of q] lock that by auto
  then have "c_phase c q \<noteq> Loaded e' r'" "c_phase c q \<noteq> Staged e' r'" "c_phase c q \<noteq> ReadDone r'"
    if "q \<noteq> p" for q e' r'
    using that by (metis holds_lock.simps)+
  with inv lock ph show ?thesis
    unfolding conc_inv_def set_phase_def by auto
qed

lemma conc_step_inv: "conc_step c c' \<Longrightarrow> conc_inv c \<Longrightarrow> conc_inv c'"
proof (induction rule: conc_step.induct)
  case (stage c p e r)
  then have "c_file c = Document r" by (auto simp: conc_inv_def)
  with stage show ?case by (intro conc_inv_move) auto
next
  case (rename c p e r)
  then show ?case by (intro conc_inv_rename)
next
  case (read_append c p e r)
  then show ?case by (intro conc_inv_move) (auto simp: read_document_Inr_iff)
next
  case (read_load c p r)
  then show ?case by (intro conc_inv_move) (auto simp: read_document_Inr_iff)
next
  case (lock_append c p e)
  then show ?case by (intro conc_inv_acquire) auto
next
  case (lock_load c p)
  then show ?case by (intro conc_inv_acquire) auto
qed (auto intro!: conc_inv_move conc_inv_leave)

lemma conc_reach_inv: "conc_reach f0 c \<Longrightarrow> conc_inv c"
proof (induction rule: conc_reach.induct)
  case conc_init
  show ?case by (simp add: conc_inv_def)
qed (rule conc_step_inv)

text \<open>The file moves only by the atomic append of one entry.\<close>

lemma conc_step_refines:
  assumes "conc_inv c" "conc_step c c'"
  shows "(c_file c' = c_file c \<and> c_log c' = c_log c) \<or>
     (\<exists>e. store_append e (c_file c) = Inr (c_file c') \<and> c_log c' = c_log c @ [e])"
  using assms(2,1)
proof (induction rule: conc_step.induct)
  case (rename c p e r)
  then obtain r0 where "c_file c = Document r0" "r = add_entry e r0" unfolding conc_inv_def by blast
  then show ?case by (simp add: set_phase_def store_append_def)
qed (simp_all add: set_phase_def leave_def)

lemma append_all_snoc:
  "store.append_all es f = Inr f1 \<Longrightarrow> store_append e f1 = Inr f2 \<Longrightarrow> store.append_all (es @ [e]) f = Inr f2"
  by (induction es arbitrary: f) (auto simp: bindE_Inr_iff)

lemma conc_reach_log: "conc_reach f0 c \<Longrightarrow> store.append_all (c_log c) f0 = Inr (c_file c)"
proof (induction rule: conc_reach.induct)
  case conc_init
  show ?case by simp
next
  case (conc_next c c')
  from conc_step_refines [OF conc_reach_inv [OF conc_next.hyps(1)] conc_next.hyps(2)] conc_next.IH
  show ?case by (auto intro: append_all_snoc)
qed

section \<open>Properties\<close>

definition demo_observation :: observation where
  "demo_observation = \<lparr>o_effect_id = ''e'', o_observed_at = None, o_state = ObsAbsent, o_destination_state = []\<rparr>"

definition demo_conc :: conc where
  "demo_conc = \<lparr>c_file = Document (empty_run_record ''run''), c_lock = None, c_phase = (\<lambda>_. Idle), c_log = []\<rparr>"

lemma demo_conc_reach:
  "conc_reach (Document (empty_run_record ''run''))
     (set_phase 0 (Locked (EObservation demo_observation))
       (set_phase 0 (Waiting (EObservation demo_observation)) demo_conc\<lparr>c_lock := Some 0\<rparr>))"
proof -
  have "conc_reach (Document (empty_run_record ''run'')) demo_conc"
    unfolding demo_conc_def by (rule conc_init)
  moreover have "conc_step demo_conc (set_phase 0 (Waiting (EObservation demo_observation)) demo_conc)"
    by (rule call_append) (simp add: demo_conc_def)
  ultimately have "conc_reach (Document (empty_run_record ''run''))
      (set_phase 0 (Waiting (EObservation demo_observation)) demo_conc)" by (rule conc_next)
  then show ?thesis
    by (rule conc_next) (rule lock_append, simp_all add: demo_conc_def set_phase_def)
qed

text \<open>
  C28. No lost updates: with any number of processes appending and reading at once, and dying at
  any point, the record file is at every moment the result of appending, one after the other, the
  entries whose rename took effect, in that order, to the document the run started from.
\<close>

theorem concurrent_appends_serialize:
  assumes "conc_reach (Document r0) c"
  shows "store.append_all (c_log c) (Document r0) = Inr (c_file c) \<and>
     (\<exists>r. c_file c = Document r \<and> (\<forall>k. entries k r = entries k r0 @ filter (\<lambda>e. entry_kind e = k) (c_log c)))"
proof -
  have log: "store.append_all (c_log c) (Document r0) = Inr (c_file c)" by (rule conc_reach_log [OF assms])
  moreover have "\<exists>f r'. store.append_all (c_log c) (Document r0) = Inr f \<and> store_load f = Inr r' \<and>
     (\<forall>k. entries k r' = entries k r0 @ filter (\<lambda>e. entry_kind e = k) (c_log c))"
    by (rule store.append_all_view) (simp add: store_load_def)
  ultimately show ?thesis by (auto simp: store_load_Inr_iff)
qed

lemma concurrent_appends_serialize_witness:
  "\<exists>c. conc_reach (Document (empty_run_record ''run'')) c \<and>
     store.append_all (c_log c) (Document (empty_run_record ''run'')) = Inr (c_file c)"
  using concurrent_appends_serialize [OF demo_conc_reach] demo_conc_reach by blast

text \<open>
  Mutual exclusion and clean reads: at most one process is inside a transaction at a time,
  and the document a reader was given is exactly what the file holds for as long as the reader is
  inside its transaction.
\<close>

theorem transactions_exclude:
  assumes "conc_reach f0 c"
  shows "(\<forall>p q. holds_lock (c_phase c p) \<and> holds_lock (c_phase c q) \<longrightarrow> p = q) \<and>
     (\<forall>p r. c_phase c p = ReadDone r \<longrightarrow> c_file c = Document r)"
proof -
  note inv = conc_reach_inv [OF assms]
  have "p = q" if "holds_lock (c_phase c p)" "holds_lock (c_phase c q)" for p q
    using conc_inv_lock [OF inv that(1)] conc_inv_lock [OF inv that(2)] by simp
  with inv show ?thesis unfolding conc_inv_def by blast
qed

lemma transactions_exclude_witness:
  "\<exists>c. conc_reach (Document (empty_run_record ''run'')) c \<and> holds_lock (c_phase c 0) \<and>
     (\<forall>q. holds_lock (c_phase c q) \<longrightarrow> q = 0)"
proof -
  let ?c = "set_phase 0 (Locked (EObservation demo_observation))
       (set_phase 0 (Waiting (EObservation demo_observation)) demo_conc\<lparr>c_lock := Some 0\<rparr>)"
  have "holds_lock (c_phase ?c 0)" by (simp add: set_phase_def)
  with transactions_exclude [OF demo_conc_reach] demo_conc_reach show ?thesis by blast
qed

end
