(* ===== verification/StoreProgress.thy ===== *)
theory StoreProgress
  imports StoreConcurrency
begin

text \<open>
  Progress of the transactions of \<open>StoreConcurrency\<close>: in a run that treats every process
  fairly, the lock is let go of again and again, and an append whose process lives completes.
\<close>

section \<open>Runs\<close>

text \<open>
  A process is ready when nothing keeps it from its next step: it is inside the transaction, or it
  waits and the lock is free. The kernel is fair: who is ready again and again moves again
  and again. Any number of others may die, wait, or start new calls at any time.
\<close>

fun ready :: "nat option \<Rightarrow> phase \<Rightarrow> bool" where
  "ready l Idle = False"
| "ready l (Waiting e) = (l = None)"
| "ready l ReadWaiting = (l = None)"
| "ready l _ = True"

definition is_run :: "(nat \<Rightarrow> conc) \<Rightarrow> bool" where
  "is_run s \<longleftrightarrow> (\<forall>i. s (Suc i) = s i \<or> conc_step (s i) (s (Suc i)))"

definition moves :: "nat \<Rightarrow> (nat \<Rightarrow> conc) \<Rightarrow> nat \<Rightarrow> bool" where
  "moves p s i \<longleftrightarrow> c_phase (s (Suc i)) p \<noteq> c_phase (s i) p"

definition is_fair :: "(nat \<Rightarrow> conc) \<Rightarrow> bool" where
  "is_fair s \<longleftrightarrow> (\<forall>p. (\<forall>i. \<exists>j\<ge>i. ready (c_lock (s j)) (c_phase (s j) p)) \<longrightarrow> (\<forall>i. \<exists>j\<ge>i. moves p s j))"

text \<open>A process that leaves its transaction at the end or because the file cannot be read, not by dying.\<close>

definition survives :: "nat \<Rightarrow> (nat \<Rightarrow> conc) \<Rightarrow> bool" where
  "survives p s \<longleftrightarrow> (\<forall>i. moves p s i \<and> c_phase (s (Suc i)) p = Idle \<longrightarrow>
     (case c_phase (s i) p of
        Replaced e \<Rightarrow> True
      | ReadDone r \<Rightarrow> True
      | Locked e \<Rightarrow> (\<exists>x. read_document (c_file (s i)) = Inl x)
      | ReadLocked \<Rightarrow> (\<exists>x. read_document (c_file (s i)) = Inl x)
      | _ \<Rightarrow> False))"

section \<open>Steps left\<close>

fun steps_left :: "phase \<Rightarrow> nat" where
  "steps_left Idle = 0"
| "steps_left (Waiting e) = 5"
| "steps_left (Locked e) = 4"
| "steps_left (Loaded e r) = 3"
| "steps_left (Staged e r) = 2"
| "steps_left (Replaced e) = 1"
| "steps_left ReadWaiting = 3"
| "steps_left ReadLocked = 2"
| "steps_left (ReadDone r) = 1"

lemma steps_left_pos: "ph \<noteq> Idle \<Longrightarrow> 0 < steps_left ph"
  by (cases ph) auto

lemma step_decreases:
  "conc_step c c' \<Longrightarrow> c_phase c' p \<noteq> c_phase c p \<Longrightarrow> c_phase c p = Idle \<or> steps_left (c_phase c' p) < steps_left (c_phase c p)"
  by (induction rule: conc_step.induct)
    (auto simp: set_phase_def leave_def steps_left_pos split: if_splits)

lemma step_one: "conc_step c c' \<Longrightarrow> \<exists>p. \<forall>q. q \<noteq> p \<longrightarrow> c_phase c' q = c_phase c q"
  by (induction rule: conc_step.induct) (auto simp: set_phase_def leave_def)

lemma run_inv: "is_run s \<Longrightarrow> conc_inv (s 0) \<Longrightarrow> conc_inv (s i)"
  by (induction i) (auto simp: is_run_def dest: conc_step_inv, metis conc_step_inv)

lemma run_decreases:
  "is_run s \<Longrightarrow> moves p s i \<Longrightarrow> c_phase (s i) p = Idle \<or> steps_left (c_phase (s (Suc i)) p) < steps_left (c_phase (s i) p)"
  unfolding is_run_def moves_def by (metis step_decreases)

lemma run_others: "is_run s \<Longrightarrow> moves p s i \<Longrightarrow> q \<noteq> p \<Longrightarrow> c_phase (s (Suc i)) q = c_phase (s i) q"
  unfolding is_run_def moves_def by (metis step_one)

text \<open>Between two points without a move of its own the phase of a process stands still.\<close>

lemma phase_stands: "i \<le> j \<Longrightarrow> (\<And>k. i \<le> k \<Longrightarrow> k < j \<Longrightarrow> \<not> moves p s k) \<Longrightarrow> c_phase (s j) p = c_phase (s i) p"
  by (induction j rule: dec_induct) (simp_all add: moves_def)

text \<open>Who stays ready as long as it stands still makes a first move.\<close>

lemma first_move:
  assumes "is_fair s" "\<And>k. i \<le> k \<Longrightarrow> c_phase (s k) p = c_phase (s i) p \<Longrightarrow>
      \<exists>j\<ge>k. ready (c_lock (s j)) (c_phase (s i) p)"
  obtains j where "i \<le> j" "moves p s j" "c_phase (s j) p = c_phase (s i) p"
proof -
  have "\<exists>j\<ge>i. moves p s j"
  proof (rule ccontr)
    assume none: "\<not> (\<exists>j\<ge>i. moves p s j)"
    then have still: "c_phase (s k) p = c_phase (s i) p" if "i \<le> k" for k
      using that by (intro phase_stands) auto
    have "\<exists>j\<ge>k. ready (c_lock (s j)) (c_phase (s j) p)" for k
      using assms(2) [of "max i k"] still by (metis max.bounded_iff max.cobounded1)
    with assms(1) have "\<exists>j\<ge>i. moves p s j" unfolding is_fair_def by blast
    with none show False by blast
  qed
  then obtain j0 where j0: "i \<le> j0 \<and> moves p s j0" by blast
  define j where "j = (LEAST j. i \<le> j \<and> moves p s j)"
  have j: "i \<le> j \<and> moves p s j" unfolding j_def by (rule LeastI [of _ j0]) (rule j0)
  have "\<not> moves p s k" if "i \<le> k" "k < j" for k
    using not_less_Least [of k "\<lambda>j. i \<le> j \<and> moves p s j"] that unfolding j_def by blast
  then have "c_phase (s j) p = c_phase (s i) p" using j by (intro phase_stands) auto
  with j that show thesis by blast
qed

section \<open>The lock is let go of\<close>

lemma lock_released:
  assumes "is_run s" "is_fair s" "conc_inv (s 0)"
  shows "\<exists>j\<ge>i. c_lock (s j) = None"
proof (cases "c_lock (s i)")
  case (Some q)
  then show ?thesis
  proof (induction "steps_left (c_phase (s i) q)" arbitrary: i rule: less_induct)
    case less
    note inv = run_inv [OF assms(1,3)]
    have hold: "holds_lock (c_phase (s i) q)" using inv [of i] less.prems by (simp add: conc_inv_def)
    then have "ready l (c_phase (s i) q)" for l by (cases "c_phase (s i) q") auto
    then obtain j where j: "i \<le> j" "moves q s j" "c_phase (s j) q = c_phase (s i) q"
      by (blast intro: first_move [OF assms(2), of i q])
    have small: "steps_left (c_phase (s (Suc j)) q) < steps_left (c_phase (s i) q)"
      using run_decreases [OF assms(1) j(2)] hold j(3) by auto
    have "c_lock (s j) = Some q" using conc_inv_lock [OF inv [of j], of q] hold j(3) by simp
    then have "\<not> holds_lock (c_phase (s (Suc j)) q')" if "q' \<noteq> q" for q'
      using inv [of j] run_others [OF assms(1) j(2) that] that by (simp add: conc_inv_def)
    then have "c_lock (s (Suc j)) = None \<or> c_lock (s (Suc j)) = Some q"
      using inv [of "Suc j"] unfolding conc_inv_def by (metis not_None_eq)
    with less.hyps [OF small] j(1) show ?case by (meson le_Suc_eq le_trans)
  qed
qed blast

section \<open>An append completes\<close>

text \<open>On its way to the rename, a phase carries its entry.\<close>

fun carries :: "entry \<Rightarrow> phase \<Rightarrow> bool" where
  "carries e (Waiting e') = (e' = e)"
| "carries e (Locked e') = (e' = e)"
| "carries e (Loaded e' r) = (e' = e)"
| "carries e (Staged e' r) = (e' = e)"
| "carries e _ = False"

lemma carry_step:
  "conc_step c c' \<Longrightarrow> carries e (c_phase c p) \<Longrightarrow> c_phase c' p \<noteq> c_phase c p \<Longrightarrow>
     carries e (c_phase c' p) \<or> c_phase c' p = Idle \<or>
     (c_phase c' p = Replaced e \<and> c_log c' = c_log c @ [e])"
  by (induction rule: conc_step.induct) (auto simp: set_phase_def leave_def split: if_splits)

lemma run_carry:
  assumes "is_run s" "survives p s" "c_file (s i) = Document r" "carries e (c_phase (s i) p)" "moves p s i"
  shows "carries e (c_phase (s (Suc i)) p) \<or>
     (c_phase (s (Suc i)) p = Replaced e \<and> c_log (s (Suc i)) = c_log (s i) @ [e])"
proof -
  have "conc_step (s i) (s (Suc i))" "c_phase (s (Suc i)) p \<noteq> c_phase (s i) p"
    using assms(1,5) unfolding is_run_def moves_def by metis+
  moreover have "c_phase (s (Suc i)) p \<noteq> Idle"
    using assms(2,3,4,5) unfolding survives_def by (cases "c_phase (s i) p") fastforce+
  ultimately show ?thesis using carry_step [of "s i" "s (Suc i)" e p] assms(4) by blast
qed

lemma carried_renamed:
  assumes "is_run s" "is_fair s" "conc_inv (s 0)" "survives p s" "\<And>k. \<exists>r. c_file (s k) = Document r"
  shows "carries e (c_phase (s i) p) \<Longrightarrow>
    \<exists>k\<ge>i. c_log (s (Suc k)) = c_log (s k) @ [e] \<and> c_phase (s (Suc k)) p = Replaced e"
proof (induction "steps_left (c_phase (s i) p)" arbitrary: i rule: less_induct)
  case less
  have "\<exists>j\<ge>k. ready (c_lock (s j)) (c_phase (s i) p)" for k
    using less.prems lock_released [OF assms(1-3), of k] by (cases "c_phase (s i) p") auto
  then obtain j where j: "i \<le> j" "moves p s j" "c_phase (s j) p = c_phase (s i) p"
    by (blast intro: first_move [OF assms(2), of i p])
  obtain r where "c_file (s j) = Document r" using assms(5) by blast
  from run_carry [OF assms(1,4) this _ j(2)] less.prems j(3)
  consider "carries e (c_phase (s (Suc j)) p)"
    | "c_phase (s (Suc j)) p = Replaced e" "c_log (s (Suc j)) = c_log (s j) @ [e]" by auto
  then show ?case
  proof cases
    case 1
    have "c_phase (s i) p \<noteq> Idle" using less.prems by auto
    then have "steps_left (c_phase (s (Suc j)) p) < steps_left (c_phase (s i) p)"
      using run_decreases [OF assms(1) j(2)] j(3) by simp
    from less.hyps [OF this 1] j(1) show ?thesis by (meson le_Suc_eq le_trans)
  qed (use j(1) in blast)
qed

lemma reached_document: "conc_reach (Document r0) c \<Longrightarrow> \<exists>r. c_file c = Document r \<and>
    (\<forall>k. entries k r = entries k r0 @ filter (\<lambda>e. entry_kind e = k) (c_log c))"
  using store.append_all_view [of "Document r0" r0 "c_log c"] conc_reach_log [of "Document r0" c]
  by (auto simp: store_load_Inr_iff)

lemma run_reach: "is_run s \<Longrightarrow> conc_reach f0 (s 0) \<Longrightarrow> conc_reach f0 (s i)"
  by (induction i) (auto simp: is_run_def, metis conc_next)

lemma log_grows:
  assumes "is_run s" "conc_inv (s 0)" "i \<le> j"
  shows "\<exists>es. c_log (s j) = c_log (s i) @ es"
  using assms(3)
proof (induction j rule: dec_induct)
  case (step j)
  have "\<exists>es. c_log (s (Suc j)) = c_log (s j) @ es"
    using conc_step_refines [OF run_inv [OF assms(1,2), of j], of "s (Suc j)"] assms(1) unfolding is_run_def
    by (metis append_Nil2)
  with step.IH show ?case by auto
qed simp

text \<open>
  C29. Every append completes: in a run that is fair to all processes, from a store with a valid
  document, a process that has called for an append and does not die gets the lock, renames its file
  over the document and leaves; from then on its entry is in the record file, for good. Other
  processes may append and read without end, and die wherever they are.
\<close>

theorem append_completes:
  assumes "is_run s" "is_fair s" "conc_reach (Document r0) (s 0)" "survives p s" "c_phase (s i) p = Waiting e"
  shows "\<exists>j>i. c_phase (s j) p = Idle \<and> (\<exists>k\<ge>i. k < j \<and> c_log (s (Suc k)) = c_log (s k) @ [e]) \<and>
     (\<forall>m\<ge>j. \<exists>r. c_file (s m) = Document r \<and> e \<in> set (entries (entry_kind e) r))"
proof -
  note inv = conc_reach_inv [OF assms(3)]
  have doc: "\<exists>r. c_file (s k) = Document r" for k
    using reached_document [OF run_reach [OF assms(1,3)]] by blast
  obtain k where k: "i \<le> k" "c_log (s (Suc k)) = c_log (s k) @ [e]" "c_phase (s (Suc k)) p = Replaced e"
    using carried_renamed [OF assms(1,2) inv assms(4) doc, of e i] assms(5) by auto
  obtain j where j: "Suc k \<le> j" "moves p s j" "c_phase (s j) p = Replaced e"
    by (rule first_move [OF assms(2), of "Suc k" p]) (auto simp: k(3))
  have "c_phase (s (Suc j)) p = Idle" using run_decreases [OF assms(1) j(2)] j(3) steps_left_pos by fastforce
  moreover have "\<exists>r. c_file (s m) = Document r \<and> e \<in> set (entries (entry_kind e) r)" if m: "Suc j \<le> m" for m
  proof -
    have "e \<in> set (c_log (s m))" using log_grows [OF assms(1) inv, of "Suc k" m] k(2) j(1) m by auto
    moreover obtain r where "c_file (s m) = Document r"
        "entries (entry_kind e) r = entries (entry_kind e) r0 @ filter (\<lambda>x. entry_kind x = entry_kind e) (c_log (s m))"
      using reached_document [OF run_reach [OF assms(1,3), of m]] by blast
    ultimately show ?thesis by auto
  qed
  ultimately show ?thesis using k(1,2) j(1) by (intro exI [of _ "Suc j"]) auto
qed

section \<open>A run of one process\<close>

text \<open>The next step of a process that is alone and does not die.\<close>

definition forward :: "nat \<Rightarrow> conc \<Rightarrow> conc" where
  "forward p c = (case c_phase c p of
      Waiting e \<Rightarrow> if c_lock c = None then set_phase p (Locked e) (c\<lparr>c_lock := Some p\<rparr>) else c
    | Locked e \<Rightarrow> (case read_document (c_file c) of Inr r \<Rightarrow> set_phase p (Loaded e r) c | Inl x \<Rightarrow> leave p c)
    | Loaded e r \<Rightarrow> set_phase p (Staged e (add_entry e r)) c
    | Staged e r \<Rightarrow> set_phase p (Replaced e) (c\<lparr>c_file := Document r, c_log := c_log c @ [e]\<rparr>)
    | Replaced e \<Rightarrow> leave p c
    | _ \<Rightarrow> c)"

lemma forward_step: "forward p c = c \<or> conc_step c (forward p c)"
  by (auto simp: forward_def intro: conc_step.intros split: phase.split sum.split)

lemma forward_others: "q \<noteq> p \<Longrightarrow> c_phase (forward p c) q = c_phase c q"
  by (auto simp: forward_def set_phase_def leave_def split: phase.split sum.split)

lemma forward_idle: "c_phase c p = Idle \<Longrightarrow> forward p c = c"
  by (simp add: forward_def)

lemma forward_survives:
  "c_phase (forward p c) p = Idle \<Longrightarrow> c_phase c p \<noteq> Idle \<Longrightarrow>
     (\<exists>e. c_phase c p = Replaced e) \<or> (\<exists>e x. c_phase c p = Locked e \<and> read_document (c_file c) = Inl x)"
  by (auto simp: forward_def set_phase_def split: phase.splits sum.splits if_splits)

primrec demo_run :: "nat \<Rightarrow> conc" where
  "demo_run 0 = set_phase 0 (Waiting (EObservation demo_observation)) demo_conc"
| "demo_run (Suc i) = forward 0 (demo_run i)"

lemma demo_run_idle: "5 \<le> i \<Longrightarrow> c_phase (demo_run i) 0 = Idle"
proof (induction i rule: dec_induct)
  case base
  have five: "demo_run 5 = forward 0 (forward 0 (forward 0 (forward 0 (forward 0 (demo_run 0)))))"
    by (simp add: numeral_eq_Suc)
  show ?case unfolding five by (simp add: forward_def set_phase_def leave_def demo_conc_def)
qed (simp add: forward_idle)

lemma demo_run_other: "q \<noteq> 0 \<Longrightarrow> c_phase (demo_run i) q = Idle"
  by (induction i) (simp_all add: forward_others set_phase_def demo_conc_def)

lemma demo_run_runs: "is_run demo_run" "is_fair demo_run" "survives 0 demo_run"
proof -
  show "is_run demo_run" using forward_step by (auto simp: is_run_def)
  have "\<not> ready (c_lock (demo_run j)) (c_phase (demo_run j) p)" if "5 \<le> j" for j p
    using demo_run_idle [OF that] demo_run_other [of p j] by (cases "p = 0") simp_all
  then show "is_fair demo_run" unfolding is_fair_def by blast
  show "survives 0 demo_run"
    using forward_survives [of 0] by (fastforce simp: survives_def moves_def split: phase.split)
qed

lemma demo_run_start: "conc_reach (Document (empty_run_record ''run'')) (demo_run 0)"
proof -
  have "conc_reach (Document (empty_run_record ''run'')) demo_conc"
    unfolding demo_conc_def by (rule conc_init)
  then show ?thesis unfolding demo_run.simps by (rule conc_next) (rule call_append, simp add: demo_conc_def)
qed

lemma append_completes_witness:
  "\<exists>j r. c_phase (demo_run j) 0 = Idle \<and> c_file (demo_run j) = Document r \<and>
     EObservation demo_observation \<in> set (entries KObservation r)"
  using append_completes [OF demo_run_runs(1,2) demo_run_start demo_run_runs(3), of 0 "EObservation demo_observation"]
  by (fastforce simp: set_phase_def)

end
