(* ===== verification/RunModels.thy ===== *)
theory RunModels
  imports PyTime CanonicalJson
begin

text \<open>
  The records of \<open>models.py\<close>: the frame of a run, proposed actions, gate decisions with their
  traces, authority and reliance records, the run record and the replay bundle, validation
  reports, the redaction configuration and tool results. Timestamps a record fills in by itself
  are explicit here: the operations that build a record pass them.
\<close>

record frame =
  fr_frame_id :: string
  fr_task :: string
  fr_actor :: string
  fr_environment :: string
  fr_allowed_tools :: "string list"
  fr_blocked_tools :: "string list"
  fr_policy_version :: string
  fr_created_at :: string

record action_proposal =
  ac_action_id :: string
  ac_run_id :: string
  ac_tool_name :: string
  ac_action_type :: string
  ac_target :: string
  ac_payload :: pydict
  ac_proposed_at :: string
  ac_reason :: "string option"

datatype gate_result = Allow | Block | Escalate

text \<open>A rule's result in a trace: a gate result, or none.\<close>

type_synonym rule_result = "gate_result option"

record rule_evaluation =
  re_rule_name :: string
  re_matched :: bool
  re_result :: rule_result
  re_reason :: string

record policy_trace =
  tr_trace_id :: string
  tr_run_id :: string
  tr_action_id :: string
  tr_evaluated_at :: string
  tr_rules_evaluated :: "rule_evaluation list"
  tr_final_result :: gate_result
  tr_fingerprint :: string

record gate_decision =
  gd_decision_id :: string
  gd_action_id :: string
  gd_run_id :: string
  gd_result :: gate_result
  gd_policy_name :: string
  gd_reason :: string
  gd_decided_at :: string
  gd_fingerprint :: string
  gd_trace_id :: "string option"

record blocked_action =
  ba_blocked_id :: string
  ba_action_id :: string
  ba_run_id :: string
  ba_reason :: string
  ba_policy_name :: string
  ba_blocked_at :: string

record authority_record =
  au_authority_id :: string
  au_run_id :: string
  au_actor :: string
  au_scope :: "string list"
  au_expires_at :: "string option"
  au_source :: string
  au_created_at :: string

datatype source_type = SrcTool | SrcDatabase | SrcFile | SrcApi | SrcUserInput | SrcModelOutput | SrcOther

record reliance_record =
  rl_reliance_id :: string
  rl_run_id :: string
  rl_source_name :: string
  rl_source_type :: source_type
  rl_scope :: string
  rl_referenced_action_id :: "string option"
  rl_created_at :: string

text \<open>What a run record and a replay bundle have in common, and the two of them.\<close>

record run_body =
  rb_run_id :: string
  rb_frame :: frame
  rb_actions :: "action_proposal list"
  rb_decisions :: "gate_decision list"
  rb_policy_traces :: "policy_trace list"
  rb_authority_records :: "authority_record list"
  rb_reliance_records :: "reliance_record list"
  rb_blocked_actions :: "blocked_action list"
  rb_final_output :: "string option"

record agent_run = run_body +
  ar_task :: string
  ar_created_at :: string
  ar_completed :: bool
  ar_replay_bundle_id :: "string option"

record replay_bundle = run_body +
  bu_replay_bundle_id :: string
  bu_generated_at :: string

datatype severity = SevError | SevWarning

record validation_issue =
  vi_severity :: severity
  vi_code :: string
  vi_message :: string
  vi_path :: "string option"

record validation_report =
  vr_valid :: bool
  vr_checked_object_type :: string
  vr_checked_id :: string
  vr_issues :: "validation_issue list"

record redaction_config =
  rdc_payloads :: bool
  rdc_targets :: bool
  rdc_final_output :: bool
  rdc_reasons :: bool
  rdc_replacement :: string

text \<open>The defaults of \<open>RedactionConfig\<close>.\<close>

definition default_redaction :: redaction_config where
  "default_redaction = \<lparr>rdc_payloads = True, rdc_targets = False, rdc_final_output = False,
     rdc_reasons = False, rdc_replacement = ''[REDACTED]''\<rparr>"

record tool_result =
  tx_action_id :: string
  tx_run_id :: string
  tx_executed :: bool
  tx_result :: pydict
  tx_error :: "string option"

section \<open>An order on gate results\<close>

text \<open>
  How strict an outcome is: allowing is the least strict, blocking the strictest. The order is
  that of the library's type class, so that outcomes can be compared and maximised.
\<close>

fun strictness :: "gate_result \<Rightarrow> nat" where
  "strictness Allow = 0"
| "strictness Escalate = 1"
| "strictness Block = 2"

instantiation gate_result :: linorder
begin

definition less_eq_gate_result :: "gate_result \<Rightarrow> gate_result \<Rightarrow> bool" where
  "less_eq_gate_result a b \<longleftrightarrow> strictness a \<le> strictness b"

definition less_gate_result :: "gate_result \<Rightarrow> gate_result \<Rightarrow> bool" where
  "less_gate_result a b \<longleftrightarrow> strictness a < strictness b"

instance
proof
  fix a b c :: gate_result
  show "a < b \<longleftrightarrow> a \<le> b \<and> \<not> b \<le> a" by (auto simp: less_eq_gate_result_def less_gate_result_def)
  show "a \<le> a" by (simp add: less_eq_gate_result_def)
  show "a \<le> b \<Longrightarrow> b \<le> c \<Longrightarrow> a \<le> c" by (simp add: less_eq_gate_result_def)
  show "a \<le> b \<Longrightarrow> b \<le> a \<Longrightarrow> a = b" by (cases a; cases b) (simp_all add: less_eq_gate_result_def)
  show "a \<le> b \<or> b \<le> a" by (auto simp: less_eq_gate_result_def)
qed

end

lemma gate_result_order [simp]: "Allow \<le> r" "r \<le> Block" "r \<le> Allow \<longleftrightarrow> r = Allow"
  by (cases r; simp add: less_eq_gate_result_def)+

end
