(* ===== verification/ModelJson.thy ===== *)
theory ModelJson
  imports RunModels JsonText
begin

text \<open>
  The records of \<open>models.py\<close> as JSON documents: \<open>model_dump\<close> and \<open>model_validate\<close>. A dump has the
  fields of the class in its order. Validation takes a document as JSON gives it: a missing field
  takes its default if it has one, other fields are ignored, and pydantic's lax mode reads a truth
  value from 0, 1 and a few words. A missing timestamp is the clock's next reading, so validation
  takes and returns how many readings were used.
\<close>

section \<open>Reading fields\<close>

type_synonym 'a reader = "nat \<Rightarrow> ('a \<times> nat) res"

definition returnR :: "'a \<Rightarrow> 'a reader" where
  "returnR x n = Inr (x, n)"

definition bindR :: "'a reader \<Rightarrow> ('a \<Rightarrow> 'b reader) \<Rightarrow> 'b reader" where
  "bindR m f n = bindE (m n) (\<lambda>(x, n'). f x n')"

definition liftR :: "'a res \<Rightarrow> 'a reader" where
  "liftR r n = bindE r (\<lambda>x. Inr (x, n))"

primrec mapR :: "('a \<Rightarrow> 'b reader) \<Rightarrow> 'a list \<Rightarrow> 'b list reader" where
  "mapR f [] = returnR []"
| "mapR f (x # xs) = bindR (f x) (\<lambda>y. bindR (mapR f xs) (\<lambda>ys. returnR (y # ys)))"

definition required :: "pydict \<Rightarrow> string \<Rightarrow> (pyval \<Rightarrow> 'a reader) \<Rightarrow> 'a reader" where
  "required d k f = (case map_of d k of None \<Rightarrow> liftR (throw ValidationError) | Some v \<Rightarrow> f v)"

definition optional :: "pydict \<Rightarrow> string \<Rightarrow> (pyval \<Rightarrow> 'a reader) \<Rightarrow> 'a \<Rightarrow> 'a reader" where
  "optional d k f fallback = (case map_of d k of None \<Rightarrow> returnR fallback | Some v \<Rightarrow> f v)"

definition text_of :: "pyval \<Rightarrow> string reader" where
  "text_of v = liftR (expect_str v)"

definition opt_text_of :: "pyval \<Rightarrow> string option reader" where
  "opt_text_of v = (if v = PNone then returnR None else bindR (text_of v) (\<lambda>s. returnR (Some s)))"

definition list_of :: "(pyval \<Rightarrow> 'a reader) \<Rightarrow> pyval \<Rightarrow> 'a list reader" where
  "list_of f v = (case v of PList xs \<Rightarrow> mapR f xs | _ \<Rightarrow> liftR (throw ValidationError))"

definition dict_of :: "pyval \<Rightarrow> pydict reader" where
  "dict_of v = liftR (expect_dict v)"

text \<open>A field of literal strings, given as the words and what they mean.\<close>

definition word_of :: "(string \<times> 'a) list \<Rightarrow> pyval \<Rightarrow> 'a reader" where
  "word_of ws v = (case v of
      PStr s \<Rightarrow> (case map_of ws s of Some x \<Rightarrow> returnR x | None \<Rightarrow> liftR (throw ValidationError))
    | _ \<Rightarrow> liftR (throw ValidationError))"

definition bool_of :: "pyval \<Rightarrow> bool reader" where
  "bool_of v = (case v of
      PBool b \<Rightarrow> returnR b
    | PInt n \<Rightarrow> if n = 0 \<or> n = 1 then returnR (n = 1) else liftR (throw ValidationError)
    | PFloat q \<Rightarrow> if q = 0 \<or> q = 1 then returnR (q = 1) else liftR (throw ValidationError)
    | PStr s \<Rightarrow>
        (let w = map lower_char s in
         if w \<in> {''1'', ''on'', ''t'', ''true'', ''y'', ''yes''} then returnR True
         else if w \<in> {''0'', ''off'', ''f'', ''false'', ''n'', ''no''} then returnR False
         else liftR (throw ValidationError))
    | _ \<Rightarrow> liftR (throw ValidationError))"

text \<open>A timestamp with \<open>default_factory=_now_iso\<close>.\<close>

definition stamp_of :: "prims \<Rightarrow> pydict \<Rightarrow> string \<Rightarrow> string reader" where
  "stamp_of P d k = (case map_of d k of
      None \<Rightarrow> (\<lambda>n. Inr (isoformat_utc P (clock P n), Suc n))
    | Some v \<Rightarrow> text_of v)"

section \<open>Words\<close>

definition gate_words :: "(string \<times> gate_result) list" where
  "gate_words = [(''allow'', Allow), (''block'', Block), (''escalate'', Escalate)]"

fun gate_word :: "gate_result \<Rightarrow> string" where
  "gate_word Allow = ''allow''"
| "gate_word Block = ''block''"
| "gate_word Escalate = ''escalate''"

definition rule_words :: "(string \<times> rule_result) list" where
  "rule_words = map (\<lambda>(s, r). (s, Some r)) gate_words @ [(''none'', None)]"

definition rule_word :: "rule_result \<Rightarrow> string" where
  "rule_word r = (case r of None \<Rightarrow> ''none'' | Some g \<Rightarrow> gate_word g)"

definition source_words :: "(string \<times> source_type) list" where
  "source_words = [(''tool'', SrcTool), (''database'', SrcDatabase), (''file'', SrcFile), (''api'', SrcApi),
     (''user_input'', SrcUserInput), (''model_output'', SrcModelOutput), (''other'', SrcOther)]"

fun source_word :: "source_type \<Rightarrow> string" where
  "source_word SrcTool = ''tool''"
| "source_word SrcDatabase = ''database''"
| "source_word SrcFile = ''file''"
| "source_word SrcApi = ''api''"
| "source_word SrcUserInput = ''user_input''"
| "source_word SrcModelOutput = ''model_output''"
| "source_word SrcOther = ''other''"

section \<open>Documents\<close>

definition json_opt :: "string option \<Rightarrow> pyval" where
  "json_opt s = (case s of None \<Rightarrow> PNone | Some t \<Rightarrow> PStr t)"

definition json_texts :: "string list \<Rightarrow> pyval" where
  "json_texts xs = PList (map PStr xs)"

definition json_list :: "('a \<Rightarrow> pydict) \<Rightarrow> 'a list \<Rightarrow> pyval" where
  "json_list f xs = PList (map (\<lambda>x. PDict (f x)) xs)"

definition dump_frame :: "frame \<Rightarrow> pydict" where
  "dump_frame f = [
     (''frame_id'', PStr (fr_frame_id f)), (''task'', PStr (fr_task f)), (''actor'', PStr (fr_actor f)),
     (''environment'', PStr (fr_environment f)), (''allowed_tools'', json_texts (fr_allowed_tools f)),
     (''blocked_tools'', json_texts (fr_blocked_tools f)), (''policy_version'', PStr (fr_policy_version f)),
     (''created_at'', PStr (fr_created_at f))]"

definition dump_action :: "action_proposal \<Rightarrow> pydict" where
  "dump_action a = [
     (''action_id'', PStr (ac_action_id a)), (''run_id'', PStr (ac_run_id a)), (''tool_name'', PStr (ac_tool_name a)),
     (''action_type'', PStr (ac_action_type a)), (''target'', PStr (ac_target a)),
     (''payload'', PDict (ac_payload a)), (''proposed_at'', PStr (ac_proposed_at a)),
     (''reason'', json_opt (ac_reason a))]"

definition dump_rule :: "rule_evaluation \<Rightarrow> pydict" where
  "dump_rule r = [
     (''rule_name'', PStr (re_rule_name r)), (''matched'', PBool (re_matched r)),
     (''result'', PStr (rule_word (re_result r))), (''reason'', PStr (re_reason r))]"

definition dump_trace :: "policy_trace \<Rightarrow> pydict" where
  "dump_trace t = [
     (''trace_id'', PStr (tr_trace_id t)), (''run_id'', PStr (tr_run_id t)), (''action_id'', PStr (tr_action_id t)),
     (''evaluated_at'', PStr (tr_evaluated_at t)), (''rules_evaluated'', json_list dump_rule (tr_rules_evaluated t)),
     (''final_result'', PStr (gate_word (tr_final_result t))),
     (''deterministic_fingerprint'', PStr (tr_fingerprint t))]"

definition dump_decision :: "gate_decision \<Rightarrow> pydict" where
  "dump_decision d = [
     (''decision_id'', PStr (gd_decision_id d)), (''action_id'', PStr (gd_action_id d)),
     (''run_id'', PStr (gd_run_id d)), (''result'', PStr (gate_word (gd_result d))),
     (''policy_name'', PStr (gd_policy_name d)), (''reason'', PStr (gd_reason d)),
     (''decided_at'', PStr (gd_decided_at d)), (''deterministic_fingerprint'', PStr (gd_fingerprint d)),
     (''trace_id'', json_opt (gd_trace_id d))]"

definition dump_blocked :: "blocked_action \<Rightarrow> pydict" where
  "dump_blocked b = [
     (''blocked_id'', PStr (ba_blocked_id b)), (''action_id'', PStr (ba_action_id b)),
     (''run_id'', PStr (ba_run_id b)), (''reason'', PStr (ba_reason b)),
     (''policy_name'', PStr (ba_policy_name b)), (''blocked_at'', PStr (ba_blocked_at b))]"

definition dump_authority :: "authority_record \<Rightarrow> pydict" where
  "dump_authority a = [
     (''authority_id'', PStr (au_authority_id a)), (''run_id'', PStr (au_run_id a)), (''actor'', PStr (au_actor a)),
     (''scope'', json_texts (au_scope a)), (''expires_at'', json_opt (au_expires_at a)),
     (''source'', PStr (au_source a)), (''created_at'', PStr (au_created_at a))]"

definition dump_reliance :: "reliance_record \<Rightarrow> pydict" where
  "dump_reliance r = [
     (''reliance_id'', PStr (rl_reliance_id r)), (''run_id'', PStr (rl_run_id r)),
     (''source_name'', PStr (rl_source_name r)), (''source_type'', PStr (source_word (rl_source_type r))),
     (''scope'', PStr (rl_scope r)), (''referenced_action_id'', json_opt (rl_referenced_action_id r)),
     (''created_at'', PStr (rl_created_at r))]"

text \<open>The fields a run record and a bundle share, between the frame and the blocked actions.\<close>

definition dump_body :: "'a run_body_scheme \<Rightarrow> pydict" where
  "dump_body b = [
     (''frame'', PDict (dump_frame (rb_frame b))), (''actions'', json_list dump_action (rb_actions b)),
     (''decisions'', json_list dump_decision (rb_decisions b)),
     (''policy_traces'', json_list dump_trace (rb_policy_traces b)),
     (''authority_records'', json_list dump_authority (rb_authority_records b)),
     (''reliance_records'', json_list dump_reliance (rb_reliance_records b)),
     (''blocked_actions'', json_list dump_blocked (rb_blocked_actions b))]"

definition dump_run :: "agent_run \<Rightarrow> pydict" where
  "dump_run r =
     [(''run_id'', PStr (rb_run_id r)), (''task'', PStr (ar_task r)), (''created_at'', PStr (ar_created_at r))] @
     dump_body r @
     [(''completed'', PBool (ar_completed r)), (''final_output'', json_opt (rb_final_output r)),
      (''replay_bundle_id'', json_opt (ar_replay_bundle_id r))]"

definition dump_bundle :: "replay_bundle \<Rightarrow> pydict" where
  "dump_bundle b =
     [(''replay_bundle_id'', PStr (bu_replay_bundle_id b)), (''run_id'', PStr (rb_run_id b)),
      (''generated_at'', PStr (bu_generated_at b))] @
     dump_body b @ [(''final_output'', json_opt (rb_final_output b))]"

record signed_bundle =
  sg_signed_bundle_id :: string
  sg_replay_bundle :: replay_bundle
  sg_signature :: string
  sg_signature_algorithm :: string
  sg_signed_at :: string

definition dump_signed :: "signed_bundle \<Rightarrow> pydict" where
  "dump_signed s = [
     (''signed_bundle_id'', PStr (sg_signed_bundle_id s)), (''replay_bundle'', PDict (dump_bundle (sg_replay_bundle s))),
     (''signature'', PStr (sg_signature s)), (''signature_algorithm'', PStr (sg_signature_algorithm s)),
     (''signed_at'', PStr (sg_signed_at s))]"

section \<open>Validation\<close>

definition load_frame :: "prims \<Rightarrow> pyval \<Rightarrow> frame reader" where
  "load_frame P v = bindR (dict_of v) (\<lambda>d.
     bindR (required d ''frame_id'' text_of) (\<lambda>fid.
     bindR (required d ''task'' text_of) (\<lambda>task.
     bindR (required d ''actor'' text_of) (\<lambda>actor.
     bindR (required d ''environment'' text_of) (\<lambda>env.
     bindR (optional d ''allowed_tools'' (list_of text_of) []) (\<lambda>allowed.
     bindR (optional d ''blocked_tools'' (list_of text_of) []) (\<lambda>blocked.
     bindR (required d ''policy_version'' text_of) (\<lambda>version.
     bindR (stamp_of P d ''created_at'') (\<lambda>created.
       returnR \<lparr>fr_frame_id = fid, fr_task = task, fr_actor = actor, fr_environment = env,
         fr_allowed_tools = allowed, fr_blocked_tools = blocked, fr_policy_version = version,
         fr_created_at = created\<rparr>)))))))))"

definition load_action :: "prims \<Rightarrow> pyval \<Rightarrow> action_proposal reader" where
  "load_action P v = bindR (dict_of v) (\<lambda>d.
     bindR (required d ''action_id'' text_of) (\<lambda>aid.
     bindR (required d ''run_id'' text_of) (\<lambda>rid.
     bindR (required d ''tool_name'' text_of) (\<lambda>tool.
     bindR (required d ''action_type'' text_of) (\<lambda>kind.
     bindR (required d ''target'' text_of) (\<lambda>target.
     bindR (optional d ''payload'' dict_of []) (\<lambda>payload.
     bindR (stamp_of P d ''proposed_at'') (\<lambda>proposed.
     bindR (optional d ''reason'' opt_text_of None) (\<lambda>reason.
       returnR \<lparr>ac_action_id = aid, ac_run_id = rid, ac_tool_name = tool, ac_action_type = kind,
         ac_target = target, ac_payload = payload, ac_proposed_at = proposed, ac_reason = reason\<rparr>)))))))))"

definition load_rule :: "pyval \<Rightarrow> rule_evaluation reader" where
  "load_rule v = bindR (dict_of v) (\<lambda>d.
     bindR (required d ''rule_name'' text_of) (\<lambda>name.
     bindR (required d ''matched'' bool_of) (\<lambda>matched.
     bindR (required d ''result'' (word_of rule_words)) (\<lambda>result.
     bindR (required d ''reason'' text_of) (\<lambda>reason.
       returnR \<lparr>re_rule_name = name, re_matched = matched, re_result = result, re_reason = reason\<rparr>)))))"

definition load_trace :: "prims \<Rightarrow> pyval \<Rightarrow> policy_trace reader" where
  "load_trace P v = bindR (dict_of v) (\<lambda>d.
     bindR (required d ''trace_id'' text_of) (\<lambda>tid.
     bindR (required d ''run_id'' text_of) (\<lambda>rid.
     bindR (required d ''action_id'' text_of) (\<lambda>aid.
     bindR (stamp_of P d ''evaluated_at'') (\<lambda>evaluated.
     bindR (optional d ''rules_evaluated'' (list_of load_rule) []) (\<lambda>rules.
     bindR (required d ''final_result'' (word_of gate_words)) (\<lambda>result.
     bindR (required d ''deterministic_fingerprint'' text_of) (\<lambda>print.
       returnR \<lparr>tr_trace_id = tid, tr_run_id = rid, tr_action_id = aid, tr_evaluated_at = evaluated,
         tr_rules_evaluated = rules, tr_final_result = result, tr_fingerprint = print\<rparr>))))))))"

definition load_decision :: "prims \<Rightarrow> pyval \<Rightarrow> gate_decision reader" where
  "load_decision P v = bindR (dict_of v) (\<lambda>d.
     bindR (required d ''decision_id'' text_of) (\<lambda>did.
     bindR (required d ''action_id'' text_of) (\<lambda>aid.
     bindR (required d ''run_id'' text_of) (\<lambda>rid.
     bindR (required d ''result'' (word_of gate_words)) (\<lambda>result.
     bindR (required d ''policy_name'' text_of) (\<lambda>policy.
     bindR (required d ''reason'' text_of) (\<lambda>reason.
     bindR (stamp_of P d ''decided_at'') (\<lambda>decided.
     bindR (required d ''deterministic_fingerprint'' text_of) (\<lambda>print.
     bindR (optional d ''trace_id'' opt_text_of None) (\<lambda>tid.
       returnR \<lparr>gd_decision_id = did, gd_action_id = aid, gd_run_id = rid, gd_result = result,
         gd_policy_name = policy, gd_reason = reason, gd_decided_at = decided, gd_fingerprint = print,
         gd_trace_id = tid\<rparr>))))))))))"

definition load_blocked :: "prims \<Rightarrow> pyval \<Rightarrow> blocked_action reader" where
  "load_blocked P v = bindR (dict_of v) (\<lambda>d.
     bindR (required d ''blocked_id'' text_of) (\<lambda>bid.
     bindR (required d ''action_id'' text_of) (\<lambda>aid.
     bindR (required d ''run_id'' text_of) (\<lambda>rid.
     bindR (required d ''reason'' text_of) (\<lambda>reason.
     bindR (required d ''policy_name'' text_of) (\<lambda>policy.
     bindR (stamp_of P d ''blocked_at'') (\<lambda>blocked.
       returnR \<lparr>ba_blocked_id = bid, ba_action_id = aid, ba_run_id = rid, ba_reason = reason,
         ba_policy_name = policy, ba_blocked_at = blocked\<rparr>)))))))"

definition load_authority :: "prims \<Rightarrow> pyval \<Rightarrow> authority_record reader" where
  "load_authority P v = bindR (dict_of v) (\<lambda>d.
     bindR (required d ''authority_id'' text_of) (\<lambda>aid.
     bindR (required d ''run_id'' text_of) (\<lambda>rid.
     bindR (required d ''actor'' text_of) (\<lambda>actor.
     bindR (required d ''scope'' (list_of text_of)) (\<lambda>scope.
     bindR (optional d ''expires_at'' opt_text_of None) (\<lambda>expires.
     bindR (required d ''source'' text_of) (\<lambda>source.
     bindR (stamp_of P d ''created_at'') (\<lambda>created.
       returnR \<lparr>au_authority_id = aid, au_run_id = rid, au_actor = actor, au_scope = scope,
         au_expires_at = expires, au_source = source, au_created_at = created\<rparr>))))))))"

definition load_reliance :: "prims \<Rightarrow> pyval \<Rightarrow> reliance_record reader" where
  "load_reliance P v = bindR (dict_of v) (\<lambda>d.
     bindR (required d ''reliance_id'' text_of) (\<lambda>lid.
     bindR (required d ''run_id'' text_of) (\<lambda>rid.
     bindR (required d ''source_name'' text_of) (\<lambda>name.
     bindR (required d ''source_type'' (word_of source_words)) (\<lambda>kind.
     bindR (required d ''scope'' text_of) (\<lambda>scope.
     bindR (optional d ''referenced_action_id'' opt_text_of None) (\<lambda>aid.
     bindR (stamp_of P d ''created_at'') (\<lambda>created.
       returnR \<lparr>rl_reliance_id = lid, rl_run_id = rid, rl_source_name = name, rl_source_type = kind,
         rl_scope = scope, rl_referenced_action_id = aid, rl_created_at = created\<rparr>))))))))"

definition load_body :: "prims \<Rightarrow> pydict \<Rightarrow> run_body reader" where
  "load_body P d =
     bindR (required d ''run_id'' text_of) (\<lambda>rid.
     bindR (required d ''frame'' (load_frame P)) (\<lambda>fr.
     bindR (optional d ''actions'' (list_of (load_action P)) []) (\<lambda>actions.
     bindR (optional d ''decisions'' (list_of (load_decision P)) []) (\<lambda>decisions.
     bindR (optional d ''policy_traces'' (list_of (load_trace P)) []) (\<lambda>traces.
     bindR (optional d ''authority_records'' (list_of (load_authority P)) []) (\<lambda>authorities.
     bindR (optional d ''reliance_records'' (list_of (load_reliance P)) []) (\<lambda>reliances.
     bindR (optional d ''blocked_actions'' (list_of (load_blocked P)) []) (\<lambda>blocked.
     bindR (optional d ''final_output'' opt_text_of None) (\<lambda>out.
       returnR \<lparr>rb_run_id = rid, rb_frame = fr, rb_actions = actions, rb_decisions = decisions,
         rb_policy_traces = traces, rb_authority_records = authorities, rb_reliance_records = reliances,
         rb_blocked_actions = blocked, rb_final_output = out\<rparr>)))))))))"

definition load_run :: "prims \<Rightarrow> pyval \<Rightarrow> agent_run reader" where
  "load_run P v = bindR (dict_of v) (\<lambda>d.
     bindR (required d ''task'' text_of) (\<lambda>task.
     bindR (stamp_of P d ''created_at'') (\<lambda>created.
     bindR (load_body P d) (\<lambda>body.
     bindR (optional d ''completed'' bool_of False) (\<lambda>completed.
     bindR (optional d ''replay_bundle_id'' opt_text_of None) (\<lambda>bid.
       returnR (run_body.extend body (agent_run.fields task created completed bid))))))))"

definition load_bundle :: "prims \<Rightarrow> pyval \<Rightarrow> replay_bundle reader" where
  "load_bundle P v = bindR (dict_of v) (\<lambda>d.
     bindR (required d ''replay_bundle_id'' text_of) (\<lambda>bid.
     bindR (stamp_of P d ''generated_at'') (\<lambda>generated.
     bindR (load_body P d) (\<lambda>body.
       returnR (run_body.extend body (replay_bundle.fields bid generated))))))"

definition load_signed :: "prims \<Rightarrow> pyval \<Rightarrow> signed_bundle reader" where
  "load_signed P v = bindR (dict_of v) (\<lambda>d.
     bindR (required d ''signed_bundle_id'' text_of) (\<lambda>sid.
     bindR (required d ''replay_bundle'' (load_bundle P)) (\<lambda>b.
     bindR (required d ''signature'' text_of) (\<lambda>sig.
     bindR (optional d ''signature_algorithm'' text_of ''HMAC-SHA256'') (\<lambda>alg.
     bindR (stamp_of P d ''signed_at'') (\<lambda>signed.
       returnR \<lparr>sg_signed_bundle_id = sid, sg_replay_bundle = b, sg_signature = sig,
         sg_signature_algorithm = alg, sg_signed_at = signed\<rparr>))))))"

section \<open>What was dumped is valid\<close>

named_theorems reader_simps "reading a field that is there"

lemma bindR_Inr: "m n = Inr (x, n') \<Longrightarrow> bindR m f n = f x n'"
  by (simp add: bindR_def)

lemma returnR_simp [reader_simps]: "returnR x n = Inr (x, n)"
  by (simp add: returnR_def)

lemma text_of_PStr [reader_simps]: "text_of (PStr s) n = Inr (s, n)"
  by (simp add: text_of_def liftR_def expect_str_def)

lemma opt_text_of_json [reader_simps]: "opt_text_of (json_opt s) n = Inr (s, n)"
  by (cases s) (simp_all add: opt_text_of_def json_opt_def bindR_def reader_simps)

lemma dict_of_PDict [reader_simps]: "dict_of (PDict d) n = Inr (d, n)"
  by (simp add: dict_of_def liftR_def expect_dict_def)

lemma bool_of_PBool [reader_simps]: "bool_of (PBool b) n = Inr (b, n)"
  by (simp add: bool_of_def returnR_def)

lemma word_of_gate [reader_simps]: "word_of gate_words (PStr (gate_word r)) n = Inr (r, n)"
  by (cases r) (simp_all add: word_of_def gate_words_def returnR_def)

lemma word_of_rule [reader_simps]: "word_of rule_words (PStr (rule_word r)) n = Inr (r, n)"
proof (cases r)
  case (Some g)
  then show ?thesis by (cases g) (simp_all add: word_of_def rule_words_def rule_word_def gate_words_def returnR_def)
qed (simp add: word_of_def rule_words_def rule_word_def gate_words_def returnR_def)

lemma word_of_source [reader_simps]: "word_of source_words (PStr (source_word t)) n = Inr (t, n)"
  by (cases t) (simp_all add: word_of_def source_words_def returnR_def)

lemma mapR_map: "(\<And>x n. f (g x) n = Inr (x, n)) \<Longrightarrow> mapR f (map g xs) n = Inr (xs, n)"
  by (induction xs) (simp_all add: returnR_def bindR_def)

lemma list_of_texts [reader_simps]: "list_of text_of (json_texts xs) n = Inr (xs, n)"
  by (simp add: list_of_def json_texts_def mapR_map text_of_PStr)

lemma list_of_json: "(\<And>x n. f (PDict (g x)) n = Inr (x, n)) \<Longrightarrow> list_of f (json_list g xs) n = Inr (xs, n)"
  using mapR_map [of f "\<lambda>x. PDict (g x)" xs n] by (simp add: list_of_def json_list_def)

text \<open>A field read from the document that has it.\<close>

lemma bind_required [reader_simps]:
  "map_of d k = Some v \<Longrightarrow> f v n = Inr (x, n) \<Longrightarrow> bindR (required d k f) h n = h x n"
  by (simp add: required_def bindR_def)

lemma bind_optional [reader_simps]:
  "map_of d k = Some v \<Longrightarrow> f v n = Inr (x, n) \<Longrightarrow> bindR (optional d k f y) h n = h x n"
  by (simp add: optional_def bindR_def)

lemma bind_stamp [reader_simps]: "map_of d k = Some (PStr s) \<Longrightarrow> bindR (stamp_of P d k) h n = h s n"
  by (simp add: stamp_of_def bindR_def reader_simps)

lemma bind_dict [reader_simps]: "bindR (dict_of (PDict d)) h n = h d n"
  by (simp add: bindR_def reader_simps)

lemma load_dump_frame [reader_simps]: "load_frame P (PDict (dump_frame x)) n = Inr (x, n)"
  by (simp add: load_frame_def dump_frame_def reader_simps)

lemma load_dump_action [reader_simps]: "load_action P (PDict (dump_action x)) n = Inr (x, n)"
  by (simp add: load_action_def dump_action_def reader_simps)

lemma load_dump_rule [reader_simps]: "load_rule (PDict (dump_rule x)) n = Inr (x, n)"
  by (simp add: load_rule_def dump_rule_def reader_simps)

lemma load_dump_trace [reader_simps]: "load_trace P (PDict (dump_trace x)) n = Inr (x, n)"
  by (simp add: load_trace_def dump_trace_def reader_simps list_of_json)

lemma load_dump_decision [reader_simps]: "load_decision P (PDict (dump_decision x)) n = Inr (x, n)"
  by (simp add: load_decision_def dump_decision_def reader_simps)

lemma load_dump_blocked [reader_simps]: "load_blocked P (PDict (dump_blocked x)) n = Inr (x, n)"
  by (simp add: load_blocked_def dump_blocked_def reader_simps)

lemma load_dump_authority [reader_simps]: "load_authority P (PDict (dump_authority x)) n = Inr (x, n)"
  by (simp add: load_authority_def dump_authority_def reader_simps)

lemma load_dump_reliance [reader_simps]: "load_reliance P (PDict (dump_reliance x)) n = Inr (x, n)"
  by (simp add: load_reliance_def dump_reliance_def reader_simps)

lemma load_dump_run: "load_run P (PDict (dump_run x)) n = Inr (x, n)"
  by (cases x) (simp add: load_run_def load_body_def dump_run_def dump_body_def reader_simps list_of_json bindR_Inr
      run_body.defs agent_run.defs)

lemma load_dump_bundle [reader_simps]: "load_bundle P (PDict (dump_bundle x)) n = Inr (x, n)"
  by (cases x) (simp add: load_bundle_def load_body_def dump_bundle_def dump_body_def reader_simps list_of_json bindR_Inr
      run_body.defs replay_bundle.defs)

lemma load_dump_signed: "load_signed P (PDict (dump_signed x)) n = Inr (x, n)"
  by (cases x) (simp add: load_signed_def dump_signed_def reader_simps)

section \<open>Dumps are proper documents\<close>

text \<open>The only values of a record that are not texts of the model are the payloads of its actions.\<close>

definition payloads_ok :: "'a run_body_scheme \<Rightarrow> bool" where
  "payloads_ok b = list_all (\<lambda>a. wf_pyval (PDict (ac_payload a))) (rb_actions b)"

lemma wf_json_opt [simp]: "wf_pyval (json_opt s)"
  by (cases s) (simp_all add: json_opt_def)

lemma wf_json_texts [simp]: "wf_pyval (json_texts xs)"
  by (simp add: json_texts_def list_all_iff)

lemma wf_json_list [simp]: "wf_pyval (json_list f xs) = list_all (\<lambda>x. wf_pyval (PDict (f x))) xs"
  by (simp add: json_list_def list_all_iff)

lemma wf_dump_parts [simp]: "wf_pyval (PDict (dump_frame f))" "wf_pyval (PDict (dump_rule r))"
    "wf_pyval (PDict (dump_decision d))" "wf_pyval (PDict (dump_blocked b))"
    "wf_pyval (PDict (dump_authority a))" "wf_pyval (PDict (dump_reliance l))"
  by (simp_all add: dump_frame_def dump_rule_def dump_decision_def dump_blocked_def dump_authority_def dump_reliance_def)

lemma wf_dump_trace [simp]: "wf_pyval (PDict (dump_trace t))"
  by (simp add: dump_trace_def list_all_iff dump_rule_def)

lemma wf_dump_action: "wf_pyval (PDict (dump_action a)) = wf_pyval (PDict (ac_payload a))"
  by (simp add: dump_action_def)

lemma wf_dump_body:
  "list_all (\<lambda>(k, v). wf_pyval v) (dump_body b) = payloads_ok b"
  by (simp add: dump_body_def payloads_ok_def wf_dump_action list_all_iff del: wf_pyval.simps)

lemma wf_dump_run: "wf_pyval (PDict (dump_run r)) = payloads_ok r"
proof -
  have "distinct (map fst (dump_run r))" by (simp add: dump_run_def dump_body_def)
  then show ?thesis using wf_dump_body [of r] by (simp add: dump_run_def)
qed

lemma wf_dump_bundle: "wf_pyval (PDict (dump_bundle b)) = payloads_ok b"
proof -
  have "distinct (map fst (dump_bundle b))" by (simp add: dump_bundle_def dump_body_def)
  then show ?thesis using wf_dump_body [of b] by (simp add: dump_bundle_def)
qed

lemma wf_dump_signed: "wf_pyval (PDict (dump_signed s)) = payloads_ok (sg_replay_bundle s)"
  using wf_dump_bundle [of "sg_replay_bundle s"] by (simp add: dump_signed_def del: wf_pyval.simps(2)) simp

section \<open>What was validated can be dumped\<close>

text \<open>The payloads of a document that is a proper value are proper values.\<close>

lemma bindR_iff: "bindR m f n = Inr y \<longleftrightarrow> (\<exists>x n'. m n = Inr (x, n') \<and> f x n' = Inr y)"
  by (auto simp: bindR_def bindE_Inr_iff)

lemma dict_of_iff: "dict_of v n = Inr (d, n') \<longleftrightarrow> v = PDict d \<and> n' = n"
  by (cases v) (auto simp: dict_of_def liftR_def expect_dict_def bindE_Inr_iff)

lemma wf_member: "wf_pyval (PDict d) \<Longrightarrow> map_of d k = Some v \<Longrightarrow> wf_pyval v"
  by (auto simp: list_all_iff dest!: map_of_SomeD)

lemma optional_cases:
  "optional d k f fallback n = Inr (x, n') \<Longrightarrow> x = fallback \<or> (\<exists>v. map_of d k = Some v \<and> f v n = Inr (x, n'))"
  by (auto simp: optional_def returnR_def split: option.splits)

lemma required_cases: "required d k f n = Inr (x, n') \<Longrightarrow> \<exists>v. map_of d k = Some v \<and> f v n = Inr (x, n')"
  by (auto simp: required_def liftR_def split: option.splits)

lemma mapR_all:
  "mapR f xs n = Inr (ys, m) \<Longrightarrow> (\<And>x n y m. x \<in> set xs \<Longrightarrow> f x n = Inr (y, m) \<Longrightarrow> Q y) \<Longrightarrow> list_all Q ys"
proof (induction xs arbitrary: n ys)
  case (Cons a xs)
  then obtain x k zs where "f a n = Inr (x, k)" "mapR f xs k = Inr (zs, m)" "ys = x # zs"
    by (auto simp: bindR_iff returnR_def)
  moreover from this have "list_all Q zs" using Cons.IH [of k zs] Cons.prems(2) by (meson list.set_intros(2))
  ultimately show ?case using Cons.prems(2) [of a] by simp
qed (simp add: returnR_def)

lemma load_action_wf:
  assumes "load_action P v n = Inr (a, m)" "wf_pyval v"
  shows "wf_pyval (PDict (ac_payload a))"
proof -
  obtain d payload k k' where d: "v = PDict d" "optional d ''payload'' dict_of [] k = Inr (payload, k')"
    and "ac_payload a = payload"
    using assms(1) by (auto simp: load_action_def bindR_iff dict_of_iff returnR_def)
  with assms(2) show ?thesis
    using optional_cases [OF d(2)] by (auto simp: dict_of_iff simp del: wf_pyval.simps(2) dest: wf_member) simp_all
qed

lemma load_body_wf:
  assumes "load_body P d n = Inr (b, m)" "wf_pyval (PDict d)"
  shows "payloads_ok b"
proof -
  obtain acts k k' where acts: "optional d ''actions'' (list_of (load_action P)) [] k = Inr (acts, k')"
    and b: "rb_actions b = acts"
    using assms(1) by (auto simp: load_body_def bindR_iff returnR_def)
  show ?thesis
  proof (cases "acts = []")
    case False
    then obtain v where v: "map_of d ''actions'' = Some v" "list_of (load_action P) v k = Inr (acts, k')"
      using optional_cases [OF acts] by auto
    then obtain xs where xs: "v = PList xs" "mapR (load_action P) xs k = Inr (acts, k')"
      by (auto simp: list_of_def liftR_def split: pyval.splits)
    have "list_all wf_pyval xs" using wf_member [OF assms(2) v(1)] xs(1) by simp
    then show ?thesis
      using mapR_all [OF xs(2), of "\<lambda>a. wf_pyval (PDict (ac_payload a))"] load_action_wf
      unfolding payloads_ok_def b by (metis list_all_iff)
  qed (simp add: payloads_ok_def b)
qed

lemma load_run_wf:
  assumes "load_run P v n = Inr (r, m)" "wf_pyval v"
  shows "payloads_ok r"
proof -
  obtain d body k k' where "v = PDict d" "load_body P d k = Inr (body, k')" "rb_actions r = rb_actions body"
    using assms(1) by (auto simp: load_run_def bindR_iff dict_of_iff returnR_def run_body.defs agent_run.defs)
  with assms(2) load_body_wf [of P d k body k'] show ?thesis by (simp add: payloads_ok_def del: wf_pyval.simps)
qed

lemma load_bundle_wf:
  assumes "load_bundle P v n = Inr (b, m)" "wf_pyval v"
  shows "payloads_ok b"
proof -
  obtain d body k k' where "v = PDict d" "load_body P d k = Inr (body, k')" "rb_actions b = rb_actions body"
    using assms(1) by (auto simp: load_bundle_def bindR_iff dict_of_iff returnR_def run_body.defs replay_bundle.defs)
  with assms(2) load_body_wf [of P d k body k'] show ?thesis by (simp add: payloads_ok_def del: wf_pyval.simps)
qed

end
