(* ===== verification/PolicyGate.thy ===== *)
theory PolicyGate
  imports RunModels "HOL-Library.Multiset"
begin

text \<open>
  \<open>PolicyGate\<close> of \<open>policy_gate.py\<close>: the active scopes of an evaluation, the ordered rules with
  their trace, the fingerprint, and the two entry points. A call takes the number of uuids and
  clock readings used so far and returns the new numbers.
\<close>

section \<open>Time and active scopes\<close>

text \<open>The \<open>now\<close> argument: absent, a string, or a datetime (a naive one is read as UTC).\<close>

datatype time_arg = TimeNow | TimeText string | TimeValue pydatetime

definition gate_time :: "prims \<Rightarrow> time_arg \<Rightarrow> nat \<Rightarrow> (int \<times> nat) res" where
  "gate_time P arg ticks = (case arg of
      TimeNow \<Rightarrow> Inr (clock P ticks, Suc ticks)
    | TimeText s \<Rightarrow> bindE (parse_time P s) (\<lambda>t. Inr (t, ticks))
    | TimeValue (Aware t) \<Rightarrow> Inr (t, ticks)
    | TimeValue (Naive t) \<Rightarrow> Inr (t, ticks))"

definition record_scopes :: "prims \<Rightarrow> action_proposal \<Rightarrow> frame \<Rightarrow> int \<Rightarrow> authority_record \<Rightarrow> string list res" where
  "record_scopes P action fr now r =
     (if au_run_id r \<noteq> ac_run_id action then Inr []
      else if au_actor r \<noteq> fr_actor fr then Inr []
      else (case au_expires_at r of
          None \<Rightarrow> Inr (au_scope r)
        | Some e \<Rightarrow> bindE (parse_time P e) (\<lambda>t. Inr (if t \<le> now then [] else au_scope r))))"

definition active_scopes ::
  "prims \<Rightarrow> action_proposal \<Rightarrow> frame \<Rightarrow> authority_record list \<Rightarrow> int \<Rightarrow> string list res" where
  "active_scopes P action fr records now = collectE (record_scopes P action fr now) records"

section \<open>The rules\<close>

text \<open>The six rules in order: name, whether it matches, its result and its reason.\<close>

definition gate_rules :: "action_proposal \<Rightarrow> frame \<Rightarrow> string list \<Rightarrow> (string \<times> bool \<times> gate_result \<times> string) list" where
  "gate_rules action fr scopes =
     [(''blocked_tool_policy'', ac_tool_name action \<in> set (fr_blocked_tools fr), Block,
         ''Tool '' @ [CHR 0x27] @ ac_tool_name action @ [CHR 0x27] @ '' is explicitly blocked in this frame.''),
      (''unknown_tool_policy'', ac_tool_name action \<notin> set (fr_allowed_tools fr), Escalate,
         ''Tool '' @ [CHR 0x27] @ ac_tool_name action @ [CHR 0x27] @
         '' is not in the allowed-tools list and requires manual review.''),
      (''external_send_authority_policy'', ac_action_type action = ''external_send'',
         (if ''external_send'' \<in> set scopes then Allow else Block),
         (if ''external_send'' \<in> set scopes
          then ''Authority for '' @ [CHR 0x27] @ ''external_send'' @ [CHR 0x27] @ '' is present; action allowed.''
          else ''Action type '' @ [CHR 0x27] @ ''external_send'' @ [CHR 0x27] @
            '' requires an authority record with scope '' @ [CHR 0x27] @ ''external_send'' @ [CHR 0x27] @
            '', which was not found.'')),
      (''read_allowed_tool_policy'', ac_action_type action = ''read'', Allow,
         ''Tool '' @ [CHR 0x27] @ ac_tool_name action @ [CHR 0x27] @ '' is allowed and action type is '' @
         [CHR 0x27] @ ''read'' @ [CHR 0x27] @ ''.''),
      (''write_authority_policy'', ac_action_type action = ''write'',
         (if ''write'' \<in> set scopes then Allow else Escalate),
         (if ''write'' \<in> set scopes
          then ''Authority for '' @ [CHR 0x27] @ ''write'' @ [CHR 0x27] @ '' is present; action allowed.''
          else ''Action type '' @ [CHR 0x27] @ ''write'' @ [CHR 0x27] @
            '' requires an authority record with scope '' @ [CHR 0x27] @ ''write'' @ [CHR 0x27] @
            '', which was not found; escalating for review.'')),
      (''default_escalation_policy'', True, Escalate,
         ''Action type '' @ [CHR 0x27] @ ac_action_type action @ [CHR 0x27] @
         '' does not match any explicit allow or block rule; escalating for review.'')]"

text \<open>Walking the rules to the first match, with the trace; past the last rule the code raises.\<close>

fun walk_rules :: "(string \<times> bool \<times> gate_result \<times> string) list \<Rightarrow> rule_evaluation list \<Rightarrow>
    (gate_result \<times> string \<times> string \<times> rule_evaluation list) res" where
  "walk_rules [] trace = throw_msg RuntimeError ''Policy rule evaluation did not produce a decision.''"
| "walk_rules ((name, matched, result, reason) # rules) trace =
     (if matched
      then Inr (result, name, reason,
        trace @ [\<lparr>re_rule_name = name, re_matched = True, re_result = Some result, re_reason = reason\<rparr>])
      else walk_rules rules
        (trace @ [\<lparr>re_rule_name = name, re_matched = False, re_result = None,
                   re_reason = ''Rule '' @ [CHR 0x27] @ name @ [CHR 0x27] @ '' did not match this action.''\<rparr>]))"

definition apply_rules :: "action_proposal \<Rightarrow> frame \<Rightarrow> string list \<Rightarrow>
    (gate_result \<times> string \<times> string \<times> rule_evaluation list) res" where
  "apply_rules action fr scopes = walk_rules (gate_rules action fr scopes) []"

section \<open>The fingerprint\<close>

text \<open>
  \<open>json.dumps(v, sort_keys=True, ensure_ascii=True)\<close>: the default separators, and every
  character beyond printable ASCII as \<open>\u\<close> escapes of its UTF-16 units.
\<close>

definition code_point :: "string \<Rightarrow> nat" where
  "code_point s = (case map of_char s :: nat list of
      [a] \<Rightarrow> a
    | [a, b] \<Rightarrow> (a mod 32) * 64 + b mod 64
    | [a, b, c] \<Rightarrow> ((a mod 16) * 64 + b mod 64) * 64 + c mod 64
    | [a, b, c, d] \<Rightarrow> (((a mod 8) * 64 + b mod 64) * 64 + c mod 64) * 64 + d mod 64
    | _ \<Rightarrow> 0)"

definition u_escape :: "nat \<Rightarrow> string" where
  "u_escape n = [CHR 0x5C, CHR ''u'', hexdig (n div 4096 mod 16), hexdig (n div 256 mod 16),
     hexdig (n div 16 mod 16), hexdig (n mod 16)]"

definition ascii_char :: "string \<Rightarrow> string" where
  "ascii_char s = (let n = code_point s
     in if n < 127 then concat (map esc_char s)
        else if n < 65536 then u_escape n
        else u_escape (55296 + (n - 65536) div 1024) @ u_escape (56320 + (n - 65536) mod 1024))"

definition ascii_quoted :: "string \<Rightarrow> string" where
  "ascii_quoted s = CHR 0x22 # concat (map ascii_char (utf8_chars s)) @ [CHR 0x22]"

fun comma_space :: "string list \<Rightarrow> string" where
  "comma_space [] = []"
| "comma_space [s] = s"
| "comma_space (s # t # ss) = s @ '', '' @ comma_space (t # ss)"

fun ascii_json :: "prims \<Rightarrow> pyval \<Rightarrow> string" where
  "ascii_json P PNone = ''null''"
| "ascii_json P (PBool b) = (if b then ''true'' else ''false'')"
| "ascii_json P (PInt n) = digits_int n"
| "ascii_json P (PFloat q) = float_repr P q"
| "ascii_json P (PStr s) = ascii_quoted s"
| "ascii_json P (PList xs) = CHR ''['' # comma_space (map (ascii_json P) xs) @ '']''"
| "ascii_json P (PDict d) = CHR ''{'' #
     comma_space (map (\<lambda>(k, s). ascii_quoted k @ '': '' @ s)
       (sort_key fst (map (\<lambda>(k, v). (k, ascii_json P v)) d))) @ ''}''"

definition fingerprint :: "prims \<Rightarrow> action_proposal \<Rightarrow> frame \<Rightarrow> string list \<Rightarrow> string" where
  "fingerprint P action fr scopes = sha256_hex P (ascii_json P (PDict
     [(''tool_name'', PStr (ac_tool_name action)),
      (''action_type'', PStr (ac_action_type action)),
      (''target'', PStr (ac_target action)),
      (''payload'', PDict (ac_payload action)),
      (''allowed_tools'', PList (map PStr (sort (fr_allowed_tools fr)))),
      (''blocked_tools'', PList (map PStr (sort (fr_blocked_tools fr)))),
      (''policy_version'', PStr (fr_policy_version fr)),
      (''authority_scopes'', PList (map PStr (sorted_set scopes)))]))"

section \<open>The entry points\<close>

definition gate_evaluate ::
  "prims \<Rightarrow> action_proposal \<Rightarrow> frame \<Rightarrow> authority_record list \<Rightarrow> time_arg \<Rightarrow> nat \<times> nat \<Rightarrow>
     (gate_decision \<times> nat \<times> nat) res" where
  "gate_evaluate P action fr records now counters = (case counters of (uuids, ticks) \<Rightarrow>
     bindE (gate_time P now ticks) (\<lambda>(t, ticks').
     bindE (active_scopes P action fr records t) (\<lambda>scopes.
     bindE (apply_rules action fr scopes) (\<lambda>(result, name, reason, _).
       Inr (\<lparr>gd_decision_id = uuid4 P uuids, gd_action_id = ac_action_id action,
             gd_run_id = ac_run_id action, gd_result = result, gd_policy_name = name, gd_reason = reason,
             gd_decided_at = isoformat_utc P t, gd_fingerprint = fingerprint P action fr scopes,
             gd_trace_id = None\<rparr>, Suc uuids, ticks')))))"

definition gate_evaluate_with_trace ::
  "prims \<Rightarrow> action_proposal \<Rightarrow> frame \<Rightarrow> authority_record list \<Rightarrow> time_arg \<Rightarrow> nat \<times> nat \<Rightarrow>
     (gate_decision \<times> policy_trace \<times> nat \<times> nat) res" where
  "gate_evaluate_with_trace P action fr records now counters = (case counters of (uuids, ticks) \<Rightarrow>
     bindE (gate_time P now ticks) (\<lambda>(t, ticks').
     bindE (active_scopes P action fr records t) (\<lambda>scopes.
     bindE (apply_rules action fr scopes) (\<lambda>(result, name, reason, trace).
       Inr (\<lparr>gd_decision_id = uuid4 P (Suc uuids), gd_action_id = ac_action_id action,
             gd_run_id = ac_run_id action, gd_result = result, gd_policy_name = name, gd_reason = reason,
             gd_decided_at = isoformat_utc P t, gd_fingerprint = fingerprint P action fr scopes,
             gd_trace_id = Some (uuid4 P uuids)\<rparr>,
            \<lparr>tr_trace_id = uuid4 P uuids, tr_run_id = ac_run_id action, tr_action_id = ac_action_id action,
             tr_evaluated_at = isoformat_utc P t, tr_rules_evaluated = trace, tr_final_result = result,
             tr_fingerprint = fingerprint P action fr scopes\<rparr>, Suc (Suc uuids), ticks')))))"

section \<open>Lemmas\<close>

text \<open>Walking stops at the first rule that matches.\<close>

abbreviation rule_matches :: "string \<times> bool \<times> gate_result \<times> string \<Rightarrow> bool" where
  "rule_matches x \<equiv> fst (snd x)"

definition unmatched_entry :: "string \<times> bool \<times> gate_result \<times> string \<Rightarrow> rule_evaluation" where
  "unmatched_entry x = \<lparr>re_rule_name = fst x, re_matched = False, re_result = None,
     re_reason = ''Rule '' @ [CHR 0x27] @ fst x @ [CHR 0x27] @ '' did not match this action.''\<rparr>"

lemma walk_rules_first:
  "walk_rules rules trace = Inr (r, n, reason, out) \<Longrightarrow>
     \<exists>pre post. rules = pre @ (n, True, r, reason) # post \<and> (\<forall>x\<in>set pre. \<not> rule_matches x) \<and>
       out = trace @ map unmatched_entry pre @
         [\<lparr>re_rule_name = n, re_matched = True, re_result = Some r, re_reason = reason\<rparr>]"
proof (induction rules trace rule: walk_rules.induct)
  case (1 trace)
  then show ?case by simp
next
  case (2 name matched result reason' rules trace)
  show ?case
  proof (cases matched)
    case True
    with 2(2) show ?thesis by (intro exI [of _ "[]"] exI [of _ rules]) auto
  next
    case False
    from 2(1) [OF False] 2(2) False obtain pre post where
      "rules = pre @ (n, True, r, reason) # post" "\<forall>x\<in>set pre. \<not> rule_matches x"
      "out = trace @ [unmatched_entry (name, matched, result, reason')] @ map unmatched_entry pre @
         [\<lparr>re_rule_name = n, re_matched = True, re_result = Some r, re_reason = reason\<rparr>]"
      by (auto simp: unmatched_entry_def)
    with False show ?thesis by (intro exI [of _ "(name, matched, result, reason') # pre"] exI [of _ post]) auto
  qed
qed

text \<open>What the rules decide, as one nested condition; the rules always decide.\<close>

definition rule_outcome :: "action_proposal \<Rightarrow> frame \<Rightarrow> string list \<Rightarrow> gate_result" where
  "rule_outcome action fr scopes =
     (if ac_tool_name action \<in> set (fr_blocked_tools fr) then Block
      else if ac_tool_name action \<notin> set (fr_allowed_tools fr) then Escalate
      else if ac_action_type action = ''external_send''
        then (if ''external_send'' \<in> set scopes then Allow else Block)
      else if ac_action_type action = ''read'' then Allow
      else if ac_action_type action = ''write'' then (if ''write'' \<in> set scopes then Allow else Escalate)
      else Escalate)"

lemma apply_rules_total:
  "\<exists>n reason trace. apply_rules action fr scopes = Inr (rule_outcome action fr scopes, n, reason, trace)"
  by (simp add: apply_rules_def gate_rules_def rule_outcome_def)

lemma apply_rules_outcome:
  "apply_rules action fr scopes = Inr (r, n, reason, trace) \<Longrightarrow> r = rule_outcome action fr scopes"
  using apply_rules_total [of action fr scopes] by auto

lemma gate_evaluate_cases:
  assumes "gate_evaluate P action fr records now k = Inr (d, k')"
  obtains t ticks scopes where "gate_time P now (snd k) = Inr (t, ticks)"
    "active_scopes P action fr records t = Inr scopes" "gd_result d = rule_outcome action fr scopes"
    "gd_fingerprint d = fingerprint P action fr scopes" "gd_action_id d = ac_action_id action"
    "gd_run_id d = ac_run_id action" "gd_trace_id d = None" "k' = (Suc (fst k), ticks)"
  using assms by (auto simp: gate_evaluate_def res_iff dest: apply_rules_outcome split: prod.splits)

lemma gate_trace_cases:
  assumes "gate_evaluate_with_trace P action fr records now k = Inr (d, tr, k')"
  obtains t ticks scopes where "gate_time P now (snd k) = Inr (t, ticks)"
    "active_scopes P action fr records t = Inr scopes" "gd_result d = rule_outcome action fr scopes"
    "apply_rules action fr scopes = Inr (gd_result d, gd_policy_name d, gd_reason d, tr_rules_evaluated tr)"
    "gd_fingerprint d = fingerprint P action fr scopes" "gd_action_id d = ac_action_id action"
    "gd_run_id d = ac_run_id action" "gd_trace_id d = Some (uuid4 P (fst k))" "tr_trace_id tr = uuid4 P (fst k)"
    "tr_fingerprint tr = gd_fingerprint d" "tr_final_result tr = gd_result d"
    "tr_run_id tr = ac_run_id action" "tr_action_id tr = ac_action_id action" "k' = (Suc (Suc (fst k)), ticks)"
proof -
  obtain u n where k: "k = (u, n)" by (cases k)
  from assms obtain t ticks scopes r name reason trace where
    t: "gate_time P now n = Inr (t, ticks)" and sc: "active_scopes P action fr records t = Inr scopes"
    and ar: "apply_rules action fr scopes = Inr (r, name, reason, trace)"
    by (auto simp: gate_evaluate_with_trace_def k res_iff)
  from assms t sc ar apply_rules_outcome [OF ar] show thesis
    by (intro that [of t ticks scopes]) (auto simp: gate_evaluate_with_trace_def k)
qed

lemma active_scopes_member:
  assumes "active_scopes P action fr records now = Inr scopes" "s \<in> set scopes"
  shows "\<exists>r\<in>set records. s \<in> set (au_scope r) \<and> au_run_id r = ac_run_id action \<and> au_actor r = fr_actor fr \<and>
     (\<forall>e. au_expires_at r = Some e \<longrightarrow> (\<exists>t. parse_time P e = Inr t \<and> now < t))"
  using assms
proof (induction records arbitrary: scopes)
  case Nil
  then show ?case by (simp add: active_scopes_def)
next
  case (Cons r records)
  from Cons.prems(1) obtain xs ys where xs: "record_scopes P action fr now r = Inr xs"
    and ys: "active_scopes P action fr records now = Inr ys" "scopes = xs @ ys"
    by (auto simp: active_scopes_def appendE_def res_iff)
  show ?case
  proof (cases "s \<in> set xs")
    case True
    with xs show ?thesis
      by (intro bexI [of _ r]) (auto simp: record_scopes_def res_iff split: if_splits option.splits)
  next
    case False
    with Cons.IH [OF ys(1)] Cons.prems(2) ys(2) show ?thesis by auto
  qed
qed

lemma ascii_json_PDict:
  "ascii_json P (PDict d) = CHR ''{'' #
     comma_space (map (\<lambda>(k, v). ascii_quoted k @ '': '' @ ascii_json P v) (sort_key fst d)) @ ''}''"
proof -
  have "(\<lambda>(k, s). ascii_quoted k @ '': '' @ s) \<circ> (\<lambda>(k, v). (k, ascii_json P v)) =
      (\<lambda>(k, v). ascii_quoted k @ '': '' @ ascii_json P v)"
    by auto
  then show ?thesis by (simp add: sort_key_map_snd)
qed

section \<open>Properties\<close>


text \<open>
  The trace explains the decision: the decision and its trace carry the same action, run,
  trace id, result and fingerprint, and the trace lists the rules in the gate's order up to the
  one that decided: every earlier rule as not matched without result, the last as matched with
  the decision's own result and reason.
\<close>

theorem trace_explains_decision:
  assumes "gate_evaluate_with_trace P action fr records now k = Inr (d, tr, k')"
  shows "gd_trace_id d = Some (tr_trace_id tr) \<and> tr_action_id tr = gd_action_id d \<and> tr_run_id tr = gd_run_id d \<and>
     tr_final_result tr = gd_result d \<and> tr_fingerprint tr = gd_fingerprint d \<and>
     (\<exists>pre last. tr_rules_evaluated tr = pre @ [last] \<and>
        (\<forall>x\<in>set pre. \<not> re_matched x \<and> re_result x = None) \<and>
        re_matched last \<and> re_result last = Some (gd_result d) \<and> re_rule_name last = gd_policy_name d \<and>
        re_reason last = gd_reason d \<and>
        map re_rule_name (tr_rules_evaluated tr) = take (length (tr_rules_evaluated tr))
          [''blocked_tool_policy'', ''unknown_tool_policy'', ''external_send_authority_policy'',
           ''read_allowed_tool_policy'', ''write_authority_policy'', ''default_escalation_policy''])"
  using assms
proof (rule gate_trace_cases)
  fix scopes
  assume ar: "apply_rules action fr scopes = Inr (gd_result d, gd_policy_name d, gd_reason d, tr_rules_evaluated tr)"
    and eqs: "gd_action_id d = ac_action_id action" "gd_run_id d = ac_run_id action"
    "gd_trace_id d = Some (uuid4 P (fst k))" "tr_trace_id tr = uuid4 P (fst k)"
    "tr_fingerprint tr = gd_fingerprint d" "tr_final_result tr = gd_result d"
    "tr_run_id tr = ac_run_id action" "tr_action_id tr = ac_action_id action"
  from walk_rules_first [OF ar [unfolded apply_rules_def]] obtain pre post where
    rules: "gate_rules action fr scopes = pre @ (gd_policy_name d, True, gd_result d, gd_reason d) # post"
    and tr: "tr_rules_evaluated tr = map unmatched_entry pre @
       [\<lparr>re_rule_name = gd_policy_name d, re_matched = True, re_result = Some (gd_result d), re_reason = gd_reason d\<rparr>]"
    by auto
  have "map re_rule_name (tr_rules_evaluated tr) = take (length (tr_rules_evaluated tr)) (map fst (gate_rules action fr scopes))"
    unfolding rules tr by (simp add: unmatched_entry_def)
  moreover have "map fst (gate_rules action fr scopes) =
      [''blocked_tool_policy'', ''unknown_tool_policy'', ''external_send_authority_policy'',
       ''read_allowed_tool_policy'', ''write_authority_policy'', ''default_escalation_policy'']"
    by (simp add: gate_rules_def)
  ultimately show ?thesis
    using tr eqs by (auto simp: unmatched_entry_def)
qed

text \<open>
  The fingerprint does not depend on incidental order: permuting the allow list, the block
  list or the authority records' scopes (or repeating a scope), or reordering the payload's keys,
  gives the same fingerprint.
\<close>

theorem fingerprint_order_independent:
  assumes "mset (fr_allowed_tools fr) = mset (fr_allowed_tools fr')"
    and "mset (fr_blocked_tools fr) = mset (fr_blocked_tools fr')"
    and "fr_policy_version fr = fr_policy_version fr'" "set scopes = set scopes'"
    and "distinct (map fst d)" "distinct (map fst e)" "set d = set e"
  shows "fingerprint P (action\<lparr>ac_payload := d\<rparr>) fr scopes = fingerprint P (action\<lparr>ac_payload := e\<rparr>) fr' scopes'"
proof -
  have sorts: "sort (fr_allowed_tools fr) = sort (fr_allowed_tools fr')"
    "sort (fr_blocked_tools fr) = sort (fr_blocked_tools fr')"
    using assms(1,2) by (metis mset_sort properties_for_sort sorted_sort)+
  have payload: "ascii_json P (PDict d) = ascii_json P (PDict e)"
    by (simp only: ascii_json_PDict sort_key_distinct_unique [OF assms(5-7)])
  show ?thesis
    by (simp only: fingerprint_def action_proposal.simps sorts assms(3) sorted_set_cong [OF assms(4)]
        ascii_json_PDict) (simp add: payload del: ascii_json.simps(7))
qed

section \<open>The gate as a table\<close>

text \<open>
  A scope is active when some record of the run and of the frame's actor has it and has no expiry,
  or one after the evaluation time; the records of others are not looked at, and an expiry that is
  no timestamp stops the evaluation.
\<close>

definition concerns :: "action_proposal \<Rightarrow> frame \<Rightarrow> authority_record \<Rightarrow> bool" where
  "concerns action fr r \<longleftrightarrow> au_run_id r = ac_run_id action \<and> au_actor r = fr_actor fr"

definition scope_active ::
  "prims \<Rightarrow> action_proposal \<Rightarrow> frame \<Rightarrow> authority_record list \<Rightarrow> int \<Rightarrow> string \<Rightarrow> bool" where
  "scope_active P action fr records now s \<longleftrightarrow> (\<exists>r\<in>set records. concerns action fr r \<and> s \<in> set (au_scope r) \<and>
     (case au_expires_at r of None \<Rightarrow> True | Some e \<Rightarrow> \<exists>u. parse_time P e = Inr u \<and> now < u))"

definition expiry_unreadable :: "prims \<Rightarrow> action_proposal \<Rightarrow> frame \<Rightarrow> authority_record list \<Rightarrow> bool" where
  "expiry_unreadable P action fr records \<longleftrightarrow> (\<exists>r\<in>set records. concerns action fr r \<and>
     (\<exists>e x. au_expires_at r = Some e \<and> parse_time P e = Inl x))"

lemma record_scopes_outcome:
  "case record_scopes P action fr now r of
     Inl _ \<Rightarrow> expiry_unreadable P action fr [r]
   | Inr xs \<Rightarrow> \<not> expiry_unreadable P action fr [r] \<and> (\<forall>s. s \<in> set xs \<longleftrightarrow> scope_active P action fr [r] now s)"
  by (cases "au_expires_at r"; cases "parse_time P (the (au_expires_at r))")
    (auto simp: record_scopes_def expiry_unreadable_def scope_active_def concerns_def)

lemma active_scopes_outcome:
  "case active_scopes P action fr records now of
     Inl _ \<Rightarrow> expiry_unreadable P action fr records
   | Inr xs \<Rightarrow> \<not> expiry_unreadable P action fr records \<and> (\<forall>s. s \<in> set xs \<longleftrightarrow> scope_active P action fr records now s)"
proof (induction records)
  case Nil
  then show ?case by (simp add: active_scopes_def expiry_unreadable_def scope_active_def)
next
  case (Cons r records)
  have u: "expiry_unreadable P action fr (r # records) \<longleftrightarrow>
      expiry_unreadable P action fr [r] \<or> expiry_unreadable P action fr records"
    and a: "scope_active P action fr (r # records) now s \<longleftrightarrow>
      scope_active P action fr [r] now s \<or> scope_active P action fr records now s" for s
    by (auto simp: expiry_unreadable_def scope_active_def)
  have "active_scopes P action fr (r # records) now =
      appendE (record_scopes P action fr now r) (active_scopes P action fr records now)"
    by (simp add: active_scopes_def)
  with Cons.IH record_scopes_outcome [of P action fr r now] show ?case
    by (auto simp: u a appendE_def split: sum.splits)
qed

text \<open>Both entry points decide alike.\<close>

lemma trace_agrees:
  "case gate_evaluate_with_trace P action fr records now k of
     Inl e \<Rightarrow> gate_evaluate P action fr records now k = Inl e
   | Inr (d, _, k') \<Rightarrow> gate_evaluate P action fr records now k =
       Inr (d\<lparr>gd_decision_id := uuid4 P (fst k), gd_trace_id := None\<rparr>, Suc (fst k), snd k')"
  by (cases k) (auto simp: gate_evaluate_def gate_evaluate_with_trace_def bindE_def split: sum.splits prod.splits)

lemma gate_raises:
  assumes "gate_evaluate P action fr records now k = Inl e"
  shows "(\<exists>e. gate_time P now (snd k) = Inl e) \<or> expiry_unreadable P action fr records"
proof (cases "gate_time P now (snd k)")
  case (Inr x)
  obtain t n where x: "x = (t, n)" by (cases x)
  show ?thesis
  proof (cases "active_scopes P action fr records t")
    case (Inl y)
    with active_scopes_outcome [of P action fr records t] show ?thesis by simp
  next
    case (Inr scopes)
    with assms \<open>gate_time P now (snd k) = Inr x\<close> apply_rules_total [of action fr scopes] show ?thesis
      by (cases k) (auto simp: gate_evaluate_def x)
  qed
qed simp

lemma gate_result_table:
  assumes "gate_evaluate P action fr records now k = Inr (d, k')"
  shows "\<not> expiry_unreadable P action fr records \<and>
     (\<exists>t. gate_time P now (snd k) = Inr (t, snd k') \<and>
        (gd_result d = Block \<longleftrightarrow> ac_tool_name action \<in> set (fr_blocked_tools fr) \<or>
           ac_tool_name action \<in> set (fr_allowed_tools fr) \<and> ac_action_type action = ''external_send'' \<and>
           \<not> scope_active P action fr records t ''external_send'') \<and>
        (gd_result d = Allow \<longleftrightarrow> ac_tool_name action \<notin> set (fr_blocked_tools fr) \<and>
           ac_tool_name action \<in> set (fr_allowed_tools fr) \<and>
           (ac_action_type action = ''read'' \<or>
            ac_action_type action \<in> {''write'', ''external_send''} \<and>
            scope_active P action fr records t (ac_action_type action))))"
  using assms
proof (rule gate_evaluate_cases)
  fix t ticks scopes
  assume sc: "active_scopes P action fr records t = Inr scopes" and k': "k' = (Suc (fst k), ticks)"
    and t: "gate_time P now (snd k) = Inr (t, ticks)" and r: "gd_result d = rule_outcome action fr scopes"
  have "\<not> expiry_unreadable P action fr records" "\<And>s. s \<in> set scopes \<longleftrightarrow> scope_active P action fr records t s"
    using active_scopes_outcome [of P action fr records t] by (simp_all add: sc)
  with t k' show ?thesis
    unfolding r by (intro conjI exI [of _ t]) (auto simp: rule_outcome_def)
qed

text \<open>
  C40. What the gate decides, as a table. An evaluation ends with an exception exactly when the time it
  is given, or the expiry of a record of this run and this frame's actor, cannot be read. Otherwise
  it blocks exactly the tools on the block list and, among the other allowed tools, the external
  sends without an active scope for them; it allows exactly the allowed and not blocked tools'
  reads, and their writes and external sends with an active scope of that name; and it escalates
  the rest. The evaluation with a trace ends alike, with the same decision but for the identifiers.
  (The payload of an action is a JSON value, of which the fingerprint can be taken.)
\<close>

theorem gate_decides:
  "(case gate_evaluate P action fr records now k of
      Inl _ \<Rightarrow> (\<exists>e. gate_time P now (snd k) = Inl e) \<or> expiry_unreadable P action fr records
    | Inr (d, k') \<Rightarrow> \<not> expiry_unreadable P action fr records \<and>
        (\<exists>t. gate_time P now (snd k) = Inr (t, snd k') \<and>
          (gd_result d = Block \<longleftrightarrow> ac_tool_name action \<in> set (fr_blocked_tools fr) \<or>
             ac_tool_name action \<in> set (fr_allowed_tools fr) \<and> ac_action_type action = ''external_send'' \<and>
             \<not> scope_active P action fr records t ''external_send'') \<and>
          (gd_result d = Allow \<longleftrightarrow> ac_tool_name action \<notin> set (fr_blocked_tools fr) \<and>
             ac_tool_name action \<in> set (fr_allowed_tools fr) \<and>
             (ac_action_type action = ''read'' \<or>
              ac_action_type action \<in> {''write'', ''external_send''} \<and>
              scope_active P action fr records t (ac_action_type action))))) \<and>
   (case gate_evaluate_with_trace P action fr records now k of
      Inl e \<Rightarrow> gate_evaluate P action fr records now k = Inl e
    | Inr (d, _, k') \<Rightarrow> gate_evaluate P action fr records now k =
        Inr (d\<lparr>gd_decision_id := uuid4 P (fst k), gd_trace_id := None\<rparr>, Suc (fst k), snd k'))"
  using gate_raises [of P action fr records now k] gate_result_table [of P action fr records now k]
    trace_agrees [where P = P and action = action and fr = fr and records = records and now = now and k = k]
  by (simp split: sum.split prod.split)

section \<open>Witnesses\<close>

definition sample_prims :: prims where
  "sample_prims = \<lparr>sha256_hex = (\<lambda>s. s), float_repr = (\<lambda>q. ''0.0''), parse_int = (\<lambda>s. None),
     parse_float = (\<lambda>s. None), fromisoformat = (\<lambda>s. Some (Aware 50)), isoformat_utc = digits_int,
     local_to_utc = (\<lambda>n. n), container_repr = (\<lambda>v. ''''), uuid4 = (\<lambda>n. replicate n (CHR ''u'')),
     clock = (\<lambda>n. 10)\<rparr>"

definition sample_frame :: frame where
  "sample_frame = \<lparr>fr_frame_id = ''f'', fr_task = ''t'', fr_actor = ''agent'', fr_environment = ''test'',
     fr_allowed_tools = [''crm'', ''mail''], fr_blocked_tools = [''shell''], fr_policy_version = ''v1'',
     fr_created_at = ''now''\<rparr>"

definition sample_action :: action_proposal where
  "sample_action = \<lparr>ac_action_id = ''a'', ac_run_id = ''run'', ac_tool_name = ''crm'', ac_action_type = ''write'',
     ac_target = ''c:1'', ac_payload = [], ac_proposed_at = ''now'', ac_reason = None\<rparr>"

definition sample_authority :: authority_record where
  "sample_authority = \<lparr>au_authority_id = ''x'', au_run_id = ''run'', au_actor = ''agent'', au_scope = [''write''],
     au_expires_at = Some ''later'', au_source = ''config'', au_created_at = ''now''\<rparr>"

lemmas sample_defs = sample_prims_def sample_frame_def sample_action_def sample_authority_def

lemma sample_evaluates:
  "\<exists>d. gate_evaluate sample_prims sample_action sample_frame [sample_authority] TimeNow (0, 0) =
     Inr (d, 1, 1) \<and> gd_result d = Allow"
  by (simp add: gate_evaluate_def gate_time_def active_scopes_def record_scopes_def parse_time_def
      apply_rules_def gate_rules_def sample_defs)

lemma sample_traces:
  "\<exists>d tr. gate_evaluate_with_trace sample_prims sample_action sample_frame [sample_authority] TimeNow (0, 0) =
     Inr (d, tr, 2, 1)"
  by (simp add: gate_evaluate_with_trace_def gate_time_def active_scopes_def record_scopes_def parse_time_def
      apply_rules_def gate_rules_def sample_defs)


lemma gate_decides_witness:
  "\<exists>d k. gate_evaluate sample_prims sample_action sample_frame [sample_authority] TimeNow (0, 0) = Inr (d, k) \<and>
     gd_result d = Allow \<and>
     (\<exists>t. scope_active sample_prims sample_action sample_frame [sample_authority] t ''write'')"
proof -
  from sample_evaluates obtain d where
    d: "gate_evaluate sample_prims sample_action sample_frame [sample_authority] TimeNow (0, 0) = Inr (d, 1, 1)"
    "gd_result d = Allow" by blast
  with gate_decides [where P = sample_prims and action = sample_action and fr = sample_frame and
      records = "[sample_authority]" and now = TimeNow and k = "(0, 0)"]
  show ?thesis by (auto simp: sample_action_def)
qed

lemma trace_explains_decision_witness:
  "\<exists>(d :: gate_decision) (tr :: policy_trace). gd_trace_id d = Some (tr_trace_id tr) \<and>
     tr_rules_evaluated tr \<noteq> []"
proof -
  from sample_traces obtain d tr where
    "gate_evaluate_with_trace sample_prims sample_action sample_frame [sample_authority] TimeNow (0, 0) = Inr (d, tr, 2, 1)"
    by blast
  from trace_explains_decision [OF this] show ?thesis by (intro exI [of _ d] exI [of _ tr]) auto
qed

lemma fingerprint_order_independent_witness:
  "fingerprint sample_prims (sample_action\<lparr>ac_payload := [(''a'', PInt 1), (''b'', PInt 2)]\<rparr>) sample_frame
     [''read'', ''write''] =
   fingerprint sample_prims (sample_action\<lparr>ac_payload := [(''b'', PInt 2), (''a'', PInt 1)]\<rparr>)
     (sample_frame\<lparr>fr_allowed_tools := [''mail'', ''crm'']\<rparr>) [''write'', ''read'', ''write'']"
  by (rule fingerprint_order_independent) (auto simp: sample_frame_def)

end
