(* ===== verification/EscapedText.thy ===== *)
theory EscapedText
  imports JsonText PolicyGate
begin

text \<open>
  JSON strings escaped to ASCII (\<open>ensure_ascii\<close>, the default of \<open>json.dumps\<close>), as signatures, the
  bounded record store and the local destination write them: the reader gets Unicode text back, so
  that such a printer is a \<open>string_writer\<close>.
\<close>

section \<open>Escaped text comes back\<close>

text \<open>Unicode text: every character is the encoding of a scalar value.\<close>

definition scalar :: "nat \<Rightarrow> bool" where
  "scalar n \<longleftrightarrow> n < 55296 \<or> 57344 \<le> n \<and> n < 1114112"

definition unicode :: "string \<Rightarrow> bool" where
  "unicode s = list_all (\<lambda>c. scalar (code_point c) \<and> utf8 (code_point c) = c) (utf8_chars s)"

lemma concat_utf8_chars: "concat (utf8_chars s) = s"
  by (induction s rule: utf8_chars.induct) simp_all

lemma hex4_u_escape: "n < 65536 \<Longrightarrow> hex4 (drop 2 (u_escape n) @ x) = Some n"
proof -
  assume n: "n < 65536"
  have top: "n div 4096 mod 16 = n div 16 div 16 div 16" using n by (simp add: div_mult2_eq [symmetric])
  have mid: "n div 256 mod 16 = n div 16 div 16 mod 16" by (simp add: div_mult2_eq [symmetric])
  have "((n div 4096 mod 16 * 16 + n div 256 mod 16) * 16 + n div 16 mod 16) * 16 + n mod 16 = n"
    unfolding top mid by (simp only: div_mult_mod_eq)
  moreover have "hex4 (drop 2 (u_escape n) @ x) =
      Some (((n div 4096 mod 16 * 16 + n div 256 mod 16) * 16 + n div 16 mod 16) * 16 + n mod 16)"
    by (simp only: u_escape_def hex4_def drop_Suc_Cons drop_0 numeral_2_eq_2 append_Cons list.case prod.case
        hex_of_hexdig mod_less_divisor zero_less_numeral option.case)
  ultimately show ?thesis by (simp only:)
qed

lemma scan_u_escape:
  "scan_string (u_escape n @ x) = (case scan_unit (drop 2 (u_escape n) @ x) of
      None \<Rightarrow> None | Some (t, r) \<Rightarrow> map_option (\<lambda>(u, r'). (t @ u, r')) (scan_string r))"
  by (simp add: u_escape_def scan_escape_def)

lemma scan_ascii_char:
  assumes "scalar (code_point c)" "utf8 (code_point c) = c"
  shows "scan_string (ascii_char c @ x) = map_option (\<lambda>(u, r). (c @ u, r)) (scan_string x)"
proof -
  define n where "n = code_point c"
  consider "n < 127" | "127 \<le> n" "n < 65536" | "65536 \<le> n" "n < 1114112"
    using assms(1) unfolding scalar_def n_def by linarith
  then show ?thesis
  proof cases
    case 1
    then have "ascii_char c = concat (map esc_char c)" by (simp add: ascii_char_def n_def [symmetric])
    moreover have "c = [char_of n]" using 1 assms(2) by (simp add: n_def [symmetric] utf8_def)
    ultimately show ?thesis by (simp add: scan_esc_char)
  next
    case 2
    then have "scan_unit (drop 2 (u_escape n) @ x) = Some (c, x)"
      using assms hex4_u_escape [of n x]
      by (auto simp: scan_unit_def Let_def scalar_def n_def [symmetric] u_escape_def)
    with 2 show ?thesis by (simp add: ascii_char_def n_def [symmetric] scan_u_escape)
  next
    case 3
    define hi lo where "hi = 55296 + (n - 65536) div 1024" and "lo = 56320 + (n - 65536) mod 1024"
    have hl: "55296 \<le> hi" "hi \<le> 56319" "56320 \<le> lo" "lo \<le> 57343" "65536 + (hi - 55296) * 1024 + (lo - 56320) = n"
      using 3 by (auto simp: hi_def lo_def)
    then have "scan_unit (drop 2 (u_escape hi) @ u_escape lo @ x) = Some (c, x)"
      using assms(2) hex4_u_escape [of hi "u_escape lo @ x"] hex4_u_escape [of lo x]
      by (auto simp: scan_unit_def Let_def n_def [symmetric] u_escape_def)
    with 3 show ?thesis by (simp add: ascii_char_def n_def [symmetric] hi_def lo_def scan_u_escape)
  qed
qed

lemma scan_ascii_quoted: "unicode s \<Longrightarrow> scan_string (tl (ascii_quoted s) @ x) = Some (s, x)"
proof -
  have "list_all (\<lambda>c. scalar (code_point c) \<and> utf8 (code_point c) = c) cs \<Longrightarrow>
      scan_string (concat (map ascii_char cs) @ CHR 0x22 # x) = Some (concat cs, x)" for cs
    by (induction cs) (simp_all add: scan_ascii_char)
  then show "unicode s \<Longrightarrow> ?thesis" by (simp add: unicode_def ascii_quoted_def concat_utf8_chars)
qed

interpretation escaped: string_writer ascii_quoted unicode
  by unfold_locales (simp add: ascii_quoted_def, rule scan_ascii_quoted)

section \<open>ASCII text\<close>

definition ascii :: "string \<Rightarrow> bool" where
  "ascii s = list_all (\<lambda>c. of_char c < (128 :: nat)) s"

lemma ascii_unicode: "ascii s \<Longrightarrow> unicode s"
proof -
  have "utf8_chars s = map (\<lambda>c. [c]) s" if "ascii s"
    using that
  proof (induction s)
    case (Cons c s)
    then have "takeWhile utf8_cont s = []" "dropWhile utf8_cont s = s"
      by (cases s; simp add: ascii_def utf8_cont_def)+
    with Cons show ?case by (simp add: ascii_def)
  qed simp
  then show "ascii s \<Longrightarrow> unicode s"
    by (auto simp: unicode_def list_all_iff ascii_def code_point_def scalar_def utf8_def)
qed

lemma ascii_digits: "ascii (digits_nat n)"
  using digits_nat_chars [of n] by (auto simp: ascii_def is_digit_def list_all_iff)

end
