(* ===== verification/BoundedJson.thy ===== *)
theory BoundedJson
  imports RecordStore ModelJson EscapedText
begin

text \<open>
  The run record of \<open>bounded.py\<close> as a JSON document: \<open>model_dump(mode="json")\<close> and
  \<open>model_validate\<close> of \<open>BoundedRunRecord\<close> and of the records it holds. A field of an absent
  optional text is \<open>null\<close>; validation ignores fields it does not know, takes defaults for
  missing ones, and reads a number from a value of another type as pydantic's lax mode does, which
  is a parameter. The binding of a decision is a union: the tenant-aware class when the document has
  its fields and they are valid, the base class otherwise.
\<close>

record lax =
  lax_int :: "pyval \<Rightarrow> int option"
  lax_float :: "pyval \<Rightarrow> rat option"

section \<open>Documents\<close>

definition json_opt_int :: "int option \<Rightarrow> pyval" where
  "json_opt_int x = (case x of None \<Rightarrow> PNone | Some n \<Rightarrow> PInt n)"

definition generation_0_2 :: string where
  "generation_0_2 = ''bounded-authorization-effect/0.2''"

definition dump_binding :: "binding \<Rightarrow> pydict" where
  "dump_binding b =
     [(''proposal_commitment'', PStr (b_proposal_commitment b)), (''manifest_id'', PStr (b_manifest_id b)),
      (''manifest_version'', PStr (b_manifest_version b)), (''manifest_digest'', PStr (b_manifest_digest b)),
      (''actor'', PStr (b_actor b)), (''principal'', PStr (b_principal b)), (''action_id'', PStr (b_action_id b)),
      (''adapter_id'', PStr (b_adapter_id b)), (''target'', PStr (b_target b)),
      (''payload_commitment'', PStr (b_payload_commitment b)),
      (''requested_permissions'', json_texts (b_requested_permissions b)), (''amount'', PFloat (b_amount b)),
      (''unit'', PStr (b_unit b)), (''effects'', PInt (b_effects b)),
      (''authority_context_id'', PStr (b_authority_context_id b)),
      (''authority_context_version'', PStr (b_authority_context_version b)),
      (''authority_context_status'', PStr (b_authority_context_status b)),
      (''requirement_id'', PStr (b_requirement_id b)),
      (''requirement_commitment'', PStr (b_requirement_commitment b)), (''grant_id'', PStr (b_grant_id b)),
      (''grant_revision'', PStr (b_grant_revision b)), (''policy_versions'', json_list id (b_policy_versions b)),
      (''role_mapping_version'', PStr (b_role_mapping_version b)),
      (''role_mapping_digest'', PStr (b_role_mapping_digest b)),
      (''effective_max_effects'', PInt (b_effective_max_effects b))] @
     (case b_tenant_id b of None \<Rightarrow> []
      | Some t \<Rightarrow> [(''generation'', PStr generation_0_2), (''tenant_id'', PStr t)])"

fun decision_word :: "decision_result \<Rightarrow> string" where
  "decision_word Authorized = ''authorized''"
| "decision_word Hold = ''hold''"
| "decision_word Deny = ''deny''"

definition decision_words :: "(string \<times> decision_result) list" where
  "decision_words = [(''authorized'', Authorized), (''hold'', Hold), (''deny'', Deny)]"

definition dump_runtime_decision :: "decision \<Rightarrow> pydict" where
  "dump_runtime_decision d = [
     (''decision_id'', PStr (d_decision_id d)), (''effect_id'', PStr (d_effect_id d)),
     (''result'', PStr (decision_word (d_result d))), (''reasons'', json_texts (d_reasons d)),
     (''decided_at'', PStr (d_decided_at d)),
     (''binding'', case d_binding d of None \<Rightarrow> PNone | Some b \<Rightarrow> PDict (dump_binding b))]"

fun attempt_word :: "attempt_status \<Rightarrow> string" where
  "attempt_word Attempted = ''attempted''"
| "attempt_word Acknowledged = ''acknowledged''"
| "attempt_word AttemptUnknown = ''unknown''"
| "attempt_word AttemptFailed = ''failed''"
| "attempt_word AttemptPartial = ''partial''"

definition attempt_words :: "(string \<times> attempt_status) list" where
  "attempt_words = [(''attempted'', Attempted), (''acknowledged'', Acknowledged), (''unknown'', AttemptUnknown),
     (''failed'', AttemptFailed), (''partial'', AttemptPartial)]"

definition dump_attempt :: "attempt \<Rightarrow> pydict" where
  "dump_attempt a = [
     (''attempt_id'', PStr (a_attempt_id a)), (''effect_id'', PStr (a_effect_id a)),
     (''decision_id'', PStr (a_decision_id a)), (''started_at'', PStr (a_started_at a)),
     (''status'', PStr (attempt_word (a_status a))), (''acknowledgement'', PDict (a_acknowledgement a)),
     (''error'', json_opt (a_error a))]"

fun input_word :: "input_type \<Rightarrow> string" where
  "input_word InGrant = ''grant''"
| "input_word InPolicy = ''policy''"
| "input_word InApproval = ''approval''"
| "input_word InEvidence = ''evidence''"
| "input_word InRoleMapping = ''role_mapping''"

definition input_words :: "(string \<times> input_type) list" where
  "input_words = [(''grant'', InGrant), (''policy'', InPolicy), (''approval'', InApproval), (''evidence'', InEvidence),
     (''role_mapping'', InRoleMapping)]"

definition dump_refusal_input :: "refusal_input \<Rightarrow> pydict" where
  "dump_refusal_input i = [
     (''input_type'', PStr (input_word (ri_input_type i))), (''input_id'', PStr (ri_input_id i)),
     (''expected_version'', PStr (ri_expected_version i)), (''observed_version'', PStr (ri_observed_version i))]"

definition refusal_stage :: string where
  "refusal_stage = ''effect_time_revalidation''"

definition dump_refusal :: "refusal \<Rightarrow> pydict" where
  "dump_refusal r = [
     (''refusal_id'', PStr (r_refusal_id r)), (''decision_id'', PStr (r_decision_id r)),
     (''effect_id'', PStr (r_effect_id r)), (''recorded_at'', PStr (r_recorded_at r)),
     (''stage'', PStr refusal_stage), (''reasons'', json_texts (r_reasons r)),
     (''changed_inputs'', json_list dump_refusal_input (r_changed_inputs r))]"

definition observed_words :: "(string \<times> observed_state) list" where
  "observed_words = [(''absent'', ObsAbsent), (''applied'', ObsApplied), (''partial'', ObsPartial), (''unknown'', ObsUnknown)]"

definition dump_observation :: "observation \<Rightarrow> pydict" where
  "dump_observation x = [
     (''effect_id'', PStr (o_effect_id x)), (''observed_at'', json_opt (o_observed_at x)),
     (''state'', PStr (observed_state_str (o_state x))), (''destination_state'', PDict (o_destination_state x))]"

fun outcome_word :: "reconciliation_outcome \<Rightarrow> string" where
  "outcome_word RecApplied = ''applied''"
| "outcome_word RecObservedAbsent = ''observed_absent''"
| "outcome_word RecSafeToRetry = ''safe_to_retry''"
| "outcome_word RecHold = ''hold''"

definition outcome_words :: "(string \<times> reconciliation_outcome) list" where
  "outcome_words = [(''applied'', RecApplied), (''observed_absent'', RecObservedAbsent),
     (''safe_to_retry'', RecSafeToRetry), (''hold'', RecHold)]"

definition dump_reconciliation :: "reconciliation \<Rightarrow> pydict" where
  "dump_reconciliation r = [
     (''effect_id'', PStr (rec_effect_id r)), (''reconciled_at'', PStr (rec_reconciled_at r)),
     (''result'', PStr (outcome_word (rec_result r))),
     (''observation'', case rec_observation r of None \<Rightarrow> PNone | Some x \<Rightarrow> PDict (dump_observation x)),
     (''observation_accepted'', PBool (rec_observation_accepted r)),
     (''retry_eligible'', PBool (rec_retry_eligible r)), (''reasons'', json_texts (rec_reasons r)),
     (''evaluation_time'', json_opt (rec_evaluation_time r)),
     (''observation_max_age_seconds'', json_opt_int (rec_observation_max_age_seconds r)),
     (''observation_clock_tolerance_seconds'', json_opt_int (rec_observation_clock_tolerance_seconds r))]"

definition dump_record :: "run_record \<Rightarrow> pydict" where
  "dump_record r = [
     (''run_id'', PStr (rr_run_id r)), (''decisions'', json_list dump_runtime_decision (rr_decisions r)),
     (''refusals'', json_list dump_refusal (rr_refusals r)), (''attempts'', json_list dump_attempt (rr_attempts r)),
     (''observations'', json_list dump_observation (rr_observations r)),
     (''reconciliations'', json_list dump_reconciliation (rr_reconciliations r))]"

section \<open>Validation\<close>

definition int_of :: "lax \<Rightarrow> pyval \<Rightarrow> int reader" where
  "int_of L v = (case v of PInt n \<Rightarrow> returnR n
    | _ \<Rightarrow> (case lax_int L v of Some n \<Rightarrow> returnR n | None \<Rightarrow> liftR (throw ValidationError)))"

definition float_of :: "lax \<Rightarrow> pyval \<Rightarrow> rat reader" where
  "float_of L v = (case v of PFloat x \<Rightarrow> returnR x
    | _ \<Rightarrow> (case lax_float L v of Some x \<Rightarrow> returnR x | None \<Rightarrow> liftR (throw ValidationError)))"

definition opt_of :: "(pyval \<Rightarrow> 'a reader) \<Rightarrow> pyval \<Rightarrow> 'a option reader" where
  "opt_of f v = (if v = PNone then returnR None else bindR (f v) (\<lambda>x. returnR (Some x)))"

text \<open>A literal with one word.\<close>

definition literal_of :: "string \<Rightarrow> pyval \<Rightarrow> unit reader" where
  "literal_of w v = (if v = PStr w then returnR () else liftR (throw ValidationError))"

text \<open>\<open>Field(min_length=1, max_length=128)\<close>, counted in characters.\<close>

definition tenant_ok :: "string \<Rightarrow> bool" where
  "tenant_ok t \<longleftrightarrow> 1 \<le> length (utf8_chars t) \<and> length (utf8_chars t) \<le> 128"

definition tenant_of :: "pyval \<Rightarrow> string reader" where
  "tenant_of v = bindR (text_of v) (\<lambda>t. if tenant_ok t then returnR t else liftR (throw ValidationError))"

definition load_base_binding :: "lax \<Rightarrow> pyval \<Rightarrow> binding reader" where
  "load_base_binding L v = bindR (dict_of v) (\<lambda>d.
     bindR (required d ''proposal_commitment'' text_of) (\<lambda>proposal.
     bindR (required d ''manifest_id'' text_of) (\<lambda>mid.
     bindR (required d ''manifest_version'' text_of) (\<lambda>mversion.
     bindR (required d ''manifest_digest'' text_of) (\<lambda>mdigest.
     bindR (required d ''actor'' text_of) (\<lambda>actor.
     bindR (required d ''principal'' text_of) (\<lambda>prin.
     bindR (required d ''action_id'' text_of) (\<lambda>action.
     bindR (required d ''adapter_id'' text_of) (\<lambda>adapter.
     bindR (required d ''target'' text_of) (\<lambda>target.
     bindR (required d ''payload_commitment'' text_of) (\<lambda>payload.
     bindR (required d ''requested_permissions'' (list_of text_of)) (\<lambda>permissions.
     bindR (required d ''amount'' (float_of L)) (\<lambda>amount.
     bindR (required d ''unit'' text_of) (\<lambda>un.
     bindR (required d ''effects'' (int_of L)) (\<lambda>effects.
     bindR (required d ''authority_context_id'' text_of) (\<lambda>cid.
     bindR (required d ''authority_context_version'' text_of) (\<lambda>cversion.
     bindR (required d ''authority_context_status'' text_of) (\<lambda>cstatus.
     bindR (required d ''requirement_id'' text_of) (\<lambda>rid.
     bindR (required d ''requirement_commitment'' text_of) (\<lambda>rcommitment.
     bindR (required d ''grant_id'' text_of) (\<lambda>gid.
     bindR (required d ''grant_revision'' text_of) (\<lambda>grevision.
     bindR (required d ''policy_versions'' (list_of dict_of)) (\<lambda>policies.
     bindR (required d ''role_mapping_version'' text_of) (\<lambda>rmversion.
     bindR (required d ''role_mapping_digest'' text_of) (\<lambda>rmdigest.
     bindR (required d ''effective_max_effects'' (int_of L)) (\<lambda>cap.
       returnR \<lparr>b_proposal_commitment = proposal, b_manifest_id = mid, b_manifest_version = mversion,
         b_manifest_digest = mdigest, b_actor = actor, b_principal = prin, b_action_id = action,
         b_adapter_id = adapter, b_target = target, b_payload_commitment = payload,
         b_requested_permissions = permissions, b_amount = amount, b_unit = un, b_effects = effects,
         b_authority_context_id = cid, b_authority_context_version = cversion,
         b_authority_context_status = cstatus, b_requirement_id = rid, b_requirement_commitment = rcommitment,
         b_grant_id = gid, b_grant_revision = grevision, b_policy_versions = policies,
         b_role_mapping_version = rmversion, b_role_mapping_digest = rmdigest,
         b_effective_max_effects = cap, b_tenant_id = None\<rparr>))))))))))))))))))))))))))"

text \<open>\<open>TenantAuthorizationBinding\<close>: the fields of the base class, then its own two.\<close>

definition load_tenant_binding :: "lax \<Rightarrow> pyval \<Rightarrow> binding reader" where
  "load_tenant_binding L v = bindR (load_base_binding L v) (\<lambda>b.
     bindR (dict_of v) (\<lambda>d.
     bindR (optional d ''generation'' (literal_of generation_0_2) ()) (\<lambda>_.
     bindR (required d ''tenant_id'' tenant_of) (\<lambda>t.
       returnR (b\<lparr>b_tenant_id := Some t\<rparr>)))))"

text \<open>
  The union of the two classes: the class that sets more of its fields wins, which is the tenant-aware
  one whenever it is valid at all.
\<close>

definition load_binding :: "lax \<Rightarrow> pyval \<Rightarrow> binding reader" where
  "load_binding L v n = (case load_tenant_binding L v n of Inr x \<Rightarrow> Inr x | Inl _ \<Rightarrow> load_base_binding L v n)"

definition load_runtime_decision :: "lax \<Rightarrow> pyval \<Rightarrow> decision reader" where
  "load_runtime_decision L v = bindR (dict_of v) (\<lambda>d.
     bindR (required d ''decision_id'' text_of) (\<lambda>did.
     bindR (required d ''effect_id'' text_of) (\<lambda>eid.
     bindR (required d ''result'' (word_of decision_words)) (\<lambda>result.
     bindR (required d ''reasons'' (list_of text_of)) (\<lambda>reasons.
     bindR (required d ''decided_at'' text_of) (\<lambda>decided.
     bindR (optional d ''binding'' (opt_of (load_binding L)) None) (\<lambda>b.
       returnR \<lparr>d_decision_id = did, d_effect_id = eid, d_result = result, d_reasons = reasons,
         d_decided_at = decided, d_binding = b\<rparr>)))))))"

definition load_attempt :: "pyval \<Rightarrow> attempt reader" where
  "load_attempt v = bindR (dict_of v) (\<lambda>d.
     bindR (required d ''attempt_id'' text_of) (\<lambda>aid.
     bindR (required d ''effect_id'' text_of) (\<lambda>eid.
     bindR (required d ''decision_id'' text_of) (\<lambda>did.
     bindR (required d ''started_at'' text_of) (\<lambda>started.
     bindR (required d ''status'' (word_of attempt_words)) (\<lambda>status.
     bindR (optional d ''acknowledgement'' dict_of []) (\<lambda>ack.
     bindR (optional d ''error'' opt_text_of None) (\<lambda>err.
       returnR \<lparr>a_attempt_id = aid, a_effect_id = eid, a_decision_id = did, a_started_at = started,
         a_status = status, a_acknowledgement = ack, a_error = err\<rparr>))))))))"

definition load_refusal_input :: "pyval \<Rightarrow> refusal_input reader" where
  "load_refusal_input v = bindR (dict_of v) (\<lambda>d.
     bindR (required d ''input_type'' (word_of input_words)) (\<lambda>kind.
     bindR (required d ''input_id'' text_of) (\<lambda>i.
     bindR (required d ''expected_version'' text_of) (\<lambda>expected.
     bindR (required d ''observed_version'' text_of) (\<lambda>observed.
       returnR \<lparr>ri_input_type = kind, ri_input_id = i, ri_expected_version = expected,
         ri_observed_version = observed\<rparr>)))))"

definition load_refusal :: "pyval \<Rightarrow> refusal reader" where
  "load_refusal v = bindR (dict_of v) (\<lambda>d.
     bindR (required d ''refusal_id'' text_of) (\<lambda>rid.
     bindR (required d ''decision_id'' text_of) (\<lambda>did.
     bindR (required d ''effect_id'' text_of) (\<lambda>eid.
     bindR (required d ''recorded_at'' text_of) (\<lambda>recorded.
     bindR (optional d ''stage'' (literal_of refusal_stage) ()) (\<lambda>_.
     bindR (required d ''reasons'' (list_of text_of)) (\<lambda>reasons.
     bindR (optional d ''changed_inputs'' (list_of load_refusal_input) []) (\<lambda>inputs.
       returnR \<lparr>r_refusal_id = rid, r_decision_id = did, r_effect_id = eid, r_recorded_at = recorded,
         r_reasons = reasons, r_changed_inputs = inputs\<rparr>))))))))"

definition load_observation :: "pyval \<Rightarrow> observation reader" where
  "load_observation v = bindR (dict_of v) (\<lambda>d.
     bindR (required d ''effect_id'' text_of) (\<lambda>eid.
     bindR (optional d ''observed_at'' opt_text_of None) (\<lambda>observed.
     bindR (required d ''state'' (word_of observed_words)) (\<lambda>st.
     bindR (optional d ''destination_state'' dict_of []) (\<lambda>dest.
       returnR \<lparr>o_effect_id = eid, o_observed_at = observed, o_state = st, o_destination_state = dest\<rparr>)))))"

definition load_reconciliation :: "lax \<Rightarrow> pyval \<Rightarrow> reconciliation reader" where
  "load_reconciliation L v = bindR (dict_of v) (\<lambda>d.
     bindR (required d ''effect_id'' text_of) (\<lambda>eid.
     bindR (required d ''reconciled_at'' text_of) (\<lambda>reconciled.
     bindR (required d ''result'' (word_of outcome_words)) (\<lambda>result.
     bindR (optional d ''observation'' (opt_of load_observation) None) (\<lambda>x.
     bindR (optional d ''observation_accepted'' bool_of False) (\<lambda>accepted.
     bindR (optional d ''retry_eligible'' bool_of False) (\<lambda>retry.
     bindR (optional d ''reasons'' (list_of text_of) []) (\<lambda>reasons.
     bindR (optional d ''evaluation_time'' opt_text_of None) (\<lambda>time.
     bindR (optional d ''observation_max_age_seconds'' (opt_of (int_of L)) None) (\<lambda>age.
     bindR (optional d ''observation_clock_tolerance_seconds'' (opt_of (int_of L)) None) (\<lambda>tolerance.
       returnR \<lparr>rec_effect_id = eid, rec_reconciled_at = reconciled, rec_result = result, rec_observation = x,
         rec_observation_accepted = accepted, rec_retry_eligible = retry, rec_reasons = reasons,
         rec_evaluation_time = time, rec_observation_max_age_seconds = age,
         rec_observation_clock_tolerance_seconds = tolerance\<rparr>)))))))))))"

definition load_record :: "lax \<Rightarrow> pyval \<Rightarrow> run_record reader" where
  "load_record L v = bindR (dict_of v) (\<lambda>d.
     bindR (required d ''run_id'' text_of) (\<lambda>rid.
     bindR (optional d ''decisions'' (list_of (load_runtime_decision L)) []) (\<lambda>decisions.
     bindR (optional d ''refusals'' (list_of load_refusal) []) (\<lambda>refusals.
     bindR (optional d ''attempts'' (list_of load_attempt) []) (\<lambda>attempts.
     bindR (optional d ''observations'' (list_of load_observation) []) (\<lambda>observations.
     bindR (optional d ''reconciliations'' (list_of (load_reconciliation L)) []) (\<lambda>reconciliations.
       returnR \<lparr>rr_run_id = rid, rr_decisions = decisions, rr_refusals = refusals, rr_attempts = attempts,
         rr_observations = observations, rr_reconciliations = reconciliations\<rparr>)))))))"

section \<open>What was dumped is valid\<close>

lemma int_of_PInt [reader_simps]: "int_of L (PInt n) k = Inr (n, k)"
  by (simp add: int_of_def returnR_def)

lemma float_of_PFloat [reader_simps]: "float_of L (PFloat x) k = Inr (x, k)"
  by (simp add: float_of_def returnR_def)

lemma opt_of_none [reader_simps]: "opt_of f PNone n = Inr (None, n)"
  by (simp add: opt_of_def returnR_def)

lemma opt_of_some [reader_simps]: "v \<noteq> PNone \<Longrightarrow> f v n = Inr (x, n) \<Longrightarrow> opt_of f v n = Inr (Some x, n)"
  by (simp add: opt_of_def bindR_def returnR_def)

lemma opt_of_json_int [reader_simps]: "opt_of (int_of L) (json_opt_int x) n = Inr (x, n)"
  by (cases x) (simp_all add: json_opt_int_def reader_simps)

lemma literal_of_word [reader_simps]: "literal_of w (PStr w) n = Inr ((), n)"
  by (simp add: literal_of_def returnR_def)

lemma words_read [reader_simps]:
  "word_of decision_words (PStr (decision_word r)) n = Inr (r, n)"
  "word_of attempt_words (PStr (attempt_word s)) n = Inr (s, n)"
  "word_of input_words (PStr (input_word i)) n = Inr (i, n)"
  "word_of observed_words (PStr (observed_state_str x)) n = Inr (x, n)"
  "word_of outcome_words (PStr (outcome_word y)) n = Inr (y, n)"
proof -
  show "word_of decision_words (PStr (decision_word r)) n = Inr (r, n)"
    by (cases r) (simp_all add: word_of_def decision_words_def returnR_def)
  show "word_of attempt_words (PStr (attempt_word s)) n = Inr (s, n)"
    by (cases s) (simp_all add: word_of_def attempt_words_def returnR_def)
  show "word_of input_words (PStr (input_word i)) n = Inr (i, n)"
    by (cases i) (simp_all add: word_of_def input_words_def returnR_def)
  show "word_of observed_words (PStr (observed_state_str x)) n = Inr (x, n)"
    by (cases x) (simp_all add: word_of_def observed_words_def returnR_def)
  show "word_of outcome_words (PStr (outcome_word y)) n = Inr (y, n)"
    by (cases y) (simp_all add: word_of_def outcome_words_def returnR_def)
qed

lemma list_of_dicts [reader_simps]: "list_of dict_of (json_list id ds) n = Inr (ds, n)"
  by (simp add: list_of_json reader_simps)

text \<open>The one constraint on a field that a binding can break.\<close>

definition binding_ok :: "binding \<Rightarrow> bool" where
  "binding_ok b = (case b_tenant_id b of None \<Rightarrow> True | Some t \<Rightarrow> tenant_ok t)"

lemma load_dump_base: "load_base_binding L (PDict (dump_binding b)) n = Inr (b\<lparr>b_tenant_id := None\<rparr>, n)"
  by (simp add: load_base_binding_def dump_binding_def reader_simps)

lemma load_dump_binding: "binding_ok b \<Longrightarrow> load_binding L (PDict (dump_binding b)) n = Inr (b, n)"
proof (cases "b_tenant_id b")
  case None
  then have "map_of (dump_binding b) ''tenant_id'' = None" "map_of (dump_binding b) ''generation'' = None"
    by (simp_all add: dump_binding_def)
  then have "\<exists>x. load_tenant_binding L (PDict (dump_binding b)) n = Inl x"
    by (simp add: load_tenant_binding_def bindR_Inr [OF load_dump_base] reader_simps)
      (simp add: optional_def required_def bindR_def returnR_def liftR_def throw_def)
  moreover have "b\<lparr>b_tenant_id := None\<rparr> = b" using None by simp
  ultimately show ?thesis using load_dump_base [of L b n] by (auto simp: load_binding_def)
next
  case (Some t)
  assume ok: "binding_ok b"
  have "map_of (dump_binding b) ''tenant_id'' = Some (PStr t)"
      "map_of (dump_binding b) ''generation'' = Some (PStr generation_0_2)"
    using Some by (simp_all add: dump_binding_def)
  moreover have "tenant_of (PStr t) n = Inr (t, n)"
    using ok Some by (simp add: tenant_of_def bindR_Inr [OF text_of_PStr] binding_ok_def reader_simps)
  moreover have "b\<lparr>b_tenant_id := Some t\<rparr> = b" using Some by simp
  ultimately have "load_tenant_binding L (PDict (dump_binding b)) n = Inr (b, n)"
    by (simp add: load_tenant_binding_def bindR_Inr [OF load_dump_base] reader_simps)
  then show ?thesis by (simp add: load_binding_def)
qed

definition decision_ok :: "decision \<Rightarrow> bool" where
  "decision_ok d = (case d_binding d of None \<Rightarrow> True | Some b \<Rightarrow> binding_ok b)"

lemma load_dump_runtime_decision:
  "decision_ok d \<Longrightarrow> load_runtime_decision L (PDict (dump_runtime_decision d)) n = Inr (d, n)"
  by (cases "d_binding d")
    (simp_all add: load_runtime_decision_def dump_runtime_decision_def reader_simps decision_ok_def load_dump_binding)

lemma load_dump_attempt [reader_simps]: "load_attempt (PDict (dump_attempt x)) n = Inr (x, n)"
  by (simp add: load_attempt_def dump_attempt_def reader_simps)

lemma load_dump_refusal_input [reader_simps]: "load_refusal_input (PDict (dump_refusal_input x)) n = Inr (x, n)"
  by (simp add: load_refusal_input_def dump_refusal_input_def reader_simps)

lemma load_dump_refusal [reader_simps]: "load_refusal (PDict (dump_refusal x)) n = Inr (x, n)"
  by (simp add: load_refusal_def dump_refusal_def reader_simps list_of_json)

lemma load_dump_observation [reader_simps]: "load_observation (PDict (dump_observation x)) n = Inr (x, n)"
  by (simp add: load_observation_def dump_observation_def reader_simps)

lemma load_dump_reconciliation [reader_simps]:
  "load_reconciliation L (PDict (dump_reconciliation x)) n = Inr (x, n)"
  by (cases "rec_observation x") (simp_all add: load_reconciliation_def dump_reconciliation_def reader_simps)

definition record_ok :: "run_record \<Rightarrow> bool" where
  "record_ok r = list_all decision_ok (rr_decisions r)"

lemma mapR_map_on: "(\<And>x n. x \<in> set xs \<Longrightarrow> f (g x) n = Inr (x, n)) \<Longrightarrow> mapR f (map g xs) n = Inr (xs, n)"
  by (induction xs) (simp_all add: returnR_def bindR_def)

lemma load_dump_decisions:
  "list_all decision_ok ds \<Longrightarrow>
     list_of (load_runtime_decision L) (json_list dump_runtime_decision ds) n = Inr (ds, n)"
  using mapR_map_on [of ds "load_runtime_decision L" "\<lambda>d. PDict (dump_runtime_decision d)" n]
  by (simp add: list_of_def json_list_def list_all_iff load_dump_runtime_decision)

lemma load_dump_record: "record_ok r \<Longrightarrow> load_record L (PDict (dump_record r)) n = Inr (r, n)"
  by (simp add: load_record_def dump_record_def reader_simps list_of_json load_dump_decisions record_ok_def)

section \<open>What was validated meets the constraints\<close>

lemma load_binding_ok:
  assumes "load_binding L v n = Inr (b, m)"
  shows "binding_ok b"
proof (cases "load_tenant_binding L v n")
  case (Inl x)
  with assms have "load_base_binding L v n = Inr (b, m)" by (simp add: load_binding_def)
  then have "b_tenant_id b = None" by (auto simp: load_base_binding_def bindR_iff returnR_def)
  then show ?thesis by (simp add: binding_ok_def)
next
  case (Inr x)
  with assms have "load_tenant_binding L v n = Inr (b, m)" by (simp add: load_binding_def)
  then obtain d t k k' where "required d ''tenant_id'' tenant_of k = Inr (t, k')" "b_tenant_id b = Some t"
    by (auto simp: load_tenant_binding_def bindR_iff returnR_def)
  then show ?thesis
    by (auto simp: binding_ok_def tenant_of_def bindR_iff returnR_def liftR_def throw_def split: if_splits
        dest!: required_cases)
qed

lemma load_decision_ok:
  assumes "load_runtime_decision L v n = Inr (d, m)"
  shows "decision_ok d"
proof -
  obtain e k k' where "optional e ''binding'' (opt_of (load_binding L)) None k = Inr (d_binding d, k')"
    using assms by (auto simp: load_runtime_decision_def bindR_iff returnR_def)
  then show ?thesis
    by (auto simp: decision_ok_def opt_of_def bindR_iff returnR_def split: if_splits option.split
        dest!: optional_cases load_binding_ok)
qed

lemma load_record_ok:
  assumes "load_record L v n = Inr (r, m)"
  shows "record_ok r"
proof -
  obtain d k k' where "optional d ''decisions'' (list_of (load_runtime_decision L)) [] k = Inr (rr_decisions r, k')"
    using assms by (auto simp: load_record_def bindR_iff returnR_def)
  then consider "rr_decisions r = []"
    | xs where "mapR (load_runtime_decision L) xs k = Inr (rr_decisions r, k')"
    by (auto simp: list_of_def liftR_def split: pyval.splits dest!: optional_cases)
  then show ?thesis
  proof cases
    case 2
    then show ?thesis unfolding record_ok_def by (rule mapR_all) (rule load_decision_ok)
  qed (simp add: record_ok_def)
qed

end
