(* ===== verification/StoreText.thy ===== *)
theory StoreText
  imports BoundedJson
begin

text \<open>
  \<open>BoundedRecordStore\<close> on the text of its file: what \<open>_read_document\<close>, \<open>load\<close>, \<open>_append\<close> and \<open>_write\<close>
  read and write. An append changes one list of the document as it was read, so that fields the
  program does not know survive, and writes all of it back. The theorems show that this implements
  the store of \<open>RecordStore\<close>, where the file holds a record. The locale \<open>log_implementation\<close> is
  the contract between the two.
\<close>

section \<open>The interface\<close>

locale log_implementation = append_log load append view kind_of
  for load :: "'s \<Rightarrow> 'r res"
    and append :: "'e \<Rightarrow> 's \<Rightarrow> 's res"
    and view :: "'k \<Rightarrow> 'r \<Rightarrow> 'e list"
    and kind_of :: "'e \<Rightarrow> 'k" +
  fixes abs :: "'f \<Rightarrow> 's"
    and put :: "'e \<Rightarrow> 'f \<Rightarrow> 'f res"
    and good :: "'f \<Rightarrow> bool"
    and fits :: "'e \<Rightarrow> bool"
  assumes put_refines: "good f \<Longrightarrow> fits e \<Longrightarrow> load (abs f) = Inr r \<Longrightarrow>
      \<exists>f'. put e f = Inr f' \<and> good f' \<and> append e (abs f) = Inr (abs f')"
    and put_fails: "load (abs f) = Inl x \<Longrightarrow> \<exists>y. put e f = Inl y"
begin

primrec put_all :: "'e list \<Rightarrow> 'f \<Rightarrow> 'f res" where
  "put_all [] f = Inr f"
| "put_all (e # es) f = bindE (put e f) (put_all es)"

lemma put_all_refines:
  "good f \<Longrightarrow> list_all fits es \<Longrightarrow> load (abs f) = Inr r \<Longrightarrow>
     \<exists>f'. put_all es f = Inr f' \<and> good f' \<and> append_all es (abs f) = Inr (abs f')"
proof (induction es arbitrary: f r)
  case (Cons e es)
  then obtain f1 where f1: "put e f = Inr f1" "good f1" "append e (abs f) = Inr (abs f1)"
    using put_refines [of f e r] by auto
  then obtain r1 where "load (abs f1) = Inr r1" using append_view [OF Cons.prems(3)] by blast
  with Cons.IH [of f1 r1] f1 Cons.prems(2) show ?case by simp
qed simp

text \<open>What the file holds after any sequence of entries, read through the abstraction.\<close>

lemma put_all_view:
  assumes "good f" "list_all fits es" "load (abs f) = Inr r"
  shows "\<exists>f' r'. put_all es f = Inr f' \<and> good f' \<and> load (abs f') = Inr r' \<and>
     (\<forall>k. view k r' = view k r @ filter (\<lambda>e. kind_of e = k) es)"
  using put_all_refines [OF assms] append_all_view [OF assms(3), of es] by auto

lemma put_all_fails: "load (abs f) = Inl x \<Longrightarrow> es \<noteq> [] \<Longrightarrow> \<exists>y. put_all es f = Inl y"
  using put_fails [of f x "hd es"] by (cases es) auto

end

section \<open>The file\<close>

text \<open>The text of the file, if it exists.\<close>

type_synonym record_text = "string option"

definition validate_record :: "lax \<Rightarrow> pyval \<Rightarrow> run_record res" where
  "validate_record L v = bindE (load_record L v 0) (\<lambda>(r, _). Inr r)"

definition read_raw :: "prims \<Rightarrow> lax \<Rightarrow> record_text \<Rightarrow> pydict res" where
  "read_raw P L f = (case f of
      None \<Rightarrow> throw FileNotFoundError
    | Some s \<Rightarrow> bindE (read_json P s) (\<lambda>v. bindE (validate_record L v) (\<lambda>_. expect_dict v)))"

definition load_text :: "prims \<Rightarrow> lax \<Rightarrow> record_text \<Rightarrow> run_record res" where
  "load_text P L f = bindE (read_raw P L f) (\<lambda>d. validate_record L (PDict d))"

definition write_text :: "prims \<Rightarrow> pydict \<Rightarrow> record_text" where
  "write_text P d = Some (dumps_as ascii_quoted P 2 0 (PDict d))"

definition init_text :: "prims \<Rightarrow> lax \<Rightarrow> string \<Rightarrow> record_text \<Rightarrow> record_text res" where
  "init_text P L run_id f = (if f \<noteq> None then bindE (read_raw P L f) (\<lambda>_. Inr f)
     else Inr (write_text P (dump_record (empty_run_record run_id))))"

text \<open>\<open>document.setdefault(field, []).append(value)\<close>\<close>

definition push_field :: "string \<Rightarrow> pyval \<Rightarrow> pydict \<Rightarrow> pydict res" where
  "push_field k x d = (case map_of d k of
      None \<Rightarrow> Inr (dict_set k (PList [x]) d)
    | Some (PList xs) \<Rightarrow> Inr (dict_set k (PList (xs @ [x])) d)
    | _ \<Rightarrow> throw AttributeError)"

fun field_of :: "entry \<Rightarrow> string" where
  "field_of (EDecision _) = ''decisions''"
| "field_of (ERefusal _) = ''refusals''"
| "field_of (EAttempt _) = ''attempts''"
| "field_of (EObservation _) = ''observations''"
| "field_of (EReconciliation _) = ''reconciliations''"

fun dump_entry :: "entry \<Rightarrow> pydict" where
  "dump_entry (EDecision x) = dump_runtime_decision x"
| "dump_entry (ERefusal x) = dump_refusal x"
| "dump_entry (EAttempt x) = dump_attempt x"
| "dump_entry (EObservation x) = dump_observation x"
| "dump_entry (EReconciliation x) = dump_reconciliation x"

definition append_text :: "prims \<Rightarrow> lax \<Rightarrow> entry \<Rightarrow> record_text \<Rightarrow> record_text res" where
  "append_text P L e f =
     bindE (read_raw P L f) (\<lambda>d.
     bindE (push_field (field_of e) (PDict (dump_entry e)) d) (\<lambda>d'.
     bindE (validate_record L (PDict d')) (\<lambda>_.
       Inr (write_text P d'))))"

section \<open>What the text stands for\<close>

definition abs_store :: "prims \<Rightarrow> lax \<Rightarrow> record_text \<Rightarrow> store_file" where
  "abs_store P L f = (case f of None \<Rightarrow> NoFile
     | Some _ \<Rightarrow> (case load_text P L f of Inl _ \<Rightarrow> CorruptFile | Inr r \<Rightarrow> Document r))"

text \<open>
  Entries that the classes admit, with Unicode text; files whose text is Unicode as well. A runtime
  whose floats read back is part of the condition.
\<close>

definition entry_ok :: "entry \<Rightarrow> bool" where
  "entry_ok e \<longleftrightarrow> (case e of EDecision d \<Rightarrow> decision_ok d | _ \<Rightarrow> True) \<and>
     wf_pyval (PDict (dump_entry e)) \<and> strings_ok unicode (PDict (dump_entry e))"

definition text_ok :: "prims \<Rightarrow> record_text \<Rightarrow> bool" where
  "text_ok P f \<longleftrightarrow> json_floats P \<and> (case f of None \<Rightarrow> True
     | Some s \<Rightarrow> (case loads P s of None \<Rightarrow> True | Some v \<Rightarrow> strings_ok unicode v))"

lemma validate_iff: "validate_record L v = Inr r \<longleftrightarrow> (\<exists>n. load_record L v 0 = Inr (r, n))"
  by (auto simp: validate_record_def bindE_Inr_iff)

lemma validated_dict: "validate_record L v = Inr r \<Longrightarrow> \<exists>d. v = PDict d"
  by (auto simp: validate_iff load_record_def bindR_iff dict_of_iff)

lemma read_raw_iff:
  "read_raw P L f = Inr d \<longleftrightarrow> (\<exists>s r. f = Some s \<and> loads P s = Some (PDict d) \<and> validate_record L (PDict d) = Inr r)"
proof
  assume "read_raw P L f = Inr d"
  then obtain s v r where *: "f = Some s" "loads P s = Some v" "validate_record L v = Inr r" "expect_dict v = Inr d"
    by (auto simp: read_raw_def bindE_Inr_iff read_json_Inr throw_def split: option.splits)
  moreover from this(3) obtain d' where "v = PDict d'" by (blast dest: validated_dict)
  ultimately show "\<exists>s r. f = Some s \<and> loads P s = Some (PDict d) \<and> validate_record L (PDict d) = Inr r"
    by (simp add: expect_dict_def)
qed (auto simp: read_raw_def expect_dict_def read_json_def)

lemma load_text_iff:
  "load_text P L f = Inr r \<longleftrightarrow> (\<exists>s d. f = Some s \<and> loads P s = Some (PDict d) \<and> validate_record L (PDict d) = Inr r)"
  by (auto simp: load_text_def bindE_Inr_iff read_raw_iff)

lemma load_text_None: "load_text P L None = throw FileNotFoundError"
  by (simp add: load_text_def read_raw_def)

lemma read_raw_Inr: "read_raw P L f = Inr d \<Longrightarrow> \<exists>r. load_text P L f = Inr r"
  by (auto simp: read_raw_iff load_text_iff)

lemma abs_store_cases:
  "abs_store P L f = (case load_text P L f of Inr r \<Rightarrow> Document r | Inl _ \<Rightarrow> if f = None then NoFile else CorruptFile)"
  by (cases f) (auto simp: abs_store_def load_text_None throw_def split: sum.splits)

lemma abs_store_Document: "abs_store P L f = Document r \<longleftrightarrow> load_text P L f = Inr r"
  by (simp add: abs_store_cases split: sum.splits)

text \<open>Reading the file and reading what it stands for agree, errors included up to their message.\<close>

lemma load_text_abs:
  "(case load_text P L f of Inl _ \<Rightarrow> \<exists>x. store_load (abs_store P L f) = Inl x
    | Inr r \<Rightarrow> store_load (abs_store P L f) = Inr r)"
  by (simp add: abs_store_cases store_load_def throw_def split: sum.splits)

section \<open>One entry more\<close>

lemma push_field_other: "push_field k x d = Inr d' \<Longrightarrow> j \<noteq> k \<Longrightarrow> map_of d' j = map_of d j"
  by (auto simp: push_field_def throw_def split: option.splits pyval.splits)

lemma mapR_snoc: "mapR f xs n = Inr (ys, m) \<Longrightarrow> f x m = Inr (y, m) \<Longrightarrow> mapR f (xs @ [x]) n = Inr (ys @ [y], m)"
  by (induction xs arbitrary: n ys) (auto simp: bindR_def returnR_def bindE_Inr_iff)

lemma push_field_list:
  assumes "optional d k (list_of f) [] n = Inr (ys, m)" "f x m = Inr (y, m)"
  shows "\<exists>d'. push_field k x d = Inr d' \<and> optional d' k (list_of f) [] n = Inr (ys @ [y], m)"
proof (cases "map_of d k")
  case None
  with assms show ?thesis by (simp add: push_field_def optional_def list_of_def returnR_def bindR_def)
next
  case (Some v)
  with assms(1) obtain xs where "v = PList xs" "mapR f xs n = Inr (ys, m)"
    by (auto simp: optional_def list_of_def liftR_def throw_def split: pyval.splits)
  with Some mapR_snoc [of f xs n ys m x y] assms(2) show ?thesis
    by (simp add: push_field_def optional_def list_of_def)
qed

lemma pushed:
  assumes "optional d k (list_of f) [] n = Inr (ys, m)" "f x m = Inr (y, m)"
    and "\<And>d'. (\<And>j. j \<noteq> k \<Longrightarrow> map_of d' j = map_of d j) \<Longrightarrow>
      optional d' k (list_of f) [] n = Inr (ys @ [y], m) \<Longrightarrow> Q d'"
  shows "\<exists>d'. push_field k x d = Inr d' \<and> Q d'"
proof -
  obtain d' where d': "push_field k x d = Inr d'" "optional d' k (list_of f) [] n = Inr (ys @ [y], m)"
    using push_field_list [OF assms(1,2)] by blast
  have "Q d'" using push_field_other [OF d'(1)] d'(2) by (rule assms(3))
  with d'(1) show ?thesis by blast
qed

lemma load_record_push:
  assumes "load_record L (PDict d) n = Inr (r, m)" "entry_ok e"
  shows "\<exists>d'. push_field (field_of e) (PDict (dump_entry e)) d = Inr d' \<and>
     load_record L (PDict d') n = Inr (add_entry e r, m)"
proof -
  obtain rid ds rs as os cs n1 n2 n3 n4 n5 where
    fields: "required d ''run_id'' text_of n = Inr (rid, n1)"
      "optional d ''decisions'' (list_of (load_runtime_decision L)) [] n1 = Inr (ds, n2)"
      "optional d ''refusals'' (list_of load_refusal) [] n2 = Inr (rs, n3)"
      "optional d ''attempts'' (list_of load_attempt) [] n3 = Inr (as, n4)"
      "optional d ''observations'' (list_of load_observation) [] n4 = Inr (os, n5)"
      "optional d ''reconciliations'' (list_of (load_reconciliation L)) [] n5 = Inr (cs, m)"
    and r: "r = \<lparr>rr_run_id = rid, rr_decisions = ds, rr_refusals = rs, rr_attempts = as,
         rr_observations = os, rr_reconciliations = cs\<rparr>"
    using assms(1) by (auto simp: load_record_def bindR_iff dict_of_iff returnR_def)
  note rules = r load_record_def bind_dict returnR_simp bindR_Inr optional_def required_def
    fields [unfolded optional_def required_def]
  show ?thesis
  proof (cases e)
    case (EDecision x)
    with assms(2) have "decision_ok x" by (simp add: entry_ok_def)
    then show ?thesis unfolding EDecision field_of.simps dump_entry.simps
      by (intro pushed [OF fields(2) load_dump_runtime_decision]) (simp_all add: rules)
  next
    case (ERefusal x)
    show ?thesis unfolding ERefusal field_of.simps dump_entry.simps
      by (rule pushed [OF fields(3) load_dump_refusal]) (simp add: rules)
  next
    case (EAttempt x)
    show ?thesis unfolding EAttempt field_of.simps dump_entry.simps
      by (rule pushed [OF fields(4) load_dump_attempt]) (simp add: rules)
  next
    case (EObservation x)
    show ?thesis unfolding EObservation field_of.simps dump_entry.simps
      by (rule pushed [OF fields(5) load_dump_observation]) (simp add: rules)
  next
    case (EReconciliation x)
    show ?thesis unfolding EReconciliation field_of.simps dump_entry.simps
      by (rule pushed [OF fields(6) load_dump_reconciliation]) (simp add: rules)
  qed
qed

lemma strings_ok_dict_set:
  "strings_ok ok (PDict d) \<Longrightarrow> ok k \<Longrightarrow> strings_ok ok v \<Longrightarrow> strings_ok ok (PDict (dict_set k v d))"
  by (induction d) auto

lemma push_field_keeps:
  assumes "push_field k x d = Inr d'" "wf_pyval x" "strings_ok ok x" "ok k"
  shows "wf_pyval (PDict d) \<Longrightarrow> wf_pyval (PDict d')" "strings_ok ok (PDict d) \<Longrightarrow> strings_ok ok (PDict d')"
proof -
  from assms(1) consider "map_of d k = None" "d' = dict_set k (PList [x]) d"
    | xs where "map_of d k = Some (PList xs)" "d' = dict_set k (PList (xs @ [x])) d"
    by (auto simp: push_field_def throw_def split: option.splits pyval.splits)
  note cases = this
  show "wf_pyval (PDict d')" if "wf_pyval (PDict d)"
    using cases
  proof cases
    case 2
    then have "list_all wf_pyval xs" using wf_member [OF that] by fastforce
    with 2 that assms(2) show ?thesis by (simp add: wf_dict_set del: wf_pyval.simps(2))
  qed (use that assms(2) in \<open>simp add: wf_dict_set del: wf_pyval.simps(2)\<close>)
  show "strings_ok ok (PDict d')" if "strings_ok ok (PDict d)"
    using cases
  proof cases
    case 2
    then have "list_all (strings_ok ok) xs" using that by (auto simp: list_all_iff dest!: map_of_SomeD)
    with 2 that assms(3,4) show ?thesis by (simp add: strings_ok_dict_set del: strings_ok.simps(3))
  qed (use that assms(3,4) in \<open>simp add: strings_ok_dict_set del: strings_ok.simps(3)\<close>)
qed

lemma unicode_field: "unicode (field_of e)"
  by (rule ascii_unicode) (cases e; simp add: ascii_def)

section \<open>Appends on the text\<close>

lemma loads_written_text:
  "json_floats P \<Longrightarrow> wf_pyval (PDict d) \<Longrightarrow> strings_ok unicode (PDict d) \<Longrightarrow>
     loads P (dumps_as ascii_quoted P 2 0 (PDict d)) = Some (PDict d)"
  by (rule escaped.loads_written)

lemma append_text_document:
  assumes "text_ok P f" "entry_ok e" "f = Some s" "loads P s = Some (PDict d)" "validate_record L (PDict d) = Inr r"
  shows "\<exists>d'. push_field (field_of e) (PDict (dump_entry e)) d = Inr d' \<and>
     append_text P L e f = Inr (write_text P d') \<and>
     loads P (the (write_text P d')) = Some (PDict d') \<and> text_ok P (write_text P d') \<and>
     validate_record L (PDict d') = Inr (add_entry e r)"
proof -
  obtain d' where d': "push_field (field_of e) (PDict (dump_entry e)) d = Inr d'"
      "validate_record L (PDict d') = Inr (add_entry e r)"
    using assms(2,5) load_record_push [of L d 0 r _ e] by (auto simp: validate_iff)
  have "json_floats P" "strings_ok unicode (PDict d)" using assms(1,3,4) by (simp_all add: text_ok_def)
  moreover have "wf_pyval (PDict d)" by (rule loads_wf [OF assms(4)])
  ultimately have l: "loads P (the (write_text P d')) = Some (PDict d')" "strings_ok unicode (PDict d')"
    using push_field_keeps [OF d'(1), of unicode] assms(2) unicode_field [of e] loads_written_text [of P d']
    by (simp_all only: entry_ok_def write_text_def option.sel simp_thms)
  have "read_raw P L f = Inr d" using assms(3-5) by (auto simp: read_raw_iff)
  then have "append_text P L e f = Inr (write_text P d')"
    by (simp add: append_text_def d' del: dumps_as.simps)
  with d' l \<open>json_floats P\<close> show ?thesis by (auto simp: text_ok_def write_text_def simp del: dumps_as.simps strings_ok.simps)
qed

interpretation record_file: log_implementation store_load store_append entries entry_kind
  "abs_store P L" "append_text P L" "text_ok P" entry_ok
proof unfold_locales
  fix f e r
  assume "text_ok P f" "entry_ok e" "store_load (abs_store P L f) = Inr r"
  moreover from this(3) obtain s d where "f = Some s" "loads P s = Some (PDict d)" "validate_record L (PDict d) = Inr r"
    by (auto simp: store_load_Inr_iff abs_store_Document load_text_iff)
  ultimately obtain d' where "append_text P L e f = Inr (write_text P d')" "text_ok P (write_text P d')"
      "loads P (the (write_text P d')) = Some (PDict d')" "validate_record L (PDict d') = Inr (add_entry e r)"
    using append_text_document by blast
  moreover from this(3,4) have "abs_store P L (write_text P d') = Document (add_entry e r)"
    by (auto simp: abs_store_Document load_text_iff write_text_def)
  ultimately show "\<exists>f'. append_text P L e f = Inr f' \<and> text_ok P f' \<and>
      store_append e (abs_store P L f) = Inr (abs_store P L f')"
    using \<open>store_load (abs_store P L f) = Inr r\<close> by (auto simp: store_append_Inr_iff store_load_Inr_iff)
next
  fix f x e
  assume "store_load (abs_store P L f) = Inl x"
  then have "read_raw P L f \<noteq> Inr d" for d
    using read_raw_Inr [of P L f d] by (auto simp: abs_store_Document [symmetric] store_load_def)
  then show "\<exists>y. append_text P L e f = Inl y"
    by (cases "read_raw P L f") (auto simp: append_text_def)
qed

section \<open>Properties\<close>

text \<open>
  C18. The record file implements the record store. A file with a valid document takes any sequence
  of entries: the appends succeed, the text then loads as the record with exactly these entries
  added, kind by kind and in order, and it stands for what the store's atomic appends give. A file
  that is missing, is no JSON or breaks the schema is never written by an append, and the
  constructor refuses it too unless it is missing.
\<close>

theorem record_text_refines_store:
  assumes "text_ok P f" "list_all entry_ok es" "es \<noteq> []"
  shows "case load_text P L f of
     Inr r \<Rightarrow> \<exists>f' r'. record_file.put_all P L es f = Inr f' \<and> text_ok P f' \<and> load_text P L f' = Inr r' \<and>
       (\<forall>k. entries k r' = entries k r @ filter (\<lambda>e. entry_kind e = k) es) \<and>
       store.append_all es (abs_store P L f) = Inr (abs_store P L f')
   | Inl _ \<Rightarrow> (\<exists>y. record_file.put_all P L es f = Inl y) \<and> (f = None \<or> (\<exists>y. init_text P L run_id f = Inl y))"
proof (cases "load_text P L f")
  case (Inr r)
  then have "store_load (abs_store P L f) = Inr r" by (simp add: store_load_Inr_iff abs_store_Document)
  from record_file.put_all_refines [OF assms(1,2) this] record_file.put_all_view [OF assms(1,2) this] Inr
  show ?thesis by (auto simp: store_load_Inr_iff abs_store_Document)
next
  case (Inl x)
  with load_text_abs [of P L f] obtain y where "store_load (abs_store P L f) = Inl y" by auto
  then have "\<exists>y. record_file.put_all P L es f = Inl y" using assms(3) by (rule record_file.put_all_fails)
  moreover have "\<exists>y. init_text P L run_id f = Inl y" if "f \<noteq> None"
    using that Inl read_raw_Inr [of P L f] by (cases "read_raw P L f") (auto simp: init_text_def)
  ultimately show ?thesis using Inl by (cases f) auto
qed

lemma keys_in_place: "map fst (dict_set k v d) = map fst d @ (if map_of d k = None then [k] else [])"
  by (induction d) auto

text \<open>
  C19. Extension fields survive: an append to a document changes the one list it is for, by adding
  the dump of the entry at its end. Every other key keeps its value and all keep their order,
  whether the program knows them or not, and the items already in the list stay as they were written.
\<close>

theorem append_keeps_fields:
  assumes "text_ok P (Some s)" "entry_ok e" "loads P s = Some (PDict d)" "validate_record L (PDict d) = Inr r"
  shows "\<exists>s' d'. append_text P L e (Some s) = Inr (Some s') \<and> loads P s' = Some (PDict d') \<and>
     (\<forall>j. j \<noteq> field_of e \<longrightarrow> map_of d' j = map_of d j) \<and>
     (case map_of d (field_of e) of
        None \<Rightarrow> map_of d' (field_of e) = Some (PList [PDict (dump_entry e)]) \<and> map fst d' = map fst d @ [field_of e]
      | Some v \<Rightarrow> \<exists>xs. v = PList xs \<and> map_of d' (field_of e) = Some (PList (xs @ [PDict (dump_entry e)])) \<and>
          map fst d' = map fst d)"
proof -
  obtain d' where push: "push_field (field_of e) (PDict (dump_entry e)) d = Inr d'"
    and d': "append_text P L e (Some s) = Inr (write_text P d')" "loads P (the (write_text P d')) = Some (PDict d')"
    using append_text_document [OF assms(1,2) refl assms(3,4)] by blast
  have "case map_of d (field_of e) of
        None \<Rightarrow> map_of d' (field_of e) = Some (PList [PDict (dump_entry e)]) \<and> map fst d' = map fst d @ [field_of e]
      | Some v \<Rightarrow> \<exists>xs. v = PList xs \<and> map_of d' (field_of e) = Some (PList (xs @ [PDict (dump_entry e)])) \<and>
          map fst d' = map fst d"
    using push by (auto simp: push_field_def keys_in_place throw_def split: option.splits pyval.splits)
  with d' push_field_other [OF push] show ?thesis by (auto simp: write_text_def simp del: dumps_as.simps)
qed

text \<open>
  C20. What the schema lets through is a proper record: in every file that loads, each tenant-aware
  binding names a tenant of 1 to 128 characters, and the record is a normal form: dumped and
  validated again it is the same record, whatever defaults, extra fields or lax numbers the
  file had.
\<close>

theorem loaded_records_typed:
  assumes "load_text P L f = Inr r"
  shows "list_all (\<lambda>d. \<forall>b t. d_binding d = Some b \<longrightarrow> b_tenant_id b = Some t \<longrightarrow>
       1 \<le> length (utf8_chars t) \<and> length (utf8_chars t) \<le> 128) (rr_decisions r) \<and>
     validate_record L (PDict (dump_record r)) = Inr r"
proof -
  have "record_ok r" using assms by (auto simp: load_text_iff validate_iff dest: load_record_ok)
  moreover from this have "validate_record L (PDict (dump_record r)) = Inr r"
    by (simp add: validate_iff load_dump_record)
  ultimately show ?thesis
    by (auto simp: record_ok_def list_all_iff decision_ok_def binding_ok_def tenant_ok_def split: option.splits)
qed

section \<open>Witnesses\<close>

definition strict :: lax where
  "strict = \<lparr>lax_int = (\<lambda>_. None), lax_float = (\<lambda>_. None)\<rparr>"

abbreviation text_prims :: prims where
  "text_prims \<equiv> with_ratios sample_prims"

definition noted :: pydict where
  "noted = [(''note'', PStr ''kept''), (''run_id'', PStr ''run'')]"

definition noted_text :: string where
  "noted_text = dumps_as ascii_quoted text_prims 2 0 (PDict noted)"

definition noted_entry :: entry where
  "noted_entry = EObservation \<lparr>o_effect_id = ''e'', o_observed_at = None, o_state = ObsAbsent,
     o_destination_state = [(''seen'', PInt 0)]\<rparr>"

lemma ascii_texts: "ascii ''note''" "ascii ''kept''" "ascii ''run_id''" "ascii ''run''" "ascii ''effect_id''" "ascii ''e''"
    "ascii ''observed_at''" "ascii ''state''" "ascii ''absent''" "ascii ''destination_state''" "ascii ''seen''"
  by (simp_all add: ascii_def)

lemma noted_loads: "loads text_prims noted_text = Some (PDict noted)" "strings_ok unicode (PDict noted)"
proof -
  show u: "strings_ok unicode (PDict noted)" by (simp add: noted_def ascii_unicode ascii_texts)
  show "loads text_prims noted_text = Some (PDict noted)"
    unfolding noted_text_def by (rule loads_written_text [OF with_ratios_floats _ u]) (simp add: noted_def)
qed

lemma noted_valid: "validate_record strict (PDict noted) = Inr (empty_run_record ''run'')"
  by (simp add: validate_record_def load_record_def noted_def reader_simps empty_run_record_def
      bindR_Inr optional_def)

lemma noted_ok: "text_ok text_prims (Some noted_text)" "entry_ok noted_entry"
  by (simp add: text_ok_def noted_loads with_ratios_floats del: strings_ok.simps)
    (simp add: entry_ok_def noted_entry_def dump_observation_def json_opt_def ascii_unicode ascii_texts)

lemma noted_record: "load_text text_prims strict (Some noted_text) = Inr (empty_run_record ''run'')"
  by (simp add: load_text_iff noted_loads noted_valid)

lemma record_text_refines_store_witness:
  "\<exists>f' r'. record_file.put_all text_prims strict [noted_entry, noted_entry] (Some noted_text) = Inr f' \<and>
     load_text text_prims strict f' = Inr r' \<and> entries KObservation r' = [noted_entry, noted_entry]"
proof -
  have ok: "list_all entry_ok [noted_entry, noted_entry]" using noted_ok(2) by simp
  have kinds: "entries KObservation (empty_run_record ''run'') = []" "entry_kind noted_entry = KObservation"
    by (simp_all add: empty_run_record_def noted_entry_def)
  obtain f' r' where f': "record_file.put_all text_prims strict [noted_entry, noted_entry] (Some noted_text) = Inr f'"
      "load_text text_prims strict f' = Inr r'"
    and r': "\<forall>k. entries k r' = entries k (empty_run_record ''run'') @ filter (\<lambda>e. entry_kind e = k) [noted_entry, noted_entry]"
    using record_text_refines_store [OF noted_ok(1) ok, of strict "''run''"] unfolding noted_record sum.case by blast
  have "entries KObservation r' = [noted_entry, noted_entry]"
    unfolding r' [rule_format, of KObservation] kinds by (simp only: filter.simps kinds append_Nil refl if_True)
  with f' show ?thesis by blast
qed

lemma append_keeps_fields_witness:
  "\<exists>s' d'. append_text text_prims strict noted_entry (Some noted_text) = Inr (Some s') \<and>
     loads text_prims s' = Some (PDict d') \<and> map_of d' ''note'' = Some (PStr ''kept'') \<and>
     map fst d' = [''note'', ''run_id'', ''observations'']"
proof -
  have "field_of noted_entry = ''observations''" by (simp add: noted_entry_def)
  then show ?thesis
    using append_keeps_fields [OF noted_ok noted_loads(1) noted_valid] by (fastforce simp: noted_def)
qed

lemma loaded_records_typed_witness:
  "validate_record strict (PDict (dump_record (empty_run_record ''run''))) = Inr (empty_run_record ''run'')"
  using loaded_records_typed [OF noted_record] by blast

end
