(* ===== verification/WorkflowFiles.thy ===== *)
theory WorkflowFiles
  imports Workflow StoreText
begin

text \<open>
  The workflow and the text of its record file: what \<open>decide\<close> appends meets the constraints of its
  class, so that a later process reads from the file the very decision that was made.
\<close>

text \<open>\<open>BoundedRecordStore.decision\<close> on the text of the file.\<close>

definition decision_text :: "prims \<Rightarrow> lax \<Rightarrow> string \<Rightarrow> record_text \<Rightarrow> decision option res" where
  "decision_text P L i f = bindE (load_text P L f) (\<lambda>r.
     let matches = filter (\<lambda>d. d_decision_id d = i) (rr_decisions r)
     in Inr (if length matches = 1 then Some (hd matches) else None))"

text \<open>The tenant of a binding is the one of the proposal, which its class has checked.\<close>

lemma decided_ok:
  assumes "decide P cfg p now w = (Inr d, w')" "proposal_valid p"
  shows "decision_ok d"
proof -
  from assms(1) obtain t reasons bo where res: "resolve P cfg p t = Inr (reasons, bo)"
    and d: "d_binding d = (if reasons = [] then bo else None)"
    by (auto simp: decide_def act_iff Let_def)
  have "b_tenant_id b = p_tenant_id p" if "bo = Some b" for b
  proof -
    from res that have "resolve P cfg p t = Inr (reasons, Some b)" by simp
    then show ?thesis by (rule resolve_authorized) (rule make_binding_fields(7))
  qed
  with d assms(2) show ?thesis
    by (auto simp: decision_ok_def binding_ok_def tenant_ok_def proposal_valid_def split: option.splits)
qed

lemma decided_store:
  assumes "decide P cfg p now w = (Inr d, w')"
  shows "store_append (EDecision d) (w_store w) = Inr (w_store w')"
  using assms given_or_now_run by (fastforce simp: decide_def act_iff Let_def store_append_def)

text \<open>
  C21. Decisions survive a restart. When a workflow whose record file holds a text decides on a proposal
  that its class admits, appending the decision to the text succeeds and gives a text that
  stands for the workflow's store after the call; and when the new decision id is not yet on file, a process
  that opens the file later and asks for that id gets exactly the decision that was returned:
  result, reasons, effect id and every field of the binding, the tenant included.
\<close>

theorem decision_survives_restart:
  assumes "decide P cfg p now w = (Inr d, w')" "proposal_valid p"
    and "abs_store P L f = w_store w" "text_ok P f"
    and "wf_pyval (PDict (dump_runtime_decision d))" "strings_ok unicode (PDict (dump_runtime_decision d))"
  shows "\<exists>f' r. append_text P L (EDecision d) f = Inr f' \<and> text_ok P f' \<and> abs_store P L f' = w_store w' \<and>
     load_text P L f = Inr r \<and>
     (d_decision_id d \<notin> d_decision_id ` set (rr_decisions r) \<longrightarrow>
        decision_text P L (d_decision_id d) f' = Inr (Some d))"
proof -
  have e: "entry_ok (EDecision d)"
    using assms(5,6) decided_ok [OF assms(1,2)] by (simp add: entry_ok_def del: wf_pyval.simps strings_ok.simps)
  have app: "store_append (EDecision d) (abs_store P L f) = Inr (w_store w')"
    using decided_store [OF assms(1)] assms(3) by simp
  then obtain r where r: "abs_store P L f = Document r" "w_store w' = Document (add_entry (EDecision d) r)"
    by (auto simp: store_append_Inr_iff)
  then have "store_load (abs_store P L f) = Inr r" by (simp add: store_load_Inr_iff)
  from record_file.put_refines [OF assms(4) e this] app obtain f' where
    f': "append_text P L (EDecision d) f = Inr f'" "text_ok P f'" "abs_store P L f' = w_store w'" by auto
  have "load_text P L f' = Inr (add_entry (EDecision d) r)" using f'(3) r(2) by (simp add: abs_store_Document)
  moreover have "filter (\<lambda>x. d_decision_id x = d_decision_id d) (rr_decisions r) = []"
    if "d_decision_id d \<notin> d_decision_id ` set (rr_decisions r)"
    using that by (metis (mono_tags, lifting) filter_False image_eqI)
  ultimately show ?thesis using f' r(1) by (auto simp: decision_text_def abs_store_Document)
qed

section \<open>Witness\<close>

definition restart_text :: record_text where
  "restart_text = write_text demo_prims (dump_record (empty_run_record ''run''))"

lemma restart_ok: "text_ok demo_prims restart_text" "abs_store demo_prims strict restart_text = Document (empty_run_record ''run'')"
proof -
  let ?d = "dump_record (empty_run_record ''run'')"
  have s: "strings_ok unicode (PDict ?d)"
    by (simp add: dump_record_def empty_run_record_def json_list_def ascii_unicode ascii_def)
  have "wf_pyval (PDict ?d)" by (simp add: dump_record_def empty_run_record_def)
  then have l: "loads demo_prims (the restart_text) = Some (PDict ?d)"
    using s by (simp add: restart_text_def write_text_def loads_written_text demo_json_floats del: wf_pyval.simps strings_ok.simps dumps_as.simps)
  then show "text_ok demo_prims restart_text"
    using s by (simp add: text_ok_def restart_text_def write_text_def demo_json_floats del: dumps_as.simps strings_ok.simps)
  have "validate_record strict (PDict ?d) = Inr (empty_run_record ''run'')"
    by (simp add: validate_iff load_dump_record record_ok_def empty_run_record_def)
  with l show "abs_store demo_prims strict restart_text = Document (empty_run_record ''run'')"
    by (auto simp: abs_store_Document load_text_iff restart_text_def write_text_def)
qed

lemma demo_texts:
  "unicode (commitment demo_prims v)" "unicode (uuid4 demo_prims n)" "unicode (iso demo_prims t)"
proof -
  show "unicode (commitment demo_prims v)" "unicode (uuid4 demo_prims n)"
    using ascii_digits by (auto simp: commitment_def demo_prims_def ascii_def intro!: ascii_unicode)
  have "ascii (CHR ''T'' # digits_int m)" for m
    using ascii_digits by (simp add: digits_int_def ascii_def)
  then show "unicode (iso demo_prims t)"
    by (simp add: iso_def demo_prims_def ascii_unicode)
qed

lemma demo_decision_dump:
  "wf_pyval (PDict (dump_runtime_decision demo_decision))" "strings_ok unicode (PDict (dump_runtime_decision demo_decision))"
proof -
  show "wf_pyval (PDict (dump_runtime_decision demo_decision))"
    by (simp add: dump_runtime_decision_def demo_decision_def dump_binding_def demo_binding_def)
  have "strings_ok unicode (PDict (dump_binding demo_binding))"
    by (simp add: dump_binding_def demo_binding_def json_texts_def json_list_def demo_texts proposal_commitment_def
        demo_mapping_def mapping_digest_def ascii_unicode ascii_def)
  then show "strings_ok unicode (PDict (dump_runtime_decision demo_decision))"
    by (simp add: dump_runtime_decision_def demo_decision_def json_texts_def effect_id_def demo_texts
        ascii_unicode ascii_def del: strings_ok.simps(3)) (simp add: ascii_unicode ascii_def demo_texts)
qed

lemma decision_survives_restart_witness:
  "\<exists>f'. append_text demo_prims strict (EDecision demo_decision) restart_text = Inr f' \<and>
     decision_text demo_prims strict (d_decision_id demo_decision) f' = Inr (Some demo_decision)"
proof -
  have valid: "proposal_valid demo_proposal" by (simp add: proposal_valid_def demo_proposal_def)
  have store: "abs_store demo_prims strict restart_text = w_store demo_world"
    by (simp add: restart_ok(2) demo_world_def)
  have "load_text demo_prims strict restart_text = Inr (empty_run_record ''run'')"
    using restart_ok(2) by (simp add: abs_store_Document)
  with decision_survives_restart [OF demo_decide valid store restart_ok(1) demo_decision_dump] show ?thesis
    by (auto simp: empty_run_record_def)
qed

end
