(* ===== verification/DestinationText.thy ===== *)
theory DestinationText
  imports Destination EscapedText
begin

text \<open>
  \<open>LocalRefundDestination\<close> on the text of its file: \<open>_load\<close> and \<open>_write\<close> (which sorts the keys of
  every dict), and \<open>apply\<close>, \<open>observe\<close> and the constructor on the document as it was read, which the code
  does not validate. The theorems show that this implements the destination of \<open>Destination\<close>,
  whose answers it gives up to the order of keys. The locale \<open>sink_implementation\<close> is the contract.
\<close>

section \<open>The interface\<close>

text \<open>Two answers that are the same exception, or the same document up to the order of keys.\<close>

fun alike :: "pydict res \<Rightarrow> pydict res \<Rightarrow> bool" where
  "alike (Inl x) (Inl y) = (x = y)"
| "alike (Inr a) (Inr b) = (key_norm (PDict a) = key_norm (PDict b))"
| "alike _ _ = False"

locale sink_implementation = effect_sink submit effect_at
  for submit :: "apply_request \<Rightarrow> 'd \<Rightarrow> pydict res \<times> 'd"
    and effect_at :: "'d \<Rightarrow> string \<Rightarrow> effect option" +
  fixes put :: "apply_request \<Rightarrow> 'f \<Rightarrow> pydict res \<times> 'f"
    and stands :: "'f \<Rightarrow> 'd \<Rightarrow> bool"
    and fits :: "apply_request \<Rightarrow> bool"
  assumes put_stands: "stands f d \<Longrightarrow> fits q \<Longrightarrow> stands (snd (put q f)) (snd (submit q d))"
    and put_answer: "stands f d \<Longrightarrow> fits q \<Longrightarrow> alike (fst (put q f)) (fst (submit q d))"
begin

primrec put_all :: "apply_request list \<Rightarrow> 'f \<Rightarrow> pydict res list \<times> 'f" where
  "put_all [] f = ([], f)"
| "put_all (q # qs) f = (case put q f of (r, f1) \<Rightarrow> case put_all qs f1 of (rs, f2) \<Rightarrow> (r # rs, f2))"

primrec answers :: "apply_request list \<Rightarrow> 'd \<Rightarrow> pydict res list" where
  "answers [] d = []"
| "answers (q # qs) d = fst (submit q d) # answers qs (snd (submit q d))"

lemma put_all_stands:
  "stands f d \<Longrightarrow> list_all fits qs \<Longrightarrow>
     stands (snd (put_all qs f)) (submit_all qs d) \<and> list_all2 alike (fst (put_all qs f)) (answers qs d)"
proof (induction qs arbitrary: f d)
  case (Cons q qs)
  then have "stands (snd (put q f)) (snd (submit q d))" "alike (fst (put q f)) (fst (submit q d))"
    by (simp_all add: put_stands put_answer)
  with Cons.IH [of "snd (put q f)" "snd (submit q d)"] Cons.prems(2) show ?case
    by (auto split: prod.splits)
qed simp

end

section \<open>The file\<close>

type_synonym dest_text = "string option"

definition load_dest :: "prims \<Rightarrow> dest_text \<Rightarrow> pyval res" where
  "load_dest P f = (case f of
      None \<Rightarrow> throw FileNotFoundError
    | Some s \<Rightarrow> read_json P s)"

definition write_dest :: "prims \<Rightarrow> pyval \<Rightarrow> dest_text" where
  "write_dest P v = Some (dumps_as ascii_quoted P 2 0 (key_norm v))"

definition init_dest :: "prims \<Rightarrow> dest_text \<Rightarrow> dest_text" where
  "init_dest P f = (if f = None
     then write_dest P (PDict [(''effects'', PDict []), (''grant_effect_counts'', PDict [])]) else f)"

text \<open>\<open>v[k] = x\<close>\<close>

definition vset :: "pyval \<Rightarrow> string \<Rightarrow> pyval \<Rightarrow> pyval res" where
  "vset v k x = (case v of PDict d \<Rightarrow> Inr (PDict (dict_set k x d)) | _ \<Rightarrow> throw TypeError)"

text \<open>The body of \<open>apply\<close>: the answer, and the document to write if it comes that far.\<close>

definition apply_doc :: "prims \<Rightarrow> apply_request \<Rightarrow> pyval \<Rightarrow> (pydict res \<times> pyval option) res" where
  "apply_doc P q state =
     bindE (vitem state ''effects'') (\<lambda>effects.
     bindE (py_in (PStr (rq_effect_id q)) effects) (\<lambda>known.
       if known
       then bindE (vitem effects (rq_effect_id q)) (\<lambda>e.
         Inr (Inr [(''duplicate'', PBool True), (''effect'', e)], None))
       else
         bindE (vitem state ''grant_effect_counts'') (\<lambda>counts.
         bindE (bindE (vget_or counts (rq_grant_id q) (PInt 0)) (py_int P)) (\<lambda>used.
           if used \<ge> rq_max_effects q
           then throw_msg RuntimeError ''cumulative grant max_effects exhausted''
           else
             (let e = PDict (dump_effect (effect_of_request q)) in
              bindE (vset effects (rq_effect_id q) e) (\<lambda>effects.
              bindE (vset state ''effects'' effects) (\<lambda>state.
              bindE (vset counts (rq_grant_id q) (PInt (used + 1))) (\<lambda>counts.
              bindE (vset state ''grant_effect_counts'' counts) (\<lambda>state.
                Inr (if rq_lose_ack q then throw_msg TimeoutError ''synthetic acknowledgement lost after commit''
                     else Inr [(''duplicate'', PBool False), (''effect'', e)], Some state))))))))))"

definition apply_text :: "prims \<Rightarrow> apply_request \<Rightarrow> dest_text \<Rightarrow> pydict res \<times> dest_text" where
  "apply_text P q f = (case bindE (load_dest P f) (apply_doc P q) of
      Inl x \<Rightarrow> (Inl x, f)
    | Inr (r, None) \<Rightarrow> (r, f)
    | Inr (r, Some state) \<Rightarrow> (r, write_dest P state))"

definition observe_text :: "prims \<Rightarrow> int \<Rightarrow> string \<Rightarrow> dest_text \<Rightarrow> observation res" where
  "observe_text P now i f =
     bindE (bindE (load_dest P f) (\<lambda>state. vitem state ''effects'')) (\<lambda>effects.
     bindE (vget effects i) (\<lambda>e.
       if e = PNone then Inr \<lparr>o_effect_id = i, o_observed_at = Some (isoformat_utc P now),
         o_state = ObsAbsent, o_destination_state = []\<rparr>
       else bindE (vitem e ''state'') (\<lambda>st.
         bindE (expect_dict e) (\<lambda>d.
           Inr \<lparr>o_effect_id = i, o_observed_at = Some (isoformat_utc P now),
             o_state = (if st = PStr ''partial'' then ObsPartial else ObsApplied), o_destination_state = d\<rparr>))))"

section \<open>What the text stands for\<close>

text \<open>
  The document holds the effects and the counts of the state, each effect with its keys sorted.
  A runtime whose floats read back is part of the relation.
\<close>

definition stands_for :: "prims \<Rightarrow> dest_text \<Rightarrow> dest_file \<Rightarrow> bool" where
  "stands_for P f t \<longleftrightarrow> json_floats P \<and> (\<exists>s d es gs st. f = Some s \<and> loads P s = Some (PDict d) \<and>
     strings_ok unicode (PDict d) \<and> map_of d ''effects'' = Some (PDict es) \<and>
     map_of d ''grant_effect_counts'' = Some (PDict gs) \<and> t = DestDoc st \<and>
     map_of es = map_option (\<lambda>e. key_norm (PDict (dump_effect e))) \<circ> ds_effects st \<and>
     map_of gs = map_option PInt \<circ> ds_grant_counts st)"

text \<open>Requests with Unicode text.\<close>

definition request_ok :: "apply_request \<Rightarrow> bool" where
  "request_ok q \<longleftrightarrow> wf_pyval (PDict (rq_payload q)) \<and>
     strings_ok unicode (PDict (dump_effect (effect_of_request q)))"

section \<open>Sorted documents\<close>

lemma map_of_sorted: "distinct (map fst d) \<Longrightarrow> map_of (sort_key fst d) = map_of (d :: pydict)"
  by (subst map_of_inject_set) (simp_all add: distinct_map)

lemma map_of_key_norm:
  "distinct (map fst d) \<Longrightarrow> key_norm (PDict d) = PDict e \<Longrightarrow> map_of e k = map_option key_norm (map_of d k)"
  by (auto simp only: key_norm_PDict pyval.inject map_of_map_key_norm map_of_sorted)

lemma key_norm_keeps:
  "wf_pyval v \<Longrightarrow> wf_pyval (key_norm v)" "strings_ok ok v \<Longrightarrow> strings_ok ok (key_norm v)"
proof -
  show "wf_pyval v \<Longrightarrow> wf_pyval (key_norm v)"
  proof (induction v rule: key_norm.induct)
    case (2 d)
    have "map fst (map (\<lambda>(k, v). (k, key_norm v)) (sort_key fst d)) = map fst (sort_key fst d)" by auto
    moreover have "distinct (map fst (sort_key fst d))" using 2(2) by (simp add: distinct_map)
    moreover have "list_all (\<lambda>(k, v). wf_pyval v) (map (\<lambda>(k, v). (k, key_norm v)) (sort_key fst d))"
      using 2 by (auto simp: list_all_iff)
    ultimately show ?case by (simp only: key_norm_PDict wf_pyval.simps)
  qed (auto simp: list_all_iff)
  show "strings_ok ok v \<Longrightarrow> strings_ok ok (key_norm v)"
    by (induction v rule: key_norm.induct) (auto simp: list_all_iff)
qed

lemma key_norm_idem [simp]: "key_norm (key_norm v) = key_norm v"
proof (induction v rule: key_norm.induct)
  case (2 d)
  let ?e = "map (\<lambda>(k, v). (k, key_norm v)) (sort_key fst d)"
  have "sort_key fst ?e = ?e"
    by (rule sort_key_id_if_sorted) (simp add: o_def case_prod_unfold)
  moreover have "map (\<lambda>(k, v). (k, key_norm v)) ?e = ?e" using 2 by auto
  ultimately show ?case by (simp only: key_norm_PDict)
qed auto

lemma written_dest:
  assumes "json_floats P" "wf_pyval v" "strings_ok unicode v"
  shows "\<exists>s. write_dest P v = Some s \<and> loads P s = Some (key_norm v) \<and> strings_ok unicode (key_norm v)"
  using key_norm_keeps assms by (simp add: write_dest_def escaped.loads_written)

lemma strings_member: "strings_ok ok (PDict d) \<Longrightarrow> map_of d k = Some v \<Longrightarrow> strings_ok ok v"
  by (auto simp: list_all_iff dest!: map_of_SomeD)

lemma wf_found: "wf_pyval (PDict d) \<Longrightarrow> map_of d k = Some v \<Longrightarrow> wf_pyval v"
  by (auto simp: list_all_iff dest!: map_of_SomeD)

lemma strings_set:
  "strings_ok ok (PDict d) \<Longrightarrow> ok k \<Longrightarrow> strings_ok ok v \<Longrightarrow> strings_ok ok (PDict (dict_set k v d))"
  by (induction d) auto

lemma py_in_dict: "py_in (PStr i) (PDict d) = Inr (map_of d i \<noteq> None)"
  by (force simp: py_in_def map_of_eq_None_iff)

text \<open>Writing a document whose two tables hold a state gives a text that stands for it.\<close>

lemma written_stands:
  assumes "json_floats P" "wf_pyval (PDict d)" "strings_ok unicode (PDict d)"
    and "map_of d ''effects'' = Some (PDict es)" "map_of d ''grant_effect_counts'' = Some (PDict gs)"
    and "\<And>i. map_option key_norm (map_of es i) = map_option (\<lambda>e. key_norm (PDict (dump_effect e))) (ds_effects st i)"
    and "\<And>g. map_of gs g = map_option PInt (ds_grant_counts st g)"
  shows "stands_for P (write_dest P (PDict d)) (DestDoc st)"
proof -
  obtain s where s: "write_dest P (PDict d) = Some s" "loads P s = Some (key_norm (PDict d))"
      "strings_ok unicode (key_norm (PDict d))"
    using written_dest [OF assms(1-3)] by blast
  obtain d' es' gs' where n: "key_norm (PDict d) = PDict d'" "key_norm (PDict es) = PDict es'" "key_norm (PDict gs) = PDict gs'"
    by (simp only: key_norm_PDict)
  have wf: "distinct (map fst d)" "distinct (map fst es)" "distinct (map fst gs)"
    using assms(2) wf_found [OF assms(2,4)] wf_found [OF assms(2,5)] by simp_all
  note look = map_of_key_norm [OF wf(1) n(1)] map_of_key_norm [OF wf(2) n(2)] map_of_key_norm [OF wf(3) n(3)]
  have "map_of d' ''effects'' = Some (PDict es')" "map_of d' ''grant_effect_counts'' = Some (PDict gs')"
    by (simp_all add: look assms(4,5) n(2,3) del: key_norm.simps)
  moreover have "map_of es' = map_option (\<lambda>e. key_norm (PDict (dump_effect e))) \<circ> ds_effects st"
    by (rule ext) (simp add: look assms(6) del: key_norm.simps)
  moreover have "map_of gs' = map_option PInt \<circ> ds_grant_counts st"
    by (rule ext) (simp add: look assms(7) option.map_comp o_def)
  ultimately show ?thesis using assms(1) s unfolding stands_for_def n(1) by blast
qed

lemma wf_dump_effect: "wf_pyval (PDict (rq_payload q)) \<Longrightarrow> wf_pyval (PDict (dump_effect (effect_of_request q)))"
  by (simp add: dump_effect_def effect_of_request_def)

lemma unicode_tables: "unicode ''effects''" "unicode ''grant_effect_counts''"
  by (rule ascii_unicode, simp add: ascii_def)+

lemma request_ids: "request_ok q \<Longrightarrow> unicode (rq_effect_id q) \<and> unicode (rq_grant_id q)"
  by (simp add: request_ok_def dump_effect_def effect_of_request_def)

lemma apply_text_stands:
  assumes "stands_for P f (DestDoc st)" "request_ok q"
  shows "stands_for P (snd (apply_text P q f)) (snd (local_apply q (DestDoc st))) \<and>
     alike (fst (apply_text P q f)) (fst (local_apply q (DestDoc st)))"
proof -
  from assms(1) obtain s d es gs where doc: "json_floats P" "f = Some s" "loads P s = Some (PDict d)"
      "strings_ok unicode (PDict d)" "map_of d ''effects'' = Some (PDict es)"
      "map_of d ''grant_effect_counts'' = Some (PDict gs)"
      "map_of es = map_option (\<lambda>e. key_norm (PDict (dump_effect e))) \<circ> ds_effects st"
      "map_of gs = map_option PInt \<circ> ds_grant_counts st"
    by (auto simp: stands_for_def)
  have load: "load_dest P f = Inr (PDict d)" by (simp add: load_dest_def read_json_def doc)
  let ?i = "rq_effect_id q" and ?g = "rq_grant_id q"
  have used: "bindE (vget_or (PDict gs) ?g (PInt 0)) (py_int P) = Inr (grant_used st ?g)"
    by (simp add: dget_or_def doc(8) grant_used_def split: option.split)
  have known: "map_of es ?i \<noteq> None \<longleftrightarrow> ds_effects st ?i \<noteq> None" by (simp add: doc(7))
  show ?thesis
  proof (cases rule: local_apply_cases [of "DestDoc st" q])
    case unreadable
    then show ?thesis by simp
  next
    case (duplicate st' e)
    then have "apply_doc P q (PDict d) =
        Inr (Inr [(''duplicate'', PBool True), (''effect'', key_norm (PDict (dump_effect e)))], None)"
      by (simp add: apply_doc_def ditem_def doc(5) py_in_dict doc(7) del: key_norm.simps)
    then have "apply_text P q f = (Inr [(''duplicate'', PBool True), (''effect'', key_norm (PDict (dump_effect e)))], f)"
      by (simp add: apply_text_def load del: key_norm.simps)
    moreover have "key_norm (PDict [(''duplicate'', b), (''effect'', key_norm v)]) = key_norm (PDict [(''duplicate'', b), (''effect'', v)])" for b v
      by simp
    ultimately show ?thesis using duplicate(3) assms(1) by (simp del: key_norm.simps)
  next
    case (exhausted st')
    then have "apply_doc P q (PDict d) = throw_msg RuntimeError ''cumulative grant max_effects exhausted''"
      using known used by (simp add: apply_doc_def ditem_def doc(5,6) py_in_dict)
    with exhausted assms(1) show ?thesis by (simp add: apply_text_def load throw_msg_def)
  next
    case (committed st' r)
    define e where "e = PDict (dump_effect (effect_of_request q))"
    define d' where "d' = dict_set ''grant_effect_counts'' (PDict (dict_set ?g (PInt (grant_used st ?g + 1)) gs))
        (dict_set ''effects'' (PDict (dict_set ?i e es)) d)"
    have "apply_doc P q (PDict d) = Inr (if rq_lose_ack q
        then throw_msg TimeoutError ''synthetic acknowledgement lost after commit''
        else Inr [(''duplicate'', PBool False), (''effect'', e)], Some (PDict d'))"
      using committed known used
      by (simp add: apply_doc_def ditem_def doc(5,6) py_in_dict vset_def e_def d'_def Let_def)
    then have app: "apply_text P q f = (if rq_lose_ack q
        then throw_msg TimeoutError ''synthetic acknowledgement lost after commit''
        else Inr [(''duplicate'', PBool False), (''effect'', e)], write_dest P (PDict d'))"
      by (simp add: apply_text_def load)
    have ok: "wf_pyval e" "strings_ok unicode e" "unicode ?i" "unicode ?g"
      using assms(2) request_ids [OF assms(2)] by (simp_all only: e_def request_ok_def wf_dump_effect)
    have wf: "wf_pyval (PDict d)" "wf_pyval (PDict es)" "wf_pyval (PDict gs)"
      using loads_wf [OF doc(3)] wf_found [OF loads_wf [OF doc(3)] doc(5)] wf_found [OF loads_wf [OF doc(3)] doc(6)] by blast+
    have strs: "strings_ok unicode (PDict es)" "strings_ok unicode (PDict gs)"
      using strings_member [OF doc(4)] doc(5,6) by blast+
    have "wf_pyval (PDict d')"
      unfolding d'_def using wf ok by (intro wf_dict_set) simp_all
    moreover have "strings_ok unicode (PDict d')"
      unfolding d'_def using doc(4) strs ok unicode_tables by (intro strings_set) simp_all
    moreover have "map_of d' ''effects'' = Some (PDict (dict_set ?i e es))"
        "map_of d' ''grant_effect_counts'' = Some (PDict (dict_set ?g (PInt (grant_used st ?g + 1)) gs))"
      by (simp_all add: d'_def)
    ultimately have "stands_for P (write_dest P (PDict d')) (DestDoc (st\<lparr>ds_effects := (ds_effects st)(?i \<mapsto> effect_of_request q),
         ds_grant_counts := (ds_grant_counts st)(?g \<mapsto> grant_used st ?g + 1)\<rparr>))"
      by (rule written_stands [OF doc(1)])
        (simp_all add: doc(7,8) e_def option.map_comp o_def del: key_norm.simps)
    with committed app show ?thesis by (simp add: e_def throw_msg_def del: key_norm.simps)
  qed
qed

interpretation dest_text: sink_implementation local_apply effect_in "apply_text P" "stands_for P" request_ok
proof unfold_locales
  fix f d q
  assume *: "stands_for P f d" "request_ok q"
  then obtain st where "d = DestDoc st" by (auto simp: stands_for_def)
  with * apply_text_stands [of P f st q]
  show "stands_for P (snd (apply_text P q f)) (snd (local_apply q d))"
    and "alike (fst (apply_text P q f)) (fst (local_apply q d))" by auto
qed

lemma init_stands:
  assumes "json_floats P"
  shows "stands_for P (init_dest P None) empty_destination"
proof -
  from assms have "stands_for P (write_dest P (PDict [(''effects'', PDict []), (''grant_effect_counts'', PDict [])]))
      (DestDoc \<lparr>ds_effects = Map.empty, ds_grant_counts = Map.empty\<rparr>)"
    by (rule written_stands [where es = "[]" and gs = "[]"]) (simp_all add: unicode_tables)
  then show ?thesis by (simp add: init_dest_def empty_destination_def)
qed

section \<open>Properties\<close>

text \<open>Observing the text and observing the state give the same observation, up to the order of keys.\<close>

fun same_observation :: "observation res \<Rightarrow> observation res \<Rightarrow> bool" where
  "same_observation (Inr a) (Inr b) \<longleftrightarrow> a\<lparr>o_destination_state := []\<rparr> = b\<lparr>o_destination_state := []\<rparr> \<and>
     key_norm (PDict (o_destination_state a)) = key_norm (PDict (o_destination_state b))"
| "same_observation _ _ = False"

lemma key_norm_state:
  "key_norm (PDict (dump_effect e)) = PDict d \<Longrightarrow>
     map_of d ''state'' = Some (PStr (case ef_state e of EffPartial \<Rightarrow> ''partial'' | EffApplied \<Rightarrow> ''applied''))"
  by (subst map_of_key_norm [of "dump_effect e"]) (simp_all add: dump_effect_def del: key_norm.simps(2))

lemma observe_text_stands:
  assumes "stands_for P f d"
  shows "same_observation (observe_text P now i f) (local_observe P now i d)"
proof -
  from assms obtain s t es st where doc: "f = Some s" "loads P s = Some (PDict t)" "map_of t ''effects'' = Some (PDict es)"
      "d = DestDoc st" "map_of es = map_option (\<lambda>e. key_norm (PDict (dump_effect e))) \<circ> ds_effects st"
    by (auto simp: stands_for_def)
  show ?thesis
  proof (cases "ds_effects st i")
    case None
    then show ?thesis
      by (simp add: observe_text_def load_dest_def read_json_def doc ditem_def dget_or_def local_observe_def)
  next
    case (Some e)
    obtain x where x: "key_norm (PDict (dump_effect e)) = PDict x" by (simp only: key_norm_PDict)
    have "key_norm (PDict x) = key_norm (PDict (dump_effect e))" unfolding x [symmetric] by (rule key_norm_idem)
    with Some key_norm_state [OF x] show ?thesis
      by (cases "ef_state e")
        (simp_all add: observe_text_def load_dest_def read_json_def doc ditem_def dget_or_def x expect_dict_def local_observe_def
          del: key_norm.simps)
  qed
qed

text \<open>
  C22. The file of the destination implements the destination: from a fresh file, any sequence of
  requests with Unicode text gets from the operations on the text the answers that the abstract
  destination gives (the same exceptions, and acknowledgements equal up to the order of keys, which
  \<open>_write\<close> sorts), and afterwards observing any effect in the text gives what the
  destination would. Reads and writes of the file lose nothing.
\<close>

theorem destination_text_refines:
  assumes "json_floats P" "list_all request_ok qs"
  shows "case dest_text.put_all P qs (init_dest P None) of (answers, f) \<Rightarrow>
     stands_for P f (local.submit_all qs empty_destination) \<and>
     list_all2 alike answers (dest_text.answers qs empty_destination) \<and>
     list_all (\<lambda>i. same_observation (observe_text P now i f) (local_observe P now i (local.submit_all qs empty_destination))) ids"
  using dest_text.put_all_stands [OF init_stands [OF assms(1)] assms(2)]
  by (auto split: prod.split simp: list_all_iff intro: observe_text_stands)

section \<open>Witness\<close>

definition refund_request :: apply_request where
  "refund_request = \<lparr>rq_effect_id = ''e'', rq_grant_id = ''g'', rq_max_effects = 1, rq_target = ''t'',
     rq_amount = 5 / 2, rq_unit = ''EUR'', rq_payload = [(''z'', PInt 1), (''a'', PNone)],
     rq_lose_ack = False, rq_partial = False\<rparr>"

lemma refund_ok: "request_ok refund_request"
  by (simp add: request_ok_def refund_request_def dump_effect_def effect_of_request_def ascii_unicode ascii_def)

lemma destination_text_refines_witness:
  "\<exists>answers f. dest_text.put_all (with_ratios sample_prims) [refund_request, refund_request]
      (init_dest (with_ratios sample_prims) None) = (answers, f) \<and>
     list_all2 alike answers [Inr [(''duplicate'', PBool False), (''effect'', PDict (dump_effect (effect_of_request refund_request)))],
       Inr [(''duplicate'', PBool True), (''effect'', PDict (dump_effect (effect_of_request refund_request)))]]"
proof -
  have "dest_text.answers [refund_request, refund_request] empty_destination =
      [Inr [(''duplicate'', PBool False), (''effect'', PDict (dump_effect (effect_of_request refund_request)))],
       Inr [(''duplicate'', PBool True), (''effect'', PDict (dump_effect (effect_of_request refund_request)))]]"
    by (simp add: local_apply_def empty_destination_def grant_used_def refund_request_def effect_of_request_def Let_def)
  then show ?thesis
    using destination_text_refines [OF with_ratios_floats [of sample_prims], of "[refund_request, refund_request]" 0 "[]"]
      refund_ok by (auto split: prod.splits)
qed

end
