(* ===== verification/Completion.thy ===== *)
theory Completion
  imports Workflow
begin

text \<open>
  The workflow completes. The safety properties say what \<open>execute\<close> of \<open>bounded.py\<close> never does;
  here is what it does: an authorized decision that still resolves takes effect, once, and
  executing it again finds the effect instead of applying it. Nothing is added to the model.
\<close>

section \<open>A destination that can be observed\<close>

text \<open>
  What completion needs of a destination besides the laws of \<open>capped_sink\<close>: while it is readable, a
  request for a new effect below the cap commits, and observing an effect id tells the effect
  or its absence, at the time of the call.
\<close>

definition seen_effect :: "effect \<Rightarrow> string \<Rightarrow> observation" where
  "seen_effect e stamp = \<lparr>o_effect_id = ef_effect_id e, o_observed_at = Some stamp,
     o_state = (case ef_state e of EffPartial \<Rightarrow> ObsPartial | EffApplied \<Rightarrow> ObsApplied),
     o_destination_state = dump_effect e\<rparr>"

definition seen_absent :: "string \<Rightarrow> string \<Rightarrow> observation" where
  "seen_absent i stamp = \<lparr>o_effect_id = i, o_observed_at = Some stamp, o_state = ObsAbsent,
     o_destination_state = []\<rparr>"

definition commit_answer :: "apply_request \<Rightarrow> pydict res" where
  "commit_answer q = (if rq_lose_ack q
     then throw_msg TimeoutError ''synthetic acknowledgement lost after commit''
     else Inr [(''duplicate'', PBool False), (''effect'', PDict (dump_effect (effect_of_request q)))])"

text \<open>The clock's text reads back as its instant, within the observation policy of time \<open>t\<close>.\<close>

definition clock_trusted :: "prims \<Rightarrow> observation_policy \<Rightarrow> int \<Rightarrow> nat \<Rightarrow> bool" where
  "clock_trusted P policy t n \<longleftrightarrow>
     \<not> blank (isoformat_utc P (clock P n)) \<and>
     fromisoformat P (replace_Z (isoformat_utc P (clock P n))) = Some (Aware (clock P n)) \<and>
     in_window (op_clock_tolerance_seconds policy) (op_max_age_seconds policy) (clock P n) t"

lemma seen_accepted:
  assumes "clock_trusted P policy t n"
  shows "observation_reasons P (Some policy) i (seen_absent i (isoformat_utc P (clock P n))) (Some (Aware t)) = []"
    and "ef_effect_id e = i \<Longrightarrow>
      observation_reasons P (Some policy) i (seen_effect e (isoformat_utc P (clock P n))) (Some (Aware t)) = []"
  using assms
  by (auto simp: observation_reasons_Nil clock_trusted_def seen_absent_def seen_effect_def state_reasons_def
      dump_effect_def dget_or_def split: effect_state.splits)

section \<open>Ready to execute\<close>

text \<open>
  What the guards of \<open>execute\<close> ask before the destination is looked at: the decision is equal to
  the one persisted under its id, that one is authorized with its own effect id, the proposal
  resolves to an equal binding, and the adapter is the bound one.
\<close>

definition execute_ready ::
  "prims \<Rightarrow> config \<Rightarrow> proposal \<Rightarrow> decision \<Rightarrow> string \<Rightarrow> int \<Rightarrow> 'd world \<Rightarrow> decision \<Rightarrow> binding \<Rightarrow> binding \<Rightarrow> bool" where
  "execute_ready P cfg p d ad t w s b c \<longleftrightarrow>
     store_decision (d_decision_id d) (w_store w) = Inr (Some s) \<and>
     check_persisted P d (Some s) = Inr (s, b) \<and>
     resolve P cfg p (Aware t) = Inr ([], Some c) \<and> binding_eq c b \<and> ad = b_adapter_id b"

lemma execute_ready_run:
  assumes "execute_ready P cfg p d ad t w s b c"
  shows "execute P cfg D p d ad (Some (Aware t)) lose part w = perform P cfg D p s c (Aware t) lose part w"
proof -
  from assms have "revalidate P cfg p s b (Aware t) w = (Inr c, w)" "b_adapter_id c = ad"
    by (auto simp: execute_ready_def revalidate_def bindA_def liftA_def returnA_def option_eq_Some Let_def
        dest: binding_eq_fields)
  with assms show ?thesis
    by (simp add: execute_ready_def execute_def bindA_def given_or_now_def returnA_def liftA_def)
qed

locale observable_sink = capped_sink submit effect_at used
  for submit :: "apply_request \<Rightarrow> 'd \<Rightarrow> pydict res \<times> 'd"
    and effect_at :: "'d \<Rightarrow> string \<Rightarrow> effect option" and used :: "'d \<Rightarrow> string \<Rightarrow> int" +
  fixes readable :: "'d \<Rightarrow> bool" and observe :: "int \<Rightarrow> string \<Rightarrow> 'd \<Rightarrow> observation res" and P :: prims
  assumes submit_commits: "readable d \<Longrightarrow> effect_at d (rq_effect_id q) = None \<Longrightarrow>
        used d (rq_grant_id q) < rq_max_effects q \<Longrightarrow>
        fst (submit q d) = commit_answer q \<and> readable (snd (submit q d)) \<and>
        effect_at (snd (submit q d)) (rq_effect_id q) = Some (effect_of_request q) \<and>
        used (snd (submit q d)) (rq_grant_id q) = used d (rq_grant_id q) + 1"
    and observe_effect: "readable d \<Longrightarrow> effect_at d i = Some e \<Longrightarrow>
        ef_effect_id e = i \<and> observe n i d = Inr (seen_effect e (isoformat_utc P n))"
    and observe_absent: "readable d \<Longrightarrow> effect_at d i = None \<Longrightarrow>
        observe n i d = Inr (seen_absent i (isoformat_utc P n))"
begin

abbreviation sink :: "'d destination" where
  "sink \<equiv> \<lparr>dst_submit = submit, dst_observe = observe\<rparr>"

text \<open>Looking at a readable destination while the clock is trusted.\<close>

lemma look:
  assumes "w_store w = Document rr" "readable (w_dest w)" "cf_observation_policy cfg = Some policy"
    and "clock_trusted P policy t (w_ticks w)"
  shows "\<exists>rec w' rr'. observe_and_reconcile P cfg sink i (Some (Aware t)) w = (Inr rec, w') \<and>
     w_dest w' = w_dest w \<and> w_ticks w' = w_ticks w + 2 \<and> w_store w' = Document rr' \<and>
     rr_attempts rr' = rr_attempts rr \<and> rr_decisions rr' = rr_decisions rr \<and>
     rec_observation_accepted rec \<and>
     (case effect_at (w_dest w) i of
        None \<Rightarrow> rec_result rec = RecObservedAbsent \<and>
          rec_observation rec = Some (seen_absent i (isoformat_utc P (clock P (w_ticks w))))
      | Some e \<Rightarrow> rec_result rec = (case ef_state e of EffApplied \<Rightarrow> RecApplied | EffPartial \<Rightarrow> RecHold) \<and>
          rec_observation rec = Some (seen_effect e (isoformat_utc P (clock P (w_ticks w)))))"
proof -
  let ?stamp = "isoformat_utc P (clock P (w_ticks w))"
  define obs where "obs = (case effect_at (w_dest w) i of None \<Rightarrow> seen_absent i ?stamp
     | Some e \<Rightarrow> seen_effect e ?stamp)"
  have "observe (clock P (w_ticks w)) i (w_dest w) = Inr obs \<and>
      observation_reasons P (Some policy) i obs (Some (Aware t)) = []"
  proof (cases "effect_at (w_dest w) i")
    case None
    show ?thesis unfolding obs_def None option.case
      by (rule conjI [OF observe_absent [OF assms(2) None] seen_accepted(1) [OF assms(4)]])
  next
    case (Some e)
    from observe_effect [OF assms(2) Some] show ?thesis unfolding obs_def Some option.case
      by (blast intro: seen_accepted(2) [OF assms(4)])
  qed
  then have see: "observe (clock P (w_ticks w)) i (w_dest w) = Inr obs"
    and none: "observation_reasons P (Some policy) i obs (Some (Aware t)) = []" by blast+
  have "case effect_at (w_dest w) i of
      None \<Rightarrow> classify True obs = RecObservedAbsent
    | Some e \<Rightarrow> classify True obs = (case ef_state e of EffApplied \<Rightarrow> RecApplied | EffPartial \<Rightarrow> RecHold)"
    by (auto simp: obs_def classify_def seen_absent_def seen_effect_def split: option.splits effect_state.splits)
  then show ?thesis using assms(1,3) see none
    by (auto simp: observe_and_reconcile_def reconcile_observation_def bindA_def observeA_def recordA_def
        nowA_def returnA_def store_append_def Let_def reconciliation_of_def obs_def split: option.splits)
qed

text \<open>A dispatch of a new effect below the cap: it commits, and the destination is seen to hold it.\<close>

lemma dispatch_completes:
  assumes doc: "w_store w = Document rr" and dest: "readable (w_dest w)"
    and policy: "cf_observation_policy cfg = Some policy" and clk: "clock_trusted P policy t (w_ticks w)"
    and q: "q = request_of p s c lose part"
    and new: "effect_at (w_dest w) (d_effect_id s) = None"
    and room: "used (w_dest w) (b_grant_id c) < b_effective_max_effects c"
  shows "\<exists>a obs w' rr'. dispatch P cfg sink p s c (Aware t) lose part w = (Inr (a, Some obs), w') \<and>
     a_effect_id a = d_effect_id s \<and> a_decision_id a = d_decision_id s \<and>
     a_status a = (if lose then AttemptUnknown else if part then AttemptPartial else Acknowledged) \<and>
     obs = seen_effect (effect_of_request q) (isoformat_utc P (clock P (w_ticks w))) \<and>
     w_dest w' = snd (submit q (w_dest w)) \<and> w_ticks w' = w_ticks w + 2 \<and>
     w_store w' = Document rr' \<and> rr_decisions rr' = rr_decisions rr \<and>
     (\<exists>first. rr_attempts rr' = rr_attempts rr @ [first, a])"
proof -
  define first where "first = new_attempt P (uuid4 P (w_uuids w)) s (Aware t) Attempted []"
  define a where "a = settle first part (commit_answer q)"
  define rr1 where "rr1 = add_entry (EAttempt a) (add_entry (EAttempt first) rr)"
  define v where "v = w\<lparr>w_uuids := Suc (w_uuids w), w_dest := snd (submit q (w_dest w)),
    w_store := Document rr1\<rparr>"
  have ids: "rq_effect_id q = d_effect_id s" "rq_grant_id q = b_grant_id c"
    "rq_max_effects q = b_effective_max_effects c" "rq_lose_ack q = lose"
    by (simp_all add: q request_of_def)
  have sub: "submit q (w_dest w) = (commit_answer q, w_dest v)" "readable (w_dest v)"
    "effect_at (w_dest v) (d_effect_id s) = Some (effect_of_request q)"
    using submit_commits [of "w_dest w" q] dest new room by (auto simp: ids v_def prod_eq_iff)
  have run: "submit (request_of p s c lose part) (w_dest w) = (commit_answer q, snd (submit q (w_dest w)))"
    using sub(1) by (simp add: q v_def)
  have "w_store v = Document rr1" "w_ticks v = w_ticks w" by (simp_all add: v_def)
  from look [OF this(1) sub(2) policy, of t "d_effect_id s"] clk this(2) obtain rec w' rr' where
    obs: "observe_and_reconcile P cfg sink (d_effect_id s) (Some (Aware t)) v = (Inr rec, w')"
      "w_dest w' = w_dest v" "w_ticks w' = w_ticks w + 2" "w_store w' = Document rr'"
      "rr_attempts rr' = rr_attempts rr1" "rr_decisions rr' = rr_decisions rr1" "rec_observation_accepted rec"
      "rec_observation rec = Some (seen_effect (effect_of_request q) (isoformat_utc P (clock P (w_ticks w))))"
    by (auto simp: sub(3))
  have "dispatch P cfg sink p s c (Aware t) lose part w = (Inr (a, rec_observation rec), w')"
    using obs(1,7) doc run
    by (simp add: dispatch_def bindA_def uuidA_def recordA_def store_append_def submitA_def Let_def
        first_def v_def rr1_def a_def returnA_def)
  moreover have "a_effect_id a = d_effect_id s" "a_decision_id a = d_decision_id s"
    "a_status a = (if lose then AttemptUnknown else if part then AttemptPartial else Acknowledged)"
    by (simp_all add: a_def settle_def first_def new_attempt_def commit_answer_def ids throw_msg_def)
  ultimately show ?thesis using obs(2-6,8) by (auto simp: v_def rr1_def)
qed

text \<open>The look before the dispatch decides: absent and never attempted is dispatched.\<close>

lemma perform_completes:
  assumes doc: "w_store w = Document rr" and dest: "readable (w_dest w)"
    and policy: "cf_observation_policy cfg = Some policy"
    and clk: "clock_trusted P policy t (w_ticks w)" "clock_trusted P policy t (w_ticks w + 2)"
    and q: "q = request_of p s c lose part"
    and new: "effect_at (w_dest w) (d_effect_id s) = None"
    and room: "used (w_dest w) (b_grant_id c) < b_effective_max_effects c"
    and first: "\<forall>a\<in>set (rr_attempts rr). a_effect_id a \<noteq> d_effect_id s"
  shows "\<exists>a obs w' rr'. perform P cfg sink p s c (Aware t) lose part w = (Inr (a, Some obs), w') \<and>
     a_effect_id a = d_effect_id s \<and> a_decision_id a = d_decision_id s \<and>
     a_status a = (if lose then AttemptUnknown else if part then AttemptPartial else Acknowledged) \<and>
     obs = seen_effect (effect_of_request q) (isoformat_utc P (clock P (w_ticks w + 2))) \<and>
     w_dest w' = snd (submit q (w_dest w)) \<and> w_ticks w' = w_ticks w + 4 \<and>
     w_store w' = Document rr' \<and> rr_decisions rr' = rr_decisions rr \<and>
     (\<exists>start. rr_attempts rr' = rr_attempts rr @ [start, a])"
proof -
  from look [OF doc dest policy clk(1), of "d_effect_id s"] new obtain rec w1 rr1 where
    obs: "observe_and_reconcile P cfg sink (d_effect_id s) (Some (Aware t)) w = (Inr rec, w1)"
      "w_dest w1 = w_dest w" "w_ticks w1 = w_ticks w + 2" "w_store w1 = Document rr1"
      "rr_attempts rr1 = rr_attempts rr" "rr_decisions rr1 = rr_decisions rr" "rec_result rec = RecObservedAbsent"
      "rec_observation rec = Some (seen_absent (d_effect_id s) (isoformat_utc P (clock P (w_ticks w))))"
    by auto
  have "filter (\<lambda>a. a_effect_id a = d_effect_id s) (rr_attempts rr) = []"
    using first by (simp add: filter_empty_conv)
  then have "perform P cfg sink p s c (Aware t) lose part w = dispatch P cfg sink p s c (Aware t) lose part w1"
    using obs(1,7,8) doc by (simp add: perform_def bindA_def loadA_def store_load_def Let_def seen_absent_def)
  moreover have "clock_trusted P policy t (w_ticks w1)" using clk(2) obs(3) by simp
  from dispatch_completes [OF obs(4) _ policy this q] dest new room obs(2)
  obtain a o' w' rr' first where "dispatch P cfg sink p s c (Aware t) lose part w1 = (Inr (a, Some o'), w')"
     "a_effect_id a = d_effect_id s" "a_decision_id a = d_decision_id s"
     "a_status a = (if lose then AttemptUnknown else if part then AttemptPartial else Acknowledged)"
     "o' = seen_effect (effect_of_request q) (isoformat_utc P (clock P (w_ticks w1)))"
     "w_dest w' = snd (submit q (w_dest w1))" "w_ticks w' = w_ticks w1 + 2"
     "w_store w' = Document rr'" "rr_decisions rr' = rr_decisions rr1"
     "rr_attempts rr' = rr_attempts rr1 @ [first, a]" by auto
  ultimately show ?thesis using obs(2,3,5,6)
    by (intro exI [of _ a] exI [of _ o'] exI [of _ w'] exI [of _ rr']) simp
qed

text \<open>An effect that is there is reported, on the record, and not applied again.\<close>

lemma perform_again:
  assumes doc: "w_store w = Document rr" and dest: "readable (w_dest w)"
    and policy: "cf_observation_policy cfg = Some policy"
    and clk: "clock_trusted P policy t (w_ticks w)"
    and there: "effect_at (w_dest w) (d_effect_id s) = Some e"
  shows "\<exists>a obs w' rr'. perform P cfg sink p s c (Aware t) lose part w = (Inr (a, Some obs), w') \<and>
     a_effect_id a = d_effect_id s \<and> a_decision_id a = d_decision_id s \<and>
     a_status a = (case ef_state e of EffApplied \<Rightarrow> Acknowledged | EffPartial \<Rightarrow> AttemptPartial) \<and>
     a_acknowledgement a = [(''reconciled_existing'', PBool True)] \<and>
     obs = seen_effect e (isoformat_utc P (clock P (w_ticks w))) \<and>
     w_dest w' = w_dest w \<and> w_store w' = Document rr' \<and> rr_attempts rr' = rr_attempts rr @ [a]"
proof -
  from look [OF doc dest policy clk, of "d_effect_id s"] there obtain rec w1 rr1 where
    obs: "observe_and_reconcile P cfg sink (d_effect_id s) (Some (Aware t)) w = (Inr rec, w1)"
      "w_dest w1 = w_dest w" "w_store w1 = Document rr1"
      "rr_attempts rr1 = rr_attempts rr" "rec_observation_accepted rec"
      "rec_result rec = (case ef_state e of EffApplied \<Rightarrow> RecApplied | EffPartial \<Rightarrow> RecHold)"
      "rec_observation rec = Some (seen_effect e (isoformat_utc P (clock P (w_ticks w))))"
    by auto
  define a where "a = new_attempt P (uuid4 P (w_uuids w1)) s (Aware t)
    (case ef_state e of EffApplied \<Rightarrow> Acknowledged | EffPartial \<Rightarrow> AttemptPartial)
    [(''reconciled_existing'', PBool True)]"
  define w' where "w' = w1\<lparr>w_uuids := Suc (w_uuids w1), w_store := Document (add_entry (EAttempt a) rr1)\<rparr>"
  have "perform P cfg sink p s c (Aware t) lose part w = (Inr (a, rec_observation rec), w')"
    using obs(1,3,5-7) doc
    by (cases "ef_state e") (simp_all add: perform_def bindA_def loadA_def store_load_def Let_def seen_effect_def
        already_there_def uuidA_def recordA_def store_append_def returnA_def a_def w'_def)
  moreover have "a_effect_id a = d_effect_id s" "a_decision_id a = d_decision_id s"
     "a_status a = (case ef_state e of EffApplied \<Rightarrow> Acknowledged | EffPartial \<Rightarrow> AttemptPartial)"
     "a_acknowledgement a = [(''reconciled_existing'', PBool True)]"
    by (simp_all add: a_def new_attempt_def)
  ultimately show ?thesis using obs(2,4,7)
    by (intro exI [of _ a] exI [of _ "the (rec_observation rec)"] exI [of _ w']
        exI [of _ "add_entry (EAttempt a) rr1"]) (simp add: w'_def)
qed

text \<open>Both, from \<open>execute\<close>.\<close>

lemma execute_completes:
  assumes exec: "execute_ready P cfg p d ad t w s b c"
    and dest: "readable (w_dest w)" and policy: "cf_observation_policy cfg = Some policy"
    and clk: "clock_trusted P policy t (w_ticks w)" "clock_trusted P policy t (w_ticks w + 2)"
    and new: "effect_at (w_dest w) (d_effect_id s) = None"
    and room: "used (w_dest w) (b_grant_id b) < b_effective_max_effects b"
    and doc: "w_store w = Document rr" and first: "\<forall>a\<in>set (rr_attempts rr). a_effect_id a \<noteq> d_effect_id s"
  shows "\<exists>a e w' rr'. execute P cfg sink p d ad (Some (Aware t)) lose part w =
       (Inr (a, Some (seen_effect e (isoformat_utc P (clock P (w_ticks w + 2))))), w') \<and>
     effect_at (w_dest w') (d_effect_id s) = Some e \<and> readable (w_dest w') \<and>
     used (w_dest w') (b_grant_id b) = used (w_dest w) (b_grant_id b) + 1 \<and>
     (\<forall>i. i \<noteq> d_effect_id s \<longrightarrow> effect_at (w_dest w') i = effect_at (w_dest w) i) \<and>
     ef_grant_id e = b_grant_id b \<and> ef_target e = b_target b \<and> ef_amount e = b_amount b \<and>
     ef_unit e = b_unit b \<and> ef_payload e = p_payload p \<and>
     ef_state e = (if part then EffPartial else EffApplied) \<and>
     a_effect_id a = d_effect_id s \<and> a_decision_id a = d_decision_id s \<and>
     a_status a = (if lose then AttemptUnknown else if part then AttemptPartial else Acknowledged) \<and>
     w_ticks w' = w_ticks w + 4 \<and> w_store w' = Document rr' \<and> rr_decisions rr' = rr_decisions rr \<and>
     (\<exists>start. rr_attempts rr' = rr_attempts rr @ [start, a])"
proof -
  define q where "q = request_of p s c lose part"
  define e where "e = effect_of_request q"
  from exec have c: "resolve P cfg p (Aware t) = Inr ([], Some c)" "binding_eq c b"
    by (simp_all add: execute_ready_def)
  note same = binding_eq_fields [OF c(2)]
  have ids: "rq_effect_id q = d_effect_id s" "rq_grant_id q = b_grant_id b"
    "rq_max_effects q = b_effective_max_effects b"
    by (simp_all add: q_def request_of_def same)
  have "\<forall>i. i \<noteq> rq_effect_id q \<longrightarrow> effect_at (snd (submit q (w_dest w))) i = effect_at (w_dest w) i"
    by (simp add: submit_other)
  with submit_commits [OF dest, of q] new room have committed: "readable (snd (submit q (w_dest w)))"
    "effect_at (snd (submit q (w_dest w))) (d_effect_id s) = Some e"
    "used (snd (submit q (w_dest w))) (b_grant_id b) = used (w_dest w) (b_grant_id b) + 1"
    "\<forall>i. i \<noteq> d_effect_id s \<longrightarrow> effect_at (snd (submit q (w_dest w))) i = effect_at (w_dest w) i"
    by (simp_all add: ids e_def)
  have fields: "ef_grant_id e = b_grant_id b" "ef_target e = b_target b" "ef_amount e = b_amount b"
    "ef_unit e = b_unit b" "ef_payload e = p_payload p"
    "ef_state e = (if part then EffPartial else EffApplied)"
    using resolved_request [OF c(1)]
    by (simp_all add: e_def effect_of_request_def q_def request_of_def same)
  have "used (w_dest w) (b_grant_id c) < b_effective_max_effects c" using room by (simp add: same)
  from perform_completes [OF doc dest policy clk q_def new this first] obtain a o' w' rr' where
    run: "perform P cfg sink p s c (Aware t) lose part w = (Inr (a, Some o'), w')"
    and a: "a_effect_id a = d_effect_id s" "a_decision_id a = d_decision_id s"
      "a_status a = (if lose then AttemptUnknown else if part then AttemptPartial else Acknowledged)"
    and o': "o' = seen_effect e (isoformat_utc P (clock P (w_ticks w + 2)))"
    and w': "w_dest w' = snd (submit q (w_dest w))" "w_ticks w' = w_ticks w + 4" "w_store w' = Document rr'"
      "rr_decisions rr' = rr_decisions rr" "\<exists>start. rr_attempts rr' = rr_attempts rr @ [start, a]"
    unfolding e_def by blast
  show ?thesis
    unfolding execute_ready_run [OF exec] run o'
    by (intro exI [of _ a] exI [of _ e] exI [of _ w'] exI [of _ rr'])
       (use committed fields a w' in simp)
qed

lemma execute_again:
  assumes exec: "execute_ready P cfg p d ad t w s b c"
    and dest: "readable (w_dest w)" and policy: "cf_observation_policy cfg = Some policy"
    and clk: "clock_trusted P policy t (w_ticks w)"
    and there: "effect_at (w_dest w) (d_effect_id s) = Some e" and doc: "w_store w = Document rr"
  shows "\<exists>a w' rr'. execute P cfg sink p d ad (Some (Aware t)) lose part w =
       (Inr (a, Some (seen_effect e (isoformat_utc P (clock P (w_ticks w))))), w') \<and>
     a_effect_id a = d_effect_id s \<and> a_decision_id a = d_decision_id s \<and>
     a_status a = (case ef_state e of EffApplied \<Rightarrow> Acknowledged | EffPartial \<Rightarrow> AttemptPartial) \<and>
     a_acknowledgement a = [(''reconciled_existing'', PBool True)] \<and>
     w_dest w' = w_dest w \<and> w_store w' = Document rr' \<and> rr_attempts rr' = rr_attempts rr @ [a]"
  unfolding execute_ready_run [OF exec] using perform_again [OF doc dest policy clk there] by blast

end

section \<open>The local destination can be observed\<close>

definition dest_ready :: "dest_file \<Rightarrow> bool" where
  "dest_ready f \<longleftrightarrow> f \<noteq> DestUnreadable \<and> dest_inv f"

interpretation watched: observable_sink local_apply effect_in used_in dest_ready "local_observe P" P for P
proof unfold_locales
  fix d and q :: apply_request
  assume "dest_ready d" "effect_in d (rq_effect_id q) = None" "used_in d (rq_grant_id q) < rq_max_effects q"
  then show "fst (local_apply q d) = commit_answer q \<and> dest_ready (snd (local_apply q d)) \<and>
      effect_in (snd (local_apply q d)) (rq_effect_id q) = Some (effect_of_request q) \<and>
      used_in (snd (local_apply q d)) (rq_grant_id q) = used_in d (rq_grant_id q) + 1"
    using dest_inv_apply [of d q]
    by (cases rule: local_apply_cases [of d q]) (auto simp: dest_ready_def commit_answer_def grant_used_def)
next
  fix d i e n
  assume "dest_ready d" "effect_in d i = Some e"
  then show "ef_effect_id e = i \<and> local_observe P n i d = Inr (seen_effect e (isoformat_utc P n))"
    by (cases d) (auto simp: dest_ready_def dest_inv_def local_observe_def seen_effect_def)
next
  fix d i n
  assume "dest_ready d" "effect_in d i = None"
  then show "local_observe P n i d = Inr (seen_absent i (isoformat_utc P n))"
    by (cases d) (auto simp: dest_ready_def local_observe_def seen_absent_def)
qed

section \<open>Properties\<close>

lemma decided_ready:
  assumes "decide P cfg p now w = (Inr d, w')" "d_result d = Authorized" "d_binding d = Some b"
    and "list_all (\<lambda>v. wf_pyval (PDict v)) (b_policy_versions b)"
    and "w_store w = Document rr" "\<forall>x\<in>set (rr_decisions rr). d_decision_id x \<noteq> d_decision_id d"
    and "resolve P cfg' p (Aware t) = Inr ([], Some c)" "binding_eq c b"
    and "w_store v = Document rv" "rr_decisions rv = rr_decisions rr @ [d]"
  shows "execute_ready P cfg' p d (b_adapter_id b) t v d b c"
proof -
  have "filter (\<lambda>x. d_decision_id x = d_decision_id d) (rr_decisions rv) = [d]"
    using assms(6,10) by (simp add: filter_empty_conv)
  then have "store_decision (d_decision_id d) (w_store v) = Inr (Some d)"
    using assms(9) by (simp add: store_decision_def store_load_def)
  moreover have "d_effect_id d = effect_id P b"
    using assms(1,3) by (auto simp: decide_def act_iff Let_def split: if_splits option.splits)
  moreover have "decision_eq d d"
    using assms(3,4) by (simp add: decision_eq_def binding_eq_refl)
  ultimately show ?thesis using assms(2,3,7,8) by (simp add: execute_ready_def check_persisted_def)
qed

lemma decide_stored:
  assumes "decide P cfg p now w = (Inr d, w')" "w_store w = Document rr"
  shows "w_store w' = Document (add_entry (EDecision d) rr)" "w_dest w' = w_dest w"
  using assms by (cases now; auto simp: decide_def given_or_now_def act_iff Let_def)+

text \<open>
  C5. An authorized decision takes effect, once. Take a readable record file; a decision just made and
  authorized, under an id no decision on record has, with policy versions that are proper JSON; no attempt on record for its effect; a
  proposal that still resolves to an equal binding; an observation policy, and a clock whose readings pass
  it at the time of the call and at the second observation; a local destination without the effect, and the
  grant below its cap. When nothing interrupts it, \<open>execute\<close> then returns: the destination holds the effect of the binding, one more for its
  grant and otherwise what it held, the attempt ends unknown, partial or acknowledged as the
  destination answered, and the effect itself is reported, also when the acknowledgement was lost.
  Executing once more from the state it leaves, when the proposal resolves to an equal binding again and
  the clock passes the policy at that time, reports the same effect and leaves the destination alone.
\<close>

theorem authorized_decision_takes_effect:
  assumes "decide P cfg p now w = (Inr d, w1)" "d_result d = Authorized" "d_binding d = Some b"
    and "list_all (\<lambda>v. wf_pyval (PDict v)) (b_policy_versions b)"
    and "w_store w = Document rr" "\<forall>x\<in>set (rr_decisions rr). d_decision_id x \<noteq> d_decision_id d"
    and "\<forall>a\<in>set (rr_attempts rr). a_effect_id a \<noteq> d_effect_id d"
    and "resolve P cfg p (Aware t) = Inr ([], Some c)" "binding_eq c b"
    and "cf_observation_policy cfg = Some policy"
    and "clock_trusted P policy t (w_ticks w1)" "clock_trusted P policy t (w_ticks w1 + 2)"
    and "dest_ready (w_dest w)" "effect_in (w_dest w) (d_effect_id d) = None"
    and "used_in (w_dest w) (b_grant_id b) < b_effective_max_effects b"
  shows "\<exists>a e w2. execute P cfg (local_destination P) p d (b_adapter_id b) (Some (Aware t)) lose part w1 =
       (Inr (a, Some (seen_effect e (isoformat_utc P (clock P (w_ticks w1 + 2))))), w2) \<and>
     effect_in (w_dest w2) (d_effect_id d) = Some e \<and>
     used_in (w_dest w2) (b_grant_id b) = used_in (w_dest w) (b_grant_id b) + 1 \<and>
     (\<forall>i. i \<noteq> d_effect_id d \<longrightarrow> effect_in (w_dest w2) i = effect_in (w_dest w) i) \<and>
     ef_grant_id e = b_grant_id b \<and> ef_target e = b_target b \<and> ef_amount e = b_amount b \<and>
     ef_unit e = b_unit b \<and> ef_payload e = p_payload p \<and>
     ef_state e = (if part then EffPartial else EffApplied) \<and> a_effect_id a = d_effect_id d \<and>
     a_status a = (if lose then AttemptUnknown else if part then AttemptPartial else Acknowledged) \<and>
     (\<forall>t' c' lose' part'. resolve P cfg p (Aware t') = Inr ([], Some c') \<and> binding_eq c' b \<and>
        clock_trusted P policy t' (w_ticks w2) \<longrightarrow>
        (\<exists>a' w3. execute P cfg (local_destination P) p d (b_adapter_id b) (Some (Aware t')) lose' part' w2 =
           (Inr (a', Some (seen_effect e (isoformat_utc P (clock P (w_ticks w2))))), w3) \<and>
         w_dest w3 = w_dest w2 \<and> a_effect_id a' = d_effect_id d \<and>
         a_status a' = (if part then AttemptPartial else Acknowledged) \<and>
         a_acknowledgement a' = [(''reconciled_existing'', PBool True)]))"
proof -
  note made = decided_ready [OF assms(1-6)] and stored = decide_stored [OF assms(1,5)]
  have D: "local_destination P = \<lparr>dst_submit = local_apply, dst_observe = local_observe P\<rparr>"
    by (simp add: local_destination_def)
  have ready: "execute_ready P cfg p d (b_adapter_id b) t w1 d b c"
    by (rule made [OF assms(8,9) stored(1)]) simp
  have start: "dest_ready (w_dest w1)" "effect_in (w_dest w1) (d_effect_id d) = None"
    "used_in (w_dest w1) (b_grant_id b) < b_effective_max_effects b"
    "\<forall>a\<in>set (rr_attempts (add_entry (EDecision d) rr)). a_effect_id a \<noteq> d_effect_id d"
    using assms(7,13-15) stored(2) by simp_all
  from watched.execute_completes [OF ready start(1) assms(10-12) start(2,3) stored(1) start(4), of lose part]
  obtain a e w2 rr2 where run: "execute P cfg (local_destination P) p d (b_adapter_id b) (Some (Aware t)) lose part w1 =
       (Inr (a, Some (seen_effect e (isoformat_utc P (clock P (w_ticks w1 + 2))))), w2)"
    and dest: "effect_in (w_dest w2) (d_effect_id d) = Some e" "dest_ready (w_dest w2)"
      "used_in (w_dest w2) (b_grant_id b) = used_in (w_dest w) (b_grant_id b) + 1"
      "\<forall>i. i \<noteq> d_effect_id d \<longrightarrow> effect_in (w_dest w2) i = effect_in (w_dest w) i"
    and e: "ef_grant_id e = b_grant_id b" "ef_target e = b_target b" "ef_amount e = b_amount b"
      "ef_unit e = b_unit b" "ef_payload e = p_payload p" "ef_state e = (if part then EffPartial else EffApplied)"
    and a: "a_effect_id a = d_effect_id d"
      "a_status a = (if lose then AttemptUnknown else if part then AttemptPartial else Acknowledged)"
    and store: "w_store w2 = Document rr2" "rr_decisions rr2 = rr_decisions (add_entry (EDecision d) rr)"
    unfolding D stored(2) by blast
  have decisions: "rr_decisions rr2 = rr_decisions rr @ [d]" using store(2) by simp
  have again: "\<exists>a' w3. execute P cfg (local_destination P) p d (b_adapter_id b) (Some (Aware t')) lose' part' w2 =
         (Inr (a', Some (seen_effect e (isoformat_utc P (clock P (w_ticks w2))))), w3) \<and>
       w_dest w3 = w_dest w2 \<and> a_effect_id a' = d_effect_id d \<and>
       a_status a' = (if part then AttemptPartial else Acknowledged) \<and>
       a_acknowledgement a' = [(''reconciled_existing'', PBool True)]"
    if "resolve P cfg p (Aware t') = Inr ([], Some c')" "binding_eq c' b" "clock_trusted P policy t' (w_ticks w2)"
    for t' c' lose' part'
    using watched.execute_again [OF made [OF that(1,2) store(1) decisions] dest(2) assms(10) that(3) dest(1) store(1), of lose' part'] e(6)
    unfolding D by (cases part) auto
  show ?thesis using run dest e a again by blast
qed

lemma demo_clock_trusted:
  "clock_trusted demo_prims \<lparr>op_max_age_seconds = 30, op_clock_tolerance_seconds = 5\<rparr> 100000000 n"
  by (simp add: clock_trusted_def demo_iso demo_not_blank in_window_def seconds_def replace_Z_def)
    (simp add: demo_prims_def demo_time_def Let_def)

lemma authorized_decision_takes_effect_witness:
  "\<exists>a e w2. execute demo_prims (demo_config GrantActive) (local_destination demo_prims) demo_proposal
       demo_decision ''adapter'' (Some (Aware 100000000)) True False demo_decided =
     (Inr (a, Some (seen_effect e (isoformat_utc demo_prims 100000000))), w2) \<and>
     effect_in (w_dest w2) (d_effect_id demo_decision) = Some e \<and> a_status a = AttemptUnknown"
proof -
  have grant: "b_policy_versions demo_binding = [[(''ref'', PStr ''pol''), (''version'', PStr ''v1'')]]"
    "b_adapter_id demo_binding = ''adapter''" "b_grant_id demo_binding = ''g''" "b_effective_max_effects demo_binding = 1"
    by (simp_all add: demo_binding_def)
  have start: "w_store demo_world = Document (empty_run_record ''run'')" "w_dest demo_world = empty_destination"
    by (simp_all add: demo_world_def)
  have policy: "cf_observation_policy (demo_config GrantActive) =
      Some \<lparr>op_max_age_seconds = 30, op_clock_tolerance_seconds = 5\<rparr>"
    by (simp add: demo_config_def)
  show ?thesis
    using authorized_decision_takes_effect [OF demo_decide _ _ _ start(1) _ _ _ demo_binding_eq policy
        demo_clock_trusted demo_clock_trusted, of True False]
    by (auto simp: grant start demo_resolves demo_decision_def empty_run_record_def dest_ready_def
        dest_inv_empty) (auto simp: empty_destination_def grant_used_def)
qed

end
