(* ===== verification/Paths.thy ===== *)
theory Paths
  imports PyValue
begin

text \<open>
  What the program uses of \<open>pathlib\<close>: a path is what the library makes of a text, its root and its
  parts. Shared by the files of exported documents and by the check of the mounts under the record
  store.
\<close>

type_synonym path = "string \<times> string list"

fun cut :: "char \<Rightarrow> string \<Rightarrow> string list" where
  "cut c [] = [[]]"
| "cut c (x # xs) = (if x = c then [] # cut c xs else (case cut c xs of
      [] \<Rightarrow> [[x]]
    | p # ps \<Rightarrow> (x # p) # ps))"

definition root_of :: "string \<Rightarrow> string" where
  "root_of s = (if starts_with ''//'' s \<and> \<not> starts_with ''///'' s then ''//''
     else if starts_with ''/'' s then ''/'' else '''')"

text \<open>\<open>Path(s)\<close>: empty parts and single dots are dropped.\<close>

definition path_of :: "string \<Rightarrow> path" where
  "path_of s = (root_of s, filter (\<lambda>p. p \<noteq> '''' \<and> p \<noteq> ''.'') (cut (CHR ''/'') s))"

text \<open>\<open>p / s\<close>: an absolute right operand replaces the left one.\<close>

definition join :: "path \<Rightarrow> string \<Rightarrow> path" where
  "join p s = (let q = path_of s in if fst q \<noteq> '''' then q else (fst p, snd p @ snd q))"

fun slashed :: "string list \<Rightarrow> string" where
  "slashed [] = []"
| "slashed [p] = p"
| "slashed (p # q # ps) = p @ CHR ''/'' # slashed (q # ps)"

definition path_text :: "path \<Rightarrow> string" where
  "path_text p = (if fst p = '''' \<and> snd p = [] then ''.'' else fst p @ slashed (snd p))"

text \<open>\<open>p.parent\<close>, \<open>p.parents\<close>, and the number of \<open>p.parts\<close>, of which the root is one.\<close>

definition parent :: "path \<Rightarrow> path" where
  "parent p = (fst p, butlast (snd p))"

definition parents :: "path \<Rightarrow> path list" where
  "parents p = map (\<lambda>n. (fst p, take n (snd p))) [0 ..< length (snd p)]"

definition depth :: "path \<Rightarrow> nat" where
  "depth p = (if fst p = '''' then 0 else 1) + length (snd p)"

section \<open>Names\<close>

text \<open>A text without a slash is one part, or none.\<close>

definition plain :: "string \<Rightarrow> bool" where
  "plain s \<longleftrightarrow> CHR ''/'' \<notin> set s"

lemma cut_plain: "c \<notin> set s \<Longrightarrow> cut c s = [s]"
  by (induction s) auto

lemma root_plain: "plain s \<Longrightarrow> root_of s = ''''"
  by (cases s) (auto simp: plain_def root_of_def)


text \<open>A directory is at or above another when its parts begin the parts of the other.\<close>

lemma at_or_above: "q = p \<or> q \<in> set (parents p) \<longleftrightarrow> fst q = fst p \<and> (\<exists>n\<le>length (snd p). snd q = take n (snd p))"
proof
  assume "q = p \<or> q \<in> set (parents p)"
  then show "fst q = fst p \<and> (\<exists>n\<le>length (snd p). snd q = take n (snd p))"
    by (auto simp: parents_def) (metis less_imp_le_nat)
next
  assume "fst q = fst p \<and> (\<exists>n\<le>length (snd p). snd q = take n (snd p))"
  then obtain n where "q = (fst p, take n (snd p))" "n \<le> length (snd p)" by (metis prod.collapse)
  then show "q = p \<or> q \<in> set (parents p)" by (cases "n = length (snd p)") (auto simp: parents_def)
qed

lemma above_same_depth:
  assumes "q = p \<or> q \<in> set (parents p)" "r = p \<or> r \<in> set (parents p)" "depth q = depth r"
  shows "q = r"
  using assms unfolding at_or_above depth_def by (auto simp: prod_eq_iff)

end
