(* ===== verification/Mounts.thy ===== *)
theory Mounts
  imports Paths RecordStore
begin

text \<open>
  The file system under the record store: \<open>BoundedRecordStore._require_local_locking\<close> of
  \<open>bounded.py\<close>, which reads the mount table of the process (\<open>/proc/self/mountinfo\<close>) and refuses a
  store whose directory is not on a local file system it knows. The table's text and the resolved
  path of the record are arguments, and so is whether the platform is Linux with \<open>flock\<close>.
\<close>

section \<open>Text\<close>

text \<open>\<open>s.split(sep, 1)\<close> with both pieces, or none.\<close>

fun split_once :: "string \<Rightarrow> string \<Rightarrow> (string \<times> string) option" where
  "split_once sep [] = None"
| "split_once sep (c # cs) =
     (if starts_with sep (c # cs) then Some ([], drop (length sep) (c # cs))
      else map_option (\<lambda>(a, b). (c # a, b)) (split_once sep cs))"

text \<open>
  Cutting a text at the first of some marks that begins it: \<open>s.split()\<close> drops empty pieces,
  \<open>s.splitlines()\<close> keeps them, except an empty last one.
\<close>

definition mark :: "string list \<Rightarrow> string \<Rightarrow> string option" where
  "mark ms s = List.find (\<lambda>m. m \<noteq> [] \<and> starts_with m s) ms"

function pieces :: "string list \<Rightarrow> string \<Rightarrow> string \<Rightarrow> string list" where
  "pieces ms piece [] = (if piece = [] then [] else [piece])"
| "pieces ms piece (c # cs) = (case mark ms (c # cs) of
      Some m \<Rightarrow> piece # pieces ms [] (drop (length m) (c # cs))
    | None \<Rightarrow> pieces ms (piece @ [c]) cs)"
  by pat_completeness auto
termination
proof (relation "measure (\<lambda>(ms, piece, s). length s)")
  fix ms piece c cs m
  assume "mark ms (c # cs) = Some m"
  then have "m \<noteq> []" by (auto simp: mark_def find_Some_iff)
  then show "((ms, [], drop (length m) (c # cs)), ms, piece, c # cs) \<in> measure (\<lambda>(ms, piece, s). length s)"
    by (cases m) auto
qed simp_all

definition line_ends :: "string list" where
  "line_ends = map (map char_of) ([[13, 10 :: nat]] @ map (\<lambda>n. [n]) [10, 11, 12, 13, 28, 29, 30] @
     [[194, 133], [226, 128, 168], [226, 128, 169]])"

definition splitlines :: "string \<Rightarrow> string list" where
  "splitlines s = pieces line_ends [] s"

definition split_words :: "string \<Rightarrow> string list" where
  "split_words s = filter (\<lambda>w. w \<noteq> []) (pieces (map (map char_of) ws_bytes) [] s)"

text \<open>\<open>s.replace(code, c)\<close> for a code that is not empty.\<close>

function replace_code :: "string \<Rightarrow> char \<Rightarrow> string \<Rightarrow> string" where
  "replace_code code c [] = []"
| "replace_code code c (x # xs) =
     (if code \<noteq> [] \<and> starts_with code (x # xs) then c # replace_code code c (drop (length code) (x # xs))
      else x # replace_code code c xs)"
  by pat_completeness auto
termination
  by (relation "measure (\<lambda>(code, c, s). length s)") (auto simp: neq_Nil_conv)

text \<open>The escapes of the table: space, tab, newline and, last, the backslash.\<close>

definition unescape_mount :: "string \<Rightarrow> string" where
  "unescape_mount s = fold (\<lambda>(code, c). replace_code (CHR 0x5C # code) c)
     [(''040'', CHR '' ''), (''011'', CHR 0x09), (''012'', CHR 0x0A), (''134'', CHR 0x5C)] s"

section \<open>The check\<close>

definition supported :: "string list" where
  "supported = [''ext2'', ''ext3'', ''ext4'', ''xfs'', ''btrfs'', ''tmpfs'', ''overlay'']"

text \<open>What a line contributes: the depth and the type of a mount at or above the directory.\<close>

definition mount_entry :: "path \<Rightarrow> string \<Rightarrow> (nat \<times> string) list res" where
  "mount_entry p line = (case split_once '' - '' line of
      None \<Rightarrow> throw ValueError
    | Some (left, right) \<Rightarrow>
        (let ws = split_words left in
         if length ws < 5 then throw (OtherError ''IndexError'')
         else (let m = path_of (unescape_mount (ws ! 4)) in
           if parent p = m \<or> m \<in> set (parents (parent p))
           then (case split_words right of
               [] \<Rightarrow> throw (OtherError ''IndexError'')
             | t # _ \<Rightarrow> Inr [(depth m, t)])
           else Inr [])))"

definition mounts_over :: "path \<Rightarrow> string \<Rightarrow> (nat \<times> string) list res" where
  "mounts_over p table = collectE (mount_entry p) (splitlines table)"

text \<open>\<open>max(mounts, key=lambda item: item[0])\<close>: the first of the deepest.\<close>

fun deepest :: "(nat \<times> string) list \<Rightarrow> (nat \<times> string) option" where
  "deepest [] = None"
| "deepest (m # ms) = Some (foldl (\<lambda>best x. if fst best < fst x then x else best) m ms)"

definition require_local_locking :: "bool \<Rightarrow> path \<Rightarrow> string \<Rightarrow> unit res" where
  "require_local_locking linux p table =
     (if \<not> linux then throw_msg RuntimeError ''BoundedRecordStore requires Linux local filesystem flock support''
      else bindE (mounts_over p table) (\<lambda>ms.
        case deepest ms of
          Some (_, t) \<Rightarrow> if t \<in> set supported then Inr ()
            else throw_msg RuntimeError ''BoundedRecordStore filesystem is not supported for local locking''
        | None \<Rightarrow> throw_msg RuntimeError ''BoundedRecordStore filesystem is not supported for local locking''))"

text \<open>The constructor: the check comes before the file is looked at.\<close>

definition open_store :: "bool \<Rightarrow> path \<Rightarrow> string \<Rightarrow> string \<Rightarrow> store_file \<Rightarrow> store_file res" where
  "open_store linux p table run_id f = bindE (require_local_locking linux p table) (\<lambda>_. store_init run_id f)"

section \<open>What is accepted\<close>

lemma foldl_deepest:
  "\<exists>a b. m # ms = a @ foldl (\<lambda>best x. if fst best < fst x then x else best) m ms # b \<and>
     (\<forall>x\<in>set a. fst x < fst (foldl (\<lambda>best x. if fst best < fst x then x else best) m ms)) \<and>
     (\<forall>x\<in>set b. fst x \<le> fst (foldl (\<lambda>best x. if fst best < fst (x :: nat \<times> string) then x else best) m ms))"
proof (induction ms rule: rev_induct)
  case (snoc y ms)
  let ?f = "foldl (\<lambda>best x. if fst best < fst (x :: nat \<times> string) then x else best) m ms"
  from snoc obtain a b where ab: "m # ms = a @ ?f # b" "\<forall>x\<in>set a. fst x < fst ?f" "\<forall>x\<in>set b. fst x \<le> fst ?f"
    by blast
  show ?case
  proof (cases "fst ?f < fst y")
    case True
    have "\<forall>x\<in>set (m # ms). fst x < fst y" unfolding ab(1) using ab(2,3) True by auto
    then show ?thesis using True by (intro exI [of _ "m # ms"] exI [of _ "[]"]) auto
  next
    case False
    then show ?thesis using ab by (intro exI [of _ a] exI [of _ "b @ [y]"]) auto
  qed
qed (intro exI [of _ "[]"], simp)

lemma deepest_iff:
  "deepest ms = Some (d, t) \<longleftrightarrow>
     (\<exists>a b. ms = a @ (d, t) # b \<and> (\<forall>x\<in>set a. fst x < d) \<and> (\<forall>x\<in>set b. fst x \<le> d))"
proof
  assume best: "deepest ms = Some (d, t)"
  then obtain m ms' where ms: "ms = m # ms'" by (cases ms) auto
  with best show "\<exists>a b. ms = a @ (d, t) # b \<and> (\<forall>x\<in>set a. fst x < d) \<and> (\<forall>x\<in>set b. fst x \<le> d)"
    using foldl_deepest [of m ms'] by simp
next
  assume "\<exists>a b. ms = a @ (d, t) # b \<and> (\<forall>x\<in>set a. fst x < d) \<and> (\<forall>x\<in>set b. fst x \<le> d)"
  then obtain a b where ms: "ms = a @ (d, t) # b" and ab: "\<forall>x\<in>set a. fst x < d" "\<forall>x\<in>set b. fst x \<le> d" by blast
  have stay: "foldl (\<lambda>best x. if fst best < fst x then x else best) (d, t) b = (d, t)"
    using ab(2) by (induction b) auto
  have go: "foldl (\<lambda>best x. if fst best < fst x then x else best) m (as @ (d, t) # b) = (d, t)"
    if "fst m < d" "\<forall>x\<in>set as. fst x < d" for m as
    using that by (induction as arbitrary: m) (auto simp: stay)
  show "deepest ms = Some (d, t)"
    using ab(1) by (cases a) (auto simp: ms stay go simp del: foldl_append)
qed

text \<open>
  C23. A store is opened exactly on Linux when the mount table is well formed and the first listed of
  the deepest mounts at or above the record's directory has a known local type, and then as if there
  were no check. Without a mount over the directory, with a deeper mount of another type, or on
  another platform it is refused before the file is looked at. A later mount on the same point,
  which hides the first, does not count.
\<close>

theorem store_opens_on_first_deepest_mount:
  "open_store linux p table run_id f = Inr f' \<longleftrightarrow>
     linux \<and> store_init run_id f = Inr f' \<and>
     (\<exists>a d t b. mounts_over p table = Inr (a @ (d, t) # b) \<and> t \<in> set supported \<and>
        (\<forall>x\<in>set a. fst x < d) \<and> (\<forall>x\<in>set b. fst x \<le> d))"
proof -
  have "require_local_locking linux p table = Inr u \<longleftrightarrow>
      linux \<and> (\<exists>ms d t. mounts_over p table = Inr ms \<and> deepest ms = Some (d, t) \<and> t \<in> set supported)" for u
  proof (cases "mounts_over p table")
    case (Inr ms)
    then show ?thesis by (cases "deepest ms") (auto simp: require_local_locking_def split: if_splits)
  qed (simp add: require_local_locking_def)
  then have "open_store linux p table run_id f = Inr f' \<longleftrightarrow> linux \<and> store_init run_id f = Inr f' \<and>
      (\<exists>ms d t. mounts_over p table = Inr ms \<and> deepest ms = Some (d, t) \<and> t \<in> set supported)"
    by (auto simp: open_store_def bindE_Inr_iff)
  then show ?thesis unfolding deepest_iff by blast
qed

section \<open>Witness\<close>

definition shadowed :: string where
  "shadowed = ''1 0 8:1 / / rw - ext4 sda rw'' @ CHR 0x0A # ''2 1 8:2 / /data rw - xfs sdb rw'' @ CHR 0x0A #
     ''3 2 0:9 / /data rw - nfs4 srv:/d rw'' @ [CHR 0x0A]"

lemma pieces_inside:
  "(\<forall>m\<in>set ms. m = [] \<or> hd m \<noteq> c) \<Longrightarrow> pieces ms piece (c # cs) = pieces ms (piece @ [c]) cs"
proof -
  assume ms: "\<forall>m\<in>set ms. m = [] \<or> hd m \<noteq> c"
  have "\<not> (m \<noteq> [] \<and> starts_with m (c # cs))" if "m \<in> set ms" for m
    using ms that by (cases m) auto
  then have "mark ms (c # cs) = None" by (simp add: mark_def find_None_iff)
  then show ?thesis by simp
qed

lemma pieces_mark:
  assumes "[c] \<in> set ms" "\<forall>m\<in>set ms. m \<noteq> [] \<and> hd m = c \<longrightarrow> m = [c]"
  shows "pieces ms piece (c # cs) = piece # pieces ms [] cs"
proof -
  have "mark ms (c # cs) \<noteq> None" using assms(1) by (auto simp: mark_def find_None_iff)
  then obtain m where m: "mark ms (c # cs) = Some m" by blast
  then have "m \<in> set ms" "m \<noteq> []" "starts_with m (c # cs)" by (auto simp: mark_def find_Some_iff)
  with assms(2) have "m = [c]" by (cases m) auto
  with m show ?thesis by simp
qed

lemma char_of_eq: "n < 256 \<Longrightarrow> char_of (n :: nat) = c \<longleftrightarrow> n = of_char c"
    "n < 256 \<Longrightarrow> c = char_of (n :: nat) \<longleftrightarrow> n = of_char c"
  by (metis char_of_char mod_less of_char_of)+

lemma line_char: "32 \<le> (of_char c :: nat) \<Longrightarrow> (of_char c :: nat) \<le> 126 \<Longrightarrow>
    pieces line_ends piece (c # cs) = pieces line_ends (piece @ [c]) cs"
  by (rule pieces_inside) (auto simp: line_ends_def)

lemma line_end: "pieces line_ends piece (CHR 0x0A # cs) = piece # pieces line_ends [] cs"
  by (rule pieces_mark) (auto simp: line_ends_def char_of_eq)

lemma word_char: "33 \<le> (of_char c :: nat) \<Longrightarrow> (of_char c :: nat) \<le> 126 \<Longrightarrow>
    pieces (map (map char_of) ws_bytes) piece (c # cs) = pieces (map (map char_of) ws_bytes) (piece @ [c]) cs"
  by (rule pieces_inside) (auto simp: ws_bytes_def)

lemma word_end: "pieces (map (map char_of) ws_bytes) piece (CHR '' '' # cs) =
    piece # pieces (map (map char_of) ws_bytes) [] cs"
  by (rule pieces_mark) (auto simp: ws_bytes_def char_of_eq)

lemma pieces_end: "pieces ms piece [] = (if piece = [] then [] else [piece])"
  by simp

lemmas table_simps = line_char line_end word_char word_end pieces_end

lemma shadowed_lines: "splitlines shadowed = [''1 0 8:1 / / rw - ext4 sda rw'', ''2 1 8:2 / /data rw - xfs sdb rw'',
    ''3 2 0:9 / /data rw - nfs4 srv:/d rw'']"
  by (simp add: splitlines_def shadowed_def table_simps del: pieces.simps(2))

lemma shadowed_mounts: "mounts_over (path_of ''/data/run.json'') shadowed = Inr [(1, ''ext4''), (2, ''xfs''), (2, ''nfs4'')]"
  by (simp add: mounts_over_def shadowed_lines mount_entry_def split_words_def table_simps unescape_mount_def path_of_def
      root_of_def parent_def parents_def depth_def del: pieces.simps(2))

lemma store_opens_on_first_deepest_mount_witness:
  "open_store True (path_of ''/data/run.json'') shadowed ''r'' NoFile = Inr (Document (empty_run_record ''r''))"
proof -
  have "mounts_over (path_of ''/data/run.json'') shadowed = Inr ([(1, ''ext4'')] @ (2, ''xfs'') # [(2, ''nfs4'')])"
    using shadowed_mounts by simp
  then show ?thesis
    unfolding store_opens_on_first_deepest_mount
    by (intro conjI exI) (assumption | simp add: store_init_def supported_def)+
qed

end
