(* ===== verification/LocalClaim.thy ===== *)
theory LocalClaim
  imports Workflow
begin

text \<open>
  The local execution claim of \<open>local_authority_effect.py\<close>: its records, the checks on the
  authority snapshot at issuance, the construction of a claim under the resolver's handoff, and
  its verification. An authority snapshot is a record with the fields the code reads, so the
  branches for a snapshot of another shape do not arise; a resolver without handoff, or without a
  snapshot for the reference, does. Projections and claims of the tenant-aware subclasses carry
  their tenant in an optional field, as in the other records of the model.
\<close>

definition LOCAL_AUTHORITY_EFFECT_PROFILE :: string where
  "LOCAL_AUTHORITY_EFFECT_PROFILE = ''urn:cognous:profiles:local-authority-effect:0.1.0-proposed''"

section \<open>Projections and claims\<close>

record approval_projection =
  ap_approval_ref :: string
  ap_role_id :: string
  ap_approver :: string
  ap_status :: approval_state
  ap_grant_id :: string
  ap_grant_revision :: string
  ap_proposal_commitment :: string
  ap_policy_versions :: "pydict list"
  ap_observed_at :: string
  ap_tenant_id :: "string option"

record policy_projection =
  pp_ref :: string
  pp_version :: string
  pp_status :: policy_state
  pp_observed_at :: string
  pp_tenant_id :: "string option"

record evidence_projection =
  ep_obligation_id :: string
  ep_source_ref :: string
  ep_required :: bool
  ep_kind :: string
  ep_max_age_seconds :: int
  ep_unknown_behavior :: string
  ep_state :: evidence_state
  ep_observed_at :: string

definition tenant_field :: "string option \<Rightarrow> pydict" where
  "tenant_field t = (case t of None \<Rightarrow> [] | Some s \<Rightarrow> [(''tenant_id'', PStr s)])"

definition dump_approval :: "approval_projection \<Rightarrow> pyval" where
  "dump_approval a = PDict ([
     (''approval_ref'', PStr (ap_approval_ref a)), (''role_id'', PStr (ap_role_id a)),
     (''approver'', PStr (ap_approver a)), (''status'', PStr (approval_state_str (ap_status a))),
     (''grant_id'', PStr (ap_grant_id a)), (''grant_revision'', PStr (ap_grant_revision a)),
     (''proposal_commitment'', PStr (ap_proposal_commitment a)),
     (''policy_versions'', PList (map PDict (ap_policy_versions a))),
     (''observed_at'', PStr (ap_observed_at a))] @ tenant_field (ap_tenant_id a))"

definition dump_policy :: "policy_projection \<Rightarrow> pyval" where
  "dump_policy p = PDict ([
     (''ref'', PStr (pp_ref p)), (''version'', PStr (pp_version p)),
     (''status'', PStr (policy_state_str (pp_status p))), (''observed_at'', PStr (pp_observed_at p))]
     @ tenant_field (pp_tenant_id p))"

definition dump_evidence :: "evidence_projection \<Rightarrow> pyval" where
  "dump_evidence e = PDict [
     (''obligation_id'', PStr (ep_obligation_id e)), (''source_ref'', PStr (ep_source_ref e)),
     (''required'', PBool (ep_required e)), (''kind'', PStr (ep_kind e)),
     (''max_age_seconds'', PInt (ep_max_age_seconds e)), (''unknown_behavior'', PStr (ep_unknown_behavior e)),
     (''state'', PStr (evidence_state_str (ep_state e))), (''observed_at'', PStr (ep_observed_at e))]"

record local_claim =
  lc_claim_id :: string
  lc_decision_id :: string
  lc_effect_id :: string
  lc_institution_id :: string
  lc_authority_domain :: string
  lc_actor :: string
  lc_principal :: string
  lc_grant_id :: string
  lc_grant_revision :: string
  lc_grant_status :: grant_state
  lc_manifest_id :: string
  lc_manifest_version :: string
  lc_manifest_digest :: string
  lc_action_id :: string
  lc_adapter_id :: string
  lc_target :: string
  lc_payload_commitment :: string
  lc_requested_permissions :: "string list"
  lc_amount :: rat
  lc_unit :: string
  lc_effects :: int
  lc_authority_context_id :: string
  lc_requirement_id :: string
  lc_requirement_commitment :: string
  lc_operation_commitment :: string
  lc_approval_state :: "approval_projection list"
  lc_approval_state_commitment :: string
  lc_policy_state :: "policy_projection list"
  lc_policy_state_commitment :: string
  lc_evidence_state :: "evidence_projection list"
  lc_evidence_state_commitment :: string
  lc_authority_state_commitment :: string
  lc_budget_id :: string
  lc_max_effects :: int
  lc_not_before :: string
  lc_expires_at :: string
  lc_issued_at :: string
  lc_decision_input_commitment :: "string option"
  lc_decision_input_profile_version :: "string option"
  lc_tenant_id :: "string option"
  lc_claim_commitment :: string

text \<open>
  The claim as a document, without and with its own commitment: what issuance commits to, and
  \<open>model_dump(mode="json")\<close>. Every claim carries the fixed profile, source and possession fields.
\<close>

abbreviation plist :: "('a \<Rightarrow> pyval) \<Rightarrow> 'a list \<Rightarrow> pyval" where
  "plist f xs \<equiv> PList (map f xs)"

definition claim_fields :: "local_claim \<Rightarrow> pydict" where
  "claim_fields c = [
     (''profile'', PStr LOCAL_AUTHORITY_EFFECT_PROFILE), (''claim_id'', PStr (lc_claim_id c)),
     (''decision_id'', PStr (lc_decision_id c)), (''effect_id'', PStr (lc_effect_id c)),
     (''institution_id'', PStr (lc_institution_id c)), (''authority_domain'', PStr (lc_authority_domain c)),
     (''actor'', PStr (lc_actor c)), (''principal'', PStr (lc_principal c)),
     (''grant_id'', PStr (lc_grant_id c)), (''grant_revision'', PStr (lc_grant_revision c)),
     (''grant_status'', PStr (grant_state_str (lc_grant_status c))),
     (''manifest_id'', PStr (lc_manifest_id c)), (''manifest_version'', PStr (lc_manifest_version c)),
     (''manifest_digest'', PStr (lc_manifest_digest c)), (''action_id'', PStr (lc_action_id c)),
     (''adapter_id'', PStr (lc_adapter_id c)), (''target'', PStr (lc_target c)),
     (''payload_commitment'', PStr (lc_payload_commitment c)),
     (''requested_permissions'', str_list (lc_requested_permissions c)),
     (''amount'', PFloat (lc_amount c)), (''unit'', PStr (lc_unit c)), (''effects'', PInt (lc_effects c)),
     (''authority_context_id'', PStr (lc_authority_context_id c)),
     (''requirement_id'', PStr (lc_requirement_id c)),
     (''requirement_commitment'', PStr (lc_requirement_commitment c)),
     (''operation_commitment'', PStr (lc_operation_commitment c)),
     (''approval_state'', plist dump_approval (lc_approval_state c)),
     (''approval_state_commitment'', PStr (lc_approval_state_commitment c)),
     (''policy_state'', plist dump_policy (lc_policy_state c)),
     (''policy_state_commitment'', PStr (lc_policy_state_commitment c)),
     (''evidence_state'', plist dump_evidence (lc_evidence_state c)),
     (''evidence_state_commitment'', PStr (lc_evidence_state_commitment c)),
     (''authority_state_commitment'', PStr (lc_authority_state_commitment c)),
     (''budget_id'', PStr (lc_budget_id c)), (''max_effects'', PInt (lc_max_effects c)),
     (''not_before'', PStr (lc_not_before c)), (''expires_at'', PStr (lc_expires_at c)),
     (''issued_at'', PStr (lc_issued_at c)),
     (''decision_input_commitment'', opt_str (lc_decision_input_commitment c)),
     (''decision_input_profile_version'', opt_str (lc_decision_input_profile_version c)),
     (''source'', PStr ''trusted_control_plane_workflow''), (''authorizing_by_possession'', PBool False)]"

definition tenant_claim_fields :: "local_claim \<Rightarrow> pydict" where
  "tenant_claim_fields c = (case lc_tenant_id c of None \<Rightarrow> []
     | Some t \<Rightarrow> [(''authorization_generation'', PStr ''bounded-authorization-effect/0.2''), (''tenant_id'', PStr t)])"

definition claim_doc :: "local_claim \<Rightarrow> pydict" where
  "claim_doc c = claim_fields c @ tenant_claim_fields c"

definition dump_claim :: "local_claim \<Rightarrow> pydict" where
  "dump_claim c = claim_fields c @ [(''claim_commitment'', PStr (lc_claim_commitment c))] @ tenant_claim_fields c"

text \<open>The authority state a claim commits to.\<close>

definition authority_state ::
  "pyval \<Rightarrow> pyval \<Rightarrow> pyval \<Rightarrow> pyval \<Rightarrow> pyval \<Rightarrow> pyval \<Rightarrow> pyval \<Rightarrow> pyval" where
  "authority_state grant_id revision status requirement approvals policies evidence = PDict [
     (''grant_id'', grant_id), (''grant_revision'', revision), (''grant_status'', status),
     (''requirement_commitment'', requirement), (''approvals'', approvals), (''policies'', policies),
     (''evidence'', evidence)]"

section \<open>The snapshot at issuance\<close>

definition deny_if :: "bool res \<Rightarrow> string \<Rightarrow> unit res" where
  "deny_if c m = bindE c (\<lambda>b. if b then throw_msg PermissionError m else Inr ())"

text \<open>A status of another institution or authority domain than the snapshot's.\<close>

definition elsewhere :: "pyval \<Rightarrow> string \<Rightarrow> string \<Rightarrow> bool res" where
  "elsewhere institution i a =
     orE (bindE (vget institution ''institution_id'') (\<lambda>v. Inr (v \<noteq> PStr i)))
         (bindE (vget institution ''authority_domain'') (\<lambda>v. Inr (v \<noteq> PStr a)))"

text \<open>A status of another tenant, when the binding has one.\<close>

definition other_tenant :: "string option \<Rightarrow> string option \<Rightarrow> bool" where
  "other_tenant bound t \<longleftrightarrow> bound \<noteq> None \<and> t \<noteq> bound"

definition check_scope :: "prims \<Rightarrow> binding \<Rightarrow> pydict \<Rightarrow> pyval \<Rightarrow> pyval \<Rightarrow> pyval \<Rightarrow> unit res" where
  "check_scope P b context institution grant requirement =
     bindE (case b_tenant_id b of None \<Rightarrow> Inr () | Some t \<Rightarrow>
         deny_if (orE (Inr (dget context ''tenant_id'' \<noteq> PStr t))
                      (bindE (vget grant ''tenant_id'') (\<lambda>v. Inr (v \<noteq> PStr t))))
           ''authority snapshot tenant binding mismatch'') (\<lambda>_.
     bindE (deny_if (orE (bindE (vget institution ''institution_id'') (\<lambda>v. Inr (v = PNone)))
                         (bindE (vget institution ''authority_domain'') (\<lambda>v. Inr (v = PNone))))
         ''authority snapshot institution binding unavailable'') (\<lambda>_.
     bindE (deny_if (orE (bindE (vget grant ''grant_id'') (\<lambda>v. Inr (v \<noteq> PStr (b_grant_id b))))
                         (bindE (vget grant ''revision'') (\<lambda>v. Inr (v \<noteq> PStr (b_grant_revision b)))))
         ''authority snapshot grant binding mismatch'') (\<lambda>_.
     bindE (deny_if (bindE (vget requirement ''requirement_id'') (\<lambda>v. Inr (v \<noteq> PStr (b_requirement_id b))))
         ''authority snapshot requirement binding mismatch'') (\<lambda>_.
       deny_if (Inr (commitment P requirement \<noteq> b_requirement_commitment b))
         ''authority snapshot requirement commitment mismatch''))))"

definition check_grant_status :: "binding \<Rightarrow> pyval \<Rightarrow> grant_status option \<Rightarrow> grant_status res" where
  "check_grant_status b institution status = (case status of
      None \<Rightarrow> throw_msg PermissionError ''grant status unavailable at claim issuance''
    | Some st \<Rightarrow>
        bindE (deny_if (orE (Inr (gs_grant_id st \<noteq> b_grant_id b \<or> gs_revision st \<noteq> b_grant_revision b \<or>
                                  gs_status st \<noteq> GrantActive))
                        (orE (elsewhere institution (gs_institution_id st) (gs_authority_domain st))
                             (Inr (other_tenant (b_tenant_id b) (gs_tenant_id st)))))
            ''grant projection is not active and binding-consistent'') (\<lambda>_. Inr st))"

definition project_approval ::
  "binding \<Rightarrow> pyval \<Rightarrow> (string \<times> approval_status) list \<Rightarrow> pyval \<Rightarrow> approval_projection res" where
  "project_approval b institution approvals ref =
     bindE (raw_lookup (map_of approvals) ref) (\<lambda>found. case found of
       None \<Rightarrow> throw_msg PermissionError ''approval state unavailable at claim issuance''
     | Some a \<Rightarrow>
        bindE (deny_if (orE (Inr (ref \<noteq> PStr (as_approval_ref a) \<or> as_status a \<noteq> ApprovalActive \<or>
                 as_grant_id a \<noteq> b_grant_id b \<or> as_grant_revision a \<noteq> b_grant_revision b \<or>
                 as_proposal_commitment a \<noteq> b_proposal_commitment b \<or>
                 \<not> policies_eq (as_policy_versions a) (b_policy_versions b)))
               (orE (elsewhere institution (as_institution_id a) (as_authority_domain a))
                    (Inr (other_tenant (b_tenant_id b) (as_tenant_id a)))))
            ''approval projection is not active and binding-consistent'') (\<lambda>_.
          Inr \<lparr>ap_approval_ref = as_approval_ref a, ap_role_id = as_role_id a, ap_approver = as_approver a,
               ap_status = as_status a, ap_grant_id = as_grant_id a, ap_grant_revision = as_grant_revision a,
               ap_proposal_commitment = as_proposal_commitment a, ap_policy_versions = as_policy_versions a,
               ap_observed_at = as_observed_at a, ap_tenant_id = b_tenant_id b\<rparr>))"

definition project_policy ::
  "binding \<Rightarrow> pyval \<Rightarrow> (string \<times> policy_status) list \<Rightarrow> pydict \<Rightarrow> policy_projection res" where
  "project_policy b institution policies pv =
     bindE (ditem pv ''ref'') (\<lambda>ref.
     bindE (raw_lookup (map_of policies) ref) (\<lambda>found. case found of
       None \<Rightarrow> throw_msg PermissionError ''policy state unavailable at claim issuance''
     | Some p \<Rightarrow>
        bindE (deny_if (orE (Inr (ref \<noteq> PStr (ps_ref p)))
               (orE (bindE (ditem pv ''version'') (\<lambda>v. Inr (v \<noteq> PStr (ps_version p))))
               (orE (Inr (ps_status p \<noteq> PolicyActive))
               (orE (elsewhere institution (ps_institution_id p) (ps_authority_domain p))
                    (Inr (other_tenant (b_tenant_id b) (ps_tenant_id p)))))))
            ''policy projection is not active and binding-consistent'') (\<lambda>_.
          Inr \<lparr>pp_ref = ps_ref p, pp_version = ps_version p, pp_status = ps_status p,
               pp_observed_at = ps_observed_at p, pp_tenant_id = b_tenant_id b\<rparr>)))"

definition critical :: "pyval \<Rightarrow> bool res" where
  "critical obligation = orE (bindE (vget obligation ''required'') (\<lambda>v. Inr (truthy v)))
     (bindE (vget obligation ''unknown_behavior'') (\<lambda>v. Inr (v = PStr ''hold_effect'')))"

definition project_evidence ::
  "prims \<Rightarrow> config \<Rightarrow> pyval \<Rightarrow> int \<Rightarrow> (string \<times> evidence_status) list \<Rightarrow> pyval \<Rightarrow> evidence_projection list res" where
  "project_evidence P cfg institution now evidence obligation =
     bindE (vitem obligation ''obligation_id'') (\<lambda>oid.
     bindE (raw_lookup (map_of evidence) oid) (\<lambda>found.
     bindE (critical obligation) (\<lambda>crit. case found of
       None \<Rightarrow> if crit then throw_msg PermissionError
                 ''decision-relevant evidence state unavailable at claim issuance'' else Inr []
     | Some e \<Rightarrow>
        bindE (deny_if (orE (Inr (oid \<noteq> PStr (es_obligation_id e)))
               (orE (bindE (vget obligation ''source_ref'') (\<lambda>v. Inr (v \<noteq> PStr (es_source_ref e))))
                    (elsewhere institution (es_institution_id e) (es_authority_domain e))))
            ''evidence projection binding mismatch'') (\<lambda>_.
        bindE (deny_if (Inr (crit \<and> es_state e \<noteq> EvidenceCurrent)) ''evidence projection is not current'') (\<lambda>_.
        bindE (parse_time P (es_observed_at e)) (\<lambda>observed.
        bindE (bindE (vget_or obligation ''max_age_seconds'' (PInt 0)) (py_int P)) (\<lambda>max_age.
        bindE (deny_if (Inr (observed > now + seconds (cf_clock_tolerance cfg)))
            ''evidence projection time is in the future'') (\<lambda>_.
        bindE (deny_if (Inr (crit \<and> now - observed > seconds max_age))
            ''evidence projection is stale at claim issuance'') (\<lambda>_.
        bindE (vget obligation ''required'') (\<lambda>required.
        bindE (vget_or obligation ''kind'' (PStr '''')) (\<lambda>kind.
        bindE (vget_or obligation ''unknown_behavior'' (PStr '''')) (\<lambda>behavior.
          Inr [\<lparr>ep_obligation_id = es_obligation_id e, ep_source_ref = es_source_ref e,
                ep_required = truthy required, ep_kind = py_str P kind, ep_max_age_seconds = max_age,
                ep_unknown_behavior = py_str P behavior, ep_state = es_state e,
                ep_observed_at = es_observed_at e\<rparr>]))))))))))))"

definition validate_issuance_snapshot ::
  "prims \<Rightarrow> config \<Rightarrow> binding \<Rightarrow> snapshot \<Rightarrow> int \<Rightarrow>
     (pyval \<times> pyval \<times> grant_status \<times> approval_projection list \<times> policy_projection list \<times> evidence_projection list) res" where
  "validate_issuance_snapshot P cfg b sn now =
     (let context = sn_context sn;
          institution = py_or (dget context ''institution'') (PDict []);
          grant = py_or (dget context ''grant'') (PDict []);
          requirement = py_or (dget context ''requirement'') (PDict [])
      in bindE (check_scope P b context institution grant requirement) (\<lambda>_.
         bindE (check_grant_status b institution (sn_grant_status sn)) (\<lambda>st.
         bindE (bindE (vget_or grant ''approval_refs'' (PList [])) py_iter) (\<lambda>refs.
         bindE (mapE (project_approval b institution (sn_approvals sn)) refs) (\<lambda>approvals.
         bindE (mapE (project_policy b institution (sn_policies sn)) (b_policy_versions b)) (\<lambda>policies.
         bindE (bindE (vget_or requirement ''evidence'' (PList [])) py_iter) (\<lambda>obligations.
         bindE (collectE (project_evidence P cfg institution now (sn_evidence sn)) obligations) (\<lambda>evidence.
           Inr (institution, grant, st, approvals, policies, evidence)))))))))"

section \<open>Issuing a claim\<close>

text \<open>An optional string that is absent or empty is not used.\<close>

definition given_text :: "string option \<Rightarrow> string option" where
  "given_text s = (case s of None \<Rightarrow> None | Some t \<Rightarrow> if t = [] then None else Some t)"

definition operation_payload :: "proposal \<Rightarrow> binding \<Rightarrow> pyval \<Rightarrow> pyval \<Rightarrow> pydict res" where
  "operation_payload p b institution_id authority_domain =
     (let value = [
        (''actor'', PStr (p_actor p)), (''principal'', PStr (p_principal p)),
        (''institution_id'', institution_id), (''authority_domain'', authority_domain),
        (''manifest_id'', PStr (p_manifest_id p)), (''manifest_version'', PStr (p_manifest_version p)),
        (''manifest_digest'', PStr (p_manifest_digest p)), (''action_id'', PStr (p_action_id p)),
        (''adapter_id'', PStr (p_adapter_id p)), (''target'', PStr (p_target p)),
        (''payload'', PDict (p_payload p)), (''payload_commitment'', PStr (p_payload_commitment p)),
        (''requested_permissions'', str_list (p_requested_permissions p)),
        (''amount'', PFloat (p_amount p)), (''unit'', PStr (p_unit p)), (''effects'', PInt (p_effects p)),
        (''authority_context_id'', opt_str (p_authority_context_ref p)),
        (''requirement_id'', opt_str (p_requirement_id p)),
        (''grant_id'', PStr (b_grant_id b)), (''grant_revision'', PStr (b_grant_revision b))]
      in case b_tenant_id b of
           None \<Rightarrow> Inr value
         | Some t \<Rightarrow> if p_tenant_id p \<noteq> Some t then throw_msg PermissionError ''tenant proposal/binding mismatch''
                     else Inr (value @ [(''tenant_id'', PStr t)]))"

text \<open>The interval of the claim: the latest start and the earliest end given.\<close>

definition claim_interval ::
  "prims \<Rightarrow> pyval \<Rightarrow> proposal \<Rightarrow> string option \<Rightarrow> int \<Rightarrow> (int \<times> int) res" where
  "claim_interval P grant p expires_at now =
     bindE (bindE (vitem grant ''not_before'') (parse_value P)) (\<lambda>s1.
     bindE (case given_text (p_not_before p) of None \<Rightarrow> Inr [] | Some t \<Rightarrow> bindE (parse_time P t) (\<lambda>x. Inr [x])) (\<lambda>s2.
     bindE (bindE (vitem grant ''expires_at'') (parse_value P)) (\<lambda>e1.
     bindE (case given_text (p_expires_at p) of None \<Rightarrow> Inr [] | Some t \<Rightarrow> bindE (parse_time P t) (\<lambda>x. Inr [x])) (\<lambda>e2.
     bindE (case given_text expires_at of None \<Rightarrow> Inr [] | Some t \<Rightarrow> bindE (parse_time P t) (\<lambda>x. Inr [x])) (\<lambda>e3.
       let start = foldl max s1 s2; stop = foldl min e1 (e2 @ e3)
       in if stop \<le> start \<or> stop \<le> now
          then throw_msg PermissionError ''execution claim has no usable validity interval''
          else Inr (start, stop))))))"

text \<open>The options of an issuance call.\<close>

record issuance =
  iu_claim_id :: "string option"
  iu_budget_id :: "string option"
  iu_expires_at :: "string option"
  iu_input_commitment :: "string option"
  iu_input_profile :: "string option"

text \<open>The claim with everything but its own commitment, and the commitment put on it.\<close>

definition unsealed_claim ::
  "prims \<Rightarrow> proposal \<Rightarrow> decision \<Rightarrow> binding \<Rightarrow> issuance \<Rightarrow> string \<Rightarrow> string \<Rightarrow> string \<Rightarrow> grant_status \<Rightarrow>
     approval_projection list \<Rightarrow> policy_projection list \<Rightarrow> evidence_projection list \<Rightarrow> string \<Rightarrow> int \<times> int \<Rightarrow> int \<Rightarrow> local_claim" where
  "unsealed_claim P p d b iu new_id inst adom st approvals policies evidence operation interval now =
         \<lparr>lc_claim_id = (case given_text (iu_claim_id iu) of None \<Rightarrow> new_id | Some i \<Rightarrow> i),
          lc_decision_id = d_decision_id d, lc_effect_id = d_effect_id d,
          lc_institution_id = inst, lc_authority_domain = adom,
          lc_actor = p_actor p, lc_principal = p_principal p,
          lc_grant_id = b_grant_id b, lc_grant_revision = b_grant_revision b, lc_grant_status = gs_status st,
          lc_manifest_id = p_manifest_id p, lc_manifest_version = p_manifest_version p,
          lc_manifest_digest = p_manifest_digest p, lc_action_id = p_action_id p, lc_adapter_id = p_adapter_id p,
          lc_target = p_target p, lc_payload_commitment = p_payload_commitment p,
          lc_requested_permissions = p_requested_permissions p, lc_amount = p_amount p, lc_unit = p_unit p,
          lc_effects = p_effects p, lc_authority_context_id = b_authority_context_id b,
          lc_requirement_id = b_requirement_id b, lc_requirement_commitment = b_requirement_commitment b,
          lc_operation_commitment = operation,
          lc_approval_state = approvals,
          lc_approval_state_commitment = commitment P (plist dump_approval approvals),
          lc_policy_state = policies, lc_policy_state_commitment = commitment P (plist dump_policy policies),
          lc_evidence_state = evidence,
          lc_evidence_state_commitment = commitment P (plist dump_evidence evidence),
          lc_authority_state_commitment = commitment P (authority_state (PStr (b_grant_id b))
            (PStr (b_grant_revision b)) (PStr (grant_state_str (gs_status st)))
            (PStr (b_requirement_commitment b)) (plist dump_approval approvals)
            (plist dump_policy policies) (plist dump_evidence evidence)),
          lc_budget_id = (case given_text (iu_budget_id iu) of None \<Rightarrow> ''grant:'' @ b_grant_id b | Some i \<Rightarrow> i),
          lc_max_effects = b_effective_max_effects b,
          lc_not_before = isoformat_utc P (fst interval), lc_expires_at = isoformat_utc P (snd interval),
          lc_issued_at = isoformat_utc P now,
          lc_decision_input_commitment = iu_input_commitment iu,
          lc_decision_input_profile_version = iu_input_profile iu,
          lc_tenant_id = b_tenant_id b, lc_claim_commitment = ''''\<rparr>"

definition seal :: "prims \<Rightarrow> local_claim \<Rightarrow> local_claim" where
  "seal P c = c\<lparr>lc_claim_commitment := commitment P (PDict (claim_doc c))\<rparr>"

text \<open>What is checked before the handoff, and what is issued under it.\<close>

definition issuable :: "decision \<Rightarrow> decision option \<Rightarrow> binding res" where
  "issuable d persisted = (case persisted of
      None \<Rightarrow> throw_msg PermissionError ''decision is not the immutable persisted decision''
    | Some s \<Rightarrow>
        if \<not> decision_eq s d then throw_msg PermissionError ''decision is not the immutable persisted decision''
        else (case d_binding d of
            None \<Rightarrow> throw_msg PermissionError ''decision is not authorized''
          | Some b \<Rightarrow> if d_result d \<noteq> Authorized then throw_msg PermissionError ''decision is not authorized''
                       else Inr b))"

definition issue_under_handoff ::
  "prims \<Rightarrow> config \<Rightarrow> proposal \<Rightarrow> decision \<Rightarrow> binding \<Rightarrow> int \<Rightarrow> issuance \<Rightarrow> string \<Rightarrow> local_claim res" where
  "issue_under_handoff P cfg p d bd now iu new_id =
     bindE (resolve P cfg p (Aware now)) (\<lambda>(reasons, current).
     bindE (case current of
         Some b \<Rightarrow> if reasons = [] \<and> binding_eq b bd then Inr b
           else throw_msg PermissionError ''authorization-critical inputs changed before claim issuance''
       | None \<Rightarrow> throw_msg PermissionError ''authorization-critical inputs changed before claim issuance'') (\<lambda>b.
     bindE (rs_authority_effect_snapshot (cf_resolver cfg) (context_ref p)) (\<lambda>found.
     bindE (case found of Some sn \<Rightarrow> Inr sn
       | None \<Rightarrow> throw_msg PermissionError ''coherent authority snapshot unavailable at claim issuance'') (\<lambda>sn.
     bindE (validate_issuance_snapshot P cfg bd sn now) (\<lambda>(institution, grant, st, approvals, policies, evidence).
     bindE (claim_interval P grant p (iu_expires_at iu) now) (\<lambda>interval.
     bindE (vget institution ''institution_id'') (\<lambda>iid.
     bindE (vget institution ''authority_domain'') (\<lambda>adom.
     bindE (operation_payload p bd iid adom) (\<lambda>operation.
     bindE (expect_str iid) (\<lambda>i. bindE (expect_str adom) (\<lambda>a.
       Inr (seal P (unsealed_claim P p d b iu new_id i a st approvals policies evidence
              (commitment P (PDict operation)) interval now)))))))))))))"

text \<open>
  \<open>_materialize_under_handoff\<close>: \<open>provision\<close> is the sink's operation on a state of its own; a
  raise of it propagates. A naive issuance time is refused.
\<close>

definition materialize_under_handoff ::
  "prims \<Rightarrow> config \<Rightarrow> bool \<Rightarrow> store_file \<Rightarrow> proposal \<Rightarrow> decision \<Rightarrow> pydatetime \<Rightarrow> issuance \<Rightarrow> string \<Rightarrow>
     (local_claim \<Rightarrow> 's \<Rightarrow> unit res \<times> 's) option \<Rightarrow> 's \<Rightarrow> local_claim res \<times> 's" where
  "materialize_under_handoff P cfg has_handoff f p d now iu new_id provision sink =
     (case (case now of
         Naive _ \<Rightarrow> throw_msg ValueError ''claim issuance time must be timezone-aware''
       | Aware t \<Rightarrow>
           bindE (store_decision (d_decision_id d) f) (\<lambda>persisted.
           bindE (issuable d persisted) (\<lambda>b.
             if \<not> has_handoff
             then throw_msg PermissionError ''resolver does not implement trusted authority-effect handoff''
             else issue_under_handoff P cfg p d b t iu new_id))) of
       Inl e \<Rightarrow> (Inl e, sink)
     | Inr claim \<Rightarrow> (case provision of
         None \<Rightarrow> (Inr claim, sink)
       | Some pv \<Rightarrow> (case pv claim sink of
           (Inl e, sink') \<Rightarrow> (Inl e, sink')
         | (Inr _, sink') \<Rightarrow> (Inr claim, sink'))))"

definition materialize_local_execution_claim ::
  "prims \<Rightarrow> config \<Rightarrow> bool \<Rightarrow> store_file \<Rightarrow> proposal \<Rightarrow> decision \<Rightarrow> pydatetime \<Rightarrow> issuance \<Rightarrow> string \<Rightarrow> local_claim res" where
  "materialize_local_execution_claim P cfg has_handoff f p d now iu new_id =
     fst (materialize_under_handoff P cfg has_handoff f p d now iu new_id None ())"

definition provision_local_execution_claim ::
  "prims \<Rightarrow> config \<Rightarrow> bool \<Rightarrow> store_file \<Rightarrow> proposal \<Rightarrow> decision \<Rightarrow> pydatetime \<Rightarrow> issuance \<Rightarrow> string \<Rightarrow>
     (local_claim \<Rightarrow> 's \<Rightarrow> unit res \<times> 's) \<Rightarrow> 's \<Rightarrow> local_claim res \<times> 's" where
  "provision_local_execution_claim P cfg has_handoff f p d now iu new_id provision sink =
     materialize_under_handoff P cfg has_handoff f p d now iu new_id (Some provision) sink"

section \<open>Verifying a claim\<close>

definition verify_claim_doc :: "prims \<Rightarrow> pydict \<Rightarrow> bool" where
  "verify_claim_doc P d =
     (let supplied = dget d ''claim_commitment'';
          value = without_key ''claim_commitment'' d;
          commits = (\<lambda>k v. dget value k = PStr (commitment P v));
          is_list = (\<lambda>v. case v of PList _ \<Rightarrow> True | _ \<Rightarrow> False);
          approvals = dget value ''approval_state'';
          policies = dget value ''policy_state'';
          evidence = dget value ''evidence_state''
      in dget value ''profile'' = PStr LOCAL_AUTHORITY_EFFECT_PROFILE \<and>
         dget value ''source'' = PStr ''trusted_control_plane_workflow'' \<and>
         dget value ''authorizing_by_possession'' = PBool False \<and>
         is_list approvals \<and> is_list policies \<and> is_list evidence \<and>
         commits ''approval_state_commitment'' approvals \<and>
         commits ''policy_state_commitment'' policies \<and>
         commits ''evidence_state_commitment'' evidence \<and>
         commits ''authority_state_commitment''
           (authority_state (dget value ''grant_id'') (dget value ''grant_revision'') (dget value ''grant_status'')
              (dget value ''requirement_commitment'') approvals policies evidence) \<and>
         supplied = PStr (commitment P (PDict value)))"

text \<open>
  \<open>verify_local_execution_claim\<close>: a claim object is verified on its document; a raw document only
  after validation against the model class (\<open>model_validate\<close>, a parameter: whether it accepts the
  document as a tenant-aware or plain claim).
\<close>

definition verify_claim :: "prims \<Rightarrow> local_claim \<Rightarrow> bool" where
  "verify_claim P c = verify_claim_doc P (dump_claim c)"

definition verify_claim_dict :: "prims \<Rightarrow> (bool \<Rightarrow> pydict \<Rightarrow> bool) \<Rightarrow> pydict \<Rightarrow> bool" where
  "verify_claim_dict P accepts d =
     (let tenant = ''tenant_id'' \<in> fst ` set d \<or> ''authorization_generation'' \<in> fst ` set d
      in accepts tenant d \<and> verify_claim_doc P d)"

section \<open>Lemmas\<close>

lemma deny_if_iff [res_iff]: "deny_if c m = Inr u \<longleftrightarrow> c = Inr False"
  by (cases c) (auto simp: deny_if_def)

lemma without_commitment: "without_key ''claim_commitment'' (dump_claim c) = claim_doc c"
  by (simp add: without_key_def dump_claim_def claim_doc_def claim_fields_def tenant_claim_fields_def
      split: option.splits)

lemma map_of_claim_doc:
  "map_of (claim_doc c) k = (case map_of (claim_fields c) k of None \<Rightarrow> map_of (tenant_claim_fields c) k | Some v \<Rightarrow> Some v)"
  by (simp add: claim_doc_def map_add_def)

text \<open>The fields that verification reads.\<close>

lemma claim_doc_lookup:
  "dget (claim_doc c) ''profile'' = PStr LOCAL_AUTHORITY_EFFECT_PROFILE"
  "dget (claim_doc c) ''source'' = PStr ''trusted_control_plane_workflow''"
  "dget (claim_doc c) ''authorizing_by_possession'' = PBool False"
  "dget (claim_doc c) ''approval_state'' = plist dump_approval (lc_approval_state c)"
  "dget (claim_doc c) ''policy_state'' = plist dump_policy (lc_policy_state c)"
  "dget (claim_doc c) ''evidence_state'' = plist dump_evidence (lc_evidence_state c)"
  "dget (claim_doc c) ''approval_state_commitment'' = PStr (lc_approval_state_commitment c)"
  "dget (claim_doc c) ''policy_state_commitment'' = PStr (lc_policy_state_commitment c)"
  "dget (claim_doc c) ''evidence_state_commitment'' = PStr (lc_evidence_state_commitment c)"
  "dget (claim_doc c) ''authority_state_commitment'' = PStr (lc_authority_state_commitment c)"
  "dget (claim_doc c) ''grant_id'' = PStr (lc_grant_id c)"
  "dget (claim_doc c) ''grant_revision'' = PStr (lc_grant_revision c)"
  "dget (claim_doc c) ''grant_status'' = PStr (grant_state_str (lc_grant_status c))"
  "dget (claim_doc c) ''requirement_commitment'' = PStr (lc_requirement_commitment c)"
  by (simp_all add: dget_or_def map_of_claim_doc) (simp_all add: claim_fields_def)

lemma dump_claim_commitment: "dget (dump_claim c) ''claim_commitment'' = PStr (lc_claim_commitment c)"
  by (simp add: dget_or_def dump_claim_def) (simp add: claim_fields_def)

lemma claim_doc_commitment [simp]: "claim_doc (c\<lparr>lc_claim_commitment := x\<rparr>) = claim_doc c"
  by (simp add: claim_doc_def claim_fields_def tenant_claim_fields_def)

lemma verify_claim_iff:
  "verify_claim P c \<longleftrightarrow>
     lc_approval_state_commitment c = commitment P (plist dump_approval (lc_approval_state c)) \<and>
     lc_policy_state_commitment c = commitment P (plist dump_policy (lc_policy_state c)) \<and>
     lc_evidence_state_commitment c = commitment P (plist dump_evidence (lc_evidence_state c)) \<and>
     lc_authority_state_commitment c = commitment P (authority_state (PStr (lc_grant_id c))
       (PStr (lc_grant_revision c)) (PStr (grant_state_str (lc_grant_status c))) (PStr (lc_requirement_commitment c))
       (plist dump_approval (lc_approval_state c)) (plist dump_policy (lc_policy_state c))
       (plist dump_evidence (lc_evidence_state c))) \<and>
     lc_claim_commitment c = commitment P (PDict (claim_doc c))"
  by (simp add: verify_claim_def verify_claim_doc_def without_commitment claim_doc_lookup dump_claim_commitment Let_def)

lemma sealed_claim_verifies:
  "verify_claim P (seal P (unsealed_claim P p d b iu nid i a st aps pps eps op iv now))"
proof -
  have "verify_claim P (seal P c)" if "lc_approval_state_commitment c = commitment P (plist dump_approval (lc_approval_state c))"
    "lc_policy_state_commitment c = commitment P (plist dump_policy (lc_policy_state c))"
    "lc_evidence_state_commitment c = commitment P (plist dump_evidence (lc_evidence_state c))"
    "lc_authority_state_commitment c = commitment P (authority_state (PStr (lc_grant_id c))
       (PStr (lc_grant_revision c)) (PStr (grant_state_str (lc_grant_status c))) (PStr (lc_requirement_commitment c))
       (plist dump_approval (lc_approval_state c)) (plist dump_policy (lc_policy_state c))
       (plist dump_evidence (lc_evidence_state c)))" for c
    using that by (simp add: verify_claim_iff seal_def)
  then show ?thesis by (simp add: unsealed_claim_def)
qed

lemma distinct_claim_doc: "distinct (map fst (claim_doc c))"
  by (cases "lc_tenant_id c") (simp_all add: claim_doc_def claim_fields_def tenant_claim_fields_def)

lemma issuable_iff [res_iff]: "issuable d persisted = Inr b \<longleftrightarrow>
    (\<exists>s. persisted = Some s \<and> decision_eq s d) \<and> d_binding d = Some b \<and> d_result d = Authorized"
  by (auto simp: issuable_def split: option.splits)

lemma issue_under_handoff_cases:
  assumes "issue_under_handoff P cfg p d bd t iu nid = Inr c"
  obtains b sn inst grant st aps pps eps iv iid adom op where
    "resolve P cfg p (Aware t) = Inr ([], Some b)" "binding_eq b bd"
    "rs_authority_effect_snapshot (cf_resolver cfg) (context_ref p) = Inr (Some sn)"
    "validate_issuance_snapshot P cfg bd sn t = Inr (inst, grant, st, aps, pps, eps)"
    "claim_interval P grant p (iu_expires_at iu) t = Inr iv"
    "operation_payload p bd (PStr iid) (PStr adom) = Inr op"
    "c = seal P (unsealed_claim P p d b iu nid iid adom st aps pps eps (commitment P (PDict op)) iv t)"
proof -
  from assms obtain reasons current where res: "resolve P cfg p (Aware t) = Inr (reasons, current)"
    and rest: "bindE (case current of
         Some b \<Rightarrow> if reasons = [] \<and> binding_eq b bd then Inr b
           else throw_msg PermissionError ''authorization-critical inputs changed before claim issuance''
       | None \<Rightarrow> throw_msg PermissionError ''authorization-critical inputs changed before claim issuance'')
       (\<lambda>b. bindE (rs_authority_effect_snapshot (cf_resolver cfg) (context_ref p)) (\<lambda>found.
     bindE (case found of Some sn \<Rightarrow> Inr sn
       | None \<Rightarrow> throw_msg PermissionError ''coherent authority snapshot unavailable at claim issuance'') (\<lambda>sn.
     bindE (validate_issuance_snapshot P cfg bd sn t) (\<lambda>(institution, grant, st, approvals, policies, evidence).
     bindE (claim_interval P grant p (iu_expires_at iu) t) (\<lambda>interval.
     bindE (vget institution ''institution_id'') (\<lambda>iid.
     bindE (vget institution ''authority_domain'') (\<lambda>adom.
     bindE (operation_payload p bd iid adom) (\<lambda>operation.
     bindE (expect_str iid) (\<lambda>i. bindE (expect_str adom) (\<lambda>a.
       Inr (seal P (unsealed_claim P p d b iu nid i a st approvals policies evidence
              (commitment P (PDict operation)) interval t)))))))))))) = Inr c"
    by (auto simp: issue_under_handoff_def bindE_Inr_iff)
  from rest obtain b where b: "current = Some b" "reasons = []" "binding_eq b bd"
    by (auto simp: bindE_Inr_iff split: option.splits if_splits)
  from rest b obtain sn where sn: "rs_authority_effect_snapshot (cf_resolver cfg) (context_ref p) = Inr (Some sn)"
    by (auto simp: bindE_Inr_iff split: option.splits)
  from rest b sn obtain inst grant st aps pps eps where
    v: "validate_issuance_snapshot P cfg bd sn t = Inr (inst, grant, st, aps, pps, eps)"
    by (cases "validate_issuance_snapshot P cfg bd sn t") auto
  from rest b sn v obtain iv iid adom op where
    "claim_interval P grant p (iu_expires_at iu) t = Inr iv"
    "operation_payload p bd (PStr iid) (PStr adom) = Inr op"
    "c = seal P (unsealed_claim P p d b iu nid iid adom st aps pps eps (commitment P (PDict op)) iv t)"
    by (auto simp: bindE_Inr_iff expect_str_Inr_iff)
  with res b sn v show thesis by (intro that) auto
qed

lemma materialize_cases:
  assumes "materialize_under_handoff P cfg has f p d now iu nid provision sink = (r, sink')"
  obtains (refused) e where "r = Inl e" "sink' = sink"
  | (issued) t persisted bd c where "now = Aware t" "has" "store_decision (d_decision_id d) f = Inr (Some persisted)"
      "decision_eq persisted d" "d_binding d = Some bd" "d_result d = Authorized"
      "issue_under_handoff P cfg p d bd t iu nid = Inr c"
      "case provision of None \<Rightarrow> r = Inr c \<and> sink' = sink
       | Some pv \<Rightarrow> sink' = snd (pv c sink) \<and> bindE (fst (pv c sink)) (\<lambda>_. Inr c) = r"
proof -
  define m where "m = (case now of
         Naive _ \<Rightarrow> throw_msg ValueError ''claim issuance time must be timezone-aware''
       | Aware t \<Rightarrow>
           bindE (store_decision (d_decision_id d) f) (\<lambda>persisted.
           bindE (issuable d persisted) (\<lambda>b.
             if \<not> has
             then throw_msg PermissionError ''resolver does not implement trusted authority-effect handoff''
             else issue_under_handoff P cfg p d b t iu nid)))"
  show thesis
  proof (cases m)
    case (Inl e)
    with assms show thesis by (intro refused [of e]) (simp_all add: materialize_under_handoff_def m_def)
  next
    case (Inr c)
    then obtain t persisted bd where "now = Aware t" "has" "store_decision (d_decision_id d) f = Inr (Some persisted)"
      "decision_eq persisted d" "d_binding d = Some bd" "d_result d = Authorized"
      "issue_under_handoff P cfg p d bd t iu nid = Inr c"
      by (auto simp: m_def bindE_Inr_iff issuable_iff split: pydatetime.splits if_splits)
    moreover have "case provision of None \<Rightarrow> r = Inr c \<and> sink' = sink
       | Some pv \<Rightarrow> sink' = snd (pv c sink) \<and> bindE (fst (pv c sink)) (\<lambda>_. Inr c) = r"
      using assms Inr
      by (auto simp: materialize_under_handoff_def m_def [symmetric] bindE_def
          split: option.splits prod.splits sum.splits)
    ultimately show thesis by (rule issued)
  qed
qed

text \<open>What a validated snapshot says of grant, approvals and policies.\<close>

definition approval_bound :: "binding \<Rightarrow> approval_projection \<Rightarrow> bool" where
  "approval_bound b a \<longleftrightarrow> ap_status a = ApprovalActive \<and> ap_grant_id a = b_grant_id b \<and>
     ap_grant_revision a = b_grant_revision b \<and> ap_proposal_commitment a = b_proposal_commitment b \<and>
     policies_eq (ap_policy_versions a) (b_policy_versions b) \<and> ap_tenant_id a = b_tenant_id b"

text \<open>An approval of a claim is the one the snapshot has under a reference of the grant, as it stands there.\<close>

definition approval_claimed :: "binding \<Rightarrow> snapshot \<Rightarrow> pyval \<Rightarrow> approval_projection \<Rightarrow> bool" where
  "approval_claimed b sn ref a \<longleftrightarrow> approval_bound b a \<and> ref = PStr (ap_approval_ref a) \<and>
     (\<exists>v. map_of (sn_approvals sn) (ap_approval_ref a) = Some v \<and> as_approval_ref v = ap_approval_ref a \<and>
        as_status v = ApprovalActive \<and> as_role_id v = ap_role_id a \<and> as_approver v = ap_approver a \<and>
        as_grant_id v = ap_grant_id a \<and> as_grant_revision v = ap_grant_revision a \<and>
        as_proposal_commitment v = ap_proposal_commitment a \<and> as_observed_at v = ap_observed_at a)"

definition policy_claimed :: "snapshot \<Rightarrow> pydict \<Rightarrow> policy_projection \<Rightarrow> bool" where
  "policy_claimed sn pv x \<longleftrightarrow> pp_status x = PolicyActive \<and> map_of pv ''ref'' = Some (PStr (pp_ref x)) \<and>
     map_of pv ''version'' = Some (PStr (pp_version x)) \<and>
     (\<exists>v. map_of (sn_policies sn) (pp_ref x) = Some v \<and> ps_ref v = pp_ref x \<and> ps_version v = pp_version x \<and>
        ps_status v = PolicyActive \<and> ps_observed_at v = pp_observed_at x)"

definition evidence_claimed :: "prims \<Rightarrow> int \<Rightarrow> snapshot \<Rightarrow> pyval \<Rightarrow> evidence_projection \<Rightarrow> bool" where
  "evidence_claimed P now sn ob x \<longleftrightarrow> vitem ob ''obligation_id'' = Inr (PStr (ep_obligation_id x)) \<and>
     ep_state x = EvidenceCurrent \<and>
     (\<exists>v t. map_of (sn_evidence sn) (ep_obligation_id x) = Some v \<and> es_state v = EvidenceCurrent \<and>
        es_source_ref v = ep_source_ref x \<and> es_observed_at v = ep_observed_at x \<and>
        parse_time P (ep_observed_at x) = Inr t \<and> now - t \<le> seconds (ep_max_age_seconds x))"

text \<open>
  The lists of a claim are those of the snapshot: one approval per reference of the grant, in order,
  one policy per bound policy version, and evidence for every obligation the decision depends on.
\<close>

definition claim_reflects :: "prims \<Rightarrow> int \<Rightarrow> binding \<Rightarrow> snapshot \<Rightarrow> local_claim \<Rightarrow> bool" where
  "claim_reflects P now b sn c \<longleftrightarrow> (\<exists>refs obligations.
     bindE (vget_or (py_or (dget (sn_context sn) ''grant'') (PDict [])) ''approval_refs'' (PList [])) py_iter = Inr refs \<and>
     list_all2 (approval_claimed b sn) refs (lc_approval_state c) \<and>
     list_all2 (policy_claimed sn) (b_policy_versions b) (lc_policy_state c) \<and>
     bindE (vget_or (py_or (dget (sn_context sn) ''requirement'') (PDict [])) ''evidence'' (PList [])) py_iter = Inr obligations \<and>
     (\<forall>ob\<in>set obligations. critical ob = Inr True \<longrightarrow>
        (\<exists>x\<in>set (lc_evidence_state c). evidence_claimed P now sn ob x)))"

lemma project_approval_claimed:
  "project_approval b inst (sn_approvals sn) ref = Inr a \<Longrightarrow> approval_claimed b sn ref a"
  by (auto simp: project_approval_def bindE_Inr_iff deny_if_iff orE_False_iff approval_bound_def approval_claimed_def
      raw_lookup_Some split: option.splits)

lemma project_policy_claimed:
  "project_policy b inst (sn_policies sn) pv = Inr x \<Longrightarrow> policy_claimed sn pv x"
  by (auto simp: project_policy_def bindE_Inr_iff deny_if_iff orE_False_iff ditem_Inr_iff policy_claimed_def
      raw_lookup_Some split: option.splits)

lemma project_evidence_claimed:
  assumes "project_evidence P cfg inst now (sn_evidence sn) ob = Inr xs" "critical ob = Inr True"
  shows "\<exists>x\<in>set xs. evidence_claimed P now sn ob x"
  using assms by (auto simp: project_evidence_def bindE_Inr_iff deny_if_iff orE_False_iff evidence_claimed_def
      raw_lookup_Some split: option.splits if_splits)

lemma collectE_member:
  assumes "collectE f xs = Inr ys" "x \<in> set xs"
  shows "\<exists>zs. f x = Inr zs \<and> set zs \<subseteq> set ys"
  using assms by (induction xs arbitrary: ys) (fastforce simp: appendE_def bindE_Inr_iff)+

lemma validated_snapshot:
  assumes "validate_issuance_snapshot P cfg b sn t = Inr (inst, grant, st, aps, pps, eps)"
  shows "sn_grant_status sn = Some st" "gs_status st = GrantActive" "gs_grant_id st = b_grant_id b"
    "gs_revision st = b_grant_revision b" "grant = py_or (dget (sn_context sn) ''grant'') (PDict [])"
    "lc_approval_state c = aps \<Longrightarrow> lc_policy_state c = pps \<Longrightarrow> lc_evidence_state c = eps \<Longrightarrow>
       claim_reflects P t b sn c"
proof -
  from assms obtain refs obligations where g: "grant = py_or (dget (sn_context sn) ''grant'') (PDict [])"
    and st: "check_grant_status b inst (sn_grant_status sn) = Inr st"
    and refs: "bindE (vget_or grant ''approval_refs'' (PList [])) py_iter = Inr refs"
    and aps: "mapE (project_approval b inst (sn_approvals sn)) refs = Inr aps"
    and pps: "mapE (project_policy b inst (sn_policies sn)) (b_policy_versions b) = Inr pps"
    and obs: "bindE (vget_or (py_or (dget (sn_context sn) ''requirement'') (PDict [])) ''evidence'' (PList [])) py_iter =
        Inr obligations"
    and eps: "collectE (project_evidence P cfg inst t (sn_evidence sn)) obligations = Inr eps"
    by (auto simp: validate_issuance_snapshot_def Let_def bindE_Inr_iff)
  show "sn_grant_status sn = Some st" "gs_status st = GrantActive" "gs_grant_id st = b_grant_id b"
    "gs_revision st = b_grant_revision b"
    using st by (auto simp: check_grant_status_def bindE_Inr_iff deny_if_iff orE_False_iff split: option.splits)
  show "grant = py_or (dget (sn_context sn) ''grant'') (PDict [])" by (rule g)
  have "list_all2 (approval_claimed b sn) refs aps"
    using aps [unfolded mapE_Inr_iff] project_approval_claimed by (rule list_all2_mono)
  moreover have "list_all2 (policy_claimed sn) (b_policy_versions b) pps"
    using pps [unfolded mapE_Inr_iff] project_policy_claimed by (rule list_all2_mono)
  moreover have "\<exists>x\<in>set eps. evidence_claimed P t sn ob x" if "ob \<in> set obligations" "critical ob = Inr True" for ob
    using collectE_member [OF eps that(1)] project_evidence_claimed [OF _ that(2)] by blast
  ultimately show "lc_approval_state c = aps \<Longrightarrow> lc_policy_state c = pps \<Longrightarrow> lc_evidence_state c = eps \<Longrightarrow>
       claim_reflects P t b sn c"
    using refs obs g unfolding claim_reflects_def by blast
qed

lemma claim_interval_bounds:
  assumes "claim_interval P grant p ex now = Inr (start, stop)"
  obtains v w nb e where "vitem grant ''not_before'' = Inr v" "parse_value P v = Inr nb" "nb \<le> start"
    "vitem grant ''expires_at'' = Inr w" "parse_value P w = Inr e" "stop \<le> e" "start < stop" "now < stop"
    "\<And>s. given_text (p_not_before p) = Some s \<Longrightarrow> \<exists>x. parse_time P s = Inr x \<and> x \<le> start"
    "\<And>s. given_text (p_expires_at p) = Some s \<Longrightarrow> \<exists>x. parse_time P s = Inr x \<and> stop \<le> x"
    "\<And>s. given_text ex = Some s \<Longrightarrow> \<exists>x. parse_time P s = Inr x \<and> stop \<le> x"
  using assms unfolding claim_interval_def Let_def
  by (auto simp: bindE_Inr_iff not_le split: option.splits if_splits)

text \<open>
  The interval of a claim issued at an instant lies inside what the grant of the snapshot, the
  proposal and the call allow, is not empty and has not ended.
\<close>

definition claim_times_within ::
  "prims \<Rightarrow> config \<Rightarrow> proposal \<Rightarrow> issuance \<Rightarrow> int \<Rightarrow> local_claim \<Rightarrow> bool" where
  "claim_times_within P cfg p iu t c \<longleftrightarrow> (\<exists>sn start stop v w nb e.
       rs_authority_effect_snapshot (cf_resolver cfg) (context_ref p) = Inr (Some sn) \<and>
       lc_not_before c = isoformat_utc P start \<and> lc_expires_at c = isoformat_utc P stop \<and>
       lc_issued_at c = isoformat_utc P t \<and> start < stop \<and> t < stop \<and>
       vitem (py_or (dget (sn_context sn) ''grant'') (PDict [])) ''not_before'' = Inr v \<and>
       parse_value P v = Inr nb \<and> nb \<le> start \<and>
       vitem (py_or (dget (sn_context sn) ''grant'') (PDict [])) ''expires_at'' = Inr w \<and>
       parse_value P w = Inr e \<and> stop \<le> e \<and>
       (\<forall>s. given_text (p_not_before p) = Some s \<longrightarrow> (\<exists>x. parse_time P s = Inr x \<and> x \<le> start)) \<and>
       (\<forall>s. given_text (p_expires_at p) = Some s \<longrightarrow> (\<exists>x. parse_time P s = Inr x \<and> stop \<le> x)) \<and>
       (\<forall>s. given_text (iu_expires_at iu) = Some s \<longrightarrow> (\<exists>x. parse_time P s = Inr x \<and> stop \<le> x)))"

lemma issued_times:
  assumes "issue_under_handoff P cfg p d bd t iu nid = Inr c"
  shows "claim_times_within P cfg p iu t c"
  using assms
proof (rule issue_under_handoff_cases)
  fix b sn inst grant st aps pps eps iv iid adom op
  assume sn: "rs_authority_effect_snapshot (cf_resolver cfg) (context_ref p) = Inr (Some sn)"
    and v: "validate_issuance_snapshot P cfg bd sn t = Inr (inst, grant, st, aps, pps, eps)"
    and iv: "claim_interval P grant p (iu_expires_at iu) t = Inr iv"
    and c: "c = seal P (unsealed_claim P p d b iu nid iid adom st aps pps eps (commitment P (PDict op)) iv t)"
  obtain start stop where se: "iv = (start, stop)" by (cases iv)
  have times: "lc_not_before c = isoformat_utc P start" "lc_expires_at c = isoformat_utc P stop"
    "lc_issued_at c = isoformat_utc P t"
    by (simp_all add: c seal_def unsealed_claim_def se)
  from iv [unfolded se] show ?thesis
    by (rule claim_interval_bounds)
      (use sn times validated_snapshot(5) [OF v] in \<open>auto simp: claim_times_within_def\<close>)
qed

lemma issued_verifies: "issue_under_handoff P cfg p d bd t iu nid = Inr c \<Longrightarrow> verify_claim P c"
  by (erule issue_under_handoff_cases) (simp add: sealed_claim_verifies)

lemma issued_claim_verifies:
  "materialize_under_handoff P cfg has f p d now iu nid provision sink = (Inr c, sink') \<Longrightarrow> verify_claim P c"
  by (erule materialize_cases) (auto simp: bindE_Inr_iff issued_verifies split: option.splits)

section \<open>Properties\<close>

text \<open>
  C13. A claim is issued only for live authority: when issuance returns a claim, the decision is
  the persisted one and authorized, its proposal resolves again at the issuance time without
  reasons to an equal binding, and the coherent snapshot shows the grant active at the bound
  revision; the claim names the decision, its effect, the grant and exactly the operation proposed,
  with the cap of the binding. It carries for every approval reference of the snapshot's grant the
  approval the snapshot has under it, active and bound to the binding, for every bound policy version
  the snapshot's policy, active in that version, and for every obligation the decision depends on
  the snapshot's evidence, current and not too old. A sink has by then accepted exactly this claim.
\<close>

theorem claim_needs_live_authority:
  assumes "materialize_under_handoff P cfg has f p d now iu nid provision sink = (Inr c, sink')"
  shows "\<exists>t persisted bd b sn st. now = Aware t \<and> has \<and>
     store_decision (d_decision_id d) f = Inr (Some persisted) \<and> decision_eq persisted d \<and>
     d_result d = Authorized \<and> d_binding d = Some bd \<and>
     resolve P cfg p now = Inr ([], Some b) \<and> binding_eq b bd \<and>
     rs_authority_effect_snapshot (cf_resolver cfg) (context_ref p) = Inr (Some sn) \<and>
     sn_grant_status sn = Some st \<and> gs_status st = GrantActive \<and>
     gs_grant_id st = lc_grant_id c \<and> gs_revision st = lc_grant_revision c \<and> lc_grant_id c = b_grant_id bd \<and>
     lc_decision_id c = d_decision_id d \<and> lc_effect_id c = d_effect_id d \<and>
     lc_target c = p_target p \<and> lc_amount c = p_amount p \<and> lc_unit c = p_unit p \<and> lc_effects c = p_effects p \<and>
     lc_actor c = p_actor p \<and> lc_principal c = p_principal p \<and> lc_payload_commitment c = p_payload_commitment p \<and>
     lc_max_effects c = b_effective_max_effects bd \<and> lc_tenant_id c = b_tenant_id bd \<and>
     claim_reflects P t bd sn c \<and>
     (case provision of None \<Rightarrow> sink' = sink | Some pv \<Rightarrow> pv c sink = (Inr (), sink'))"
  using assms
proof (cases rule: materialize_cases)
  case (refused e)
  then show ?thesis by simp
next
  case (issued t persisted bd c')
  have c': "c' = c" and sink: "case provision of None \<Rightarrow> sink' = sink | Some pv \<Rightarrow> pv c sink = (Inr (), sink')"
    using issued(8) by (auto simp: bindE_Inr_iff prod_eq_iff split: option.splits)
  from issued(7) [unfolded c'] show ?thesis
  proof (rule issue_under_handoff_cases)
    fix b sn inst grant st aps pps eps iv iid adom op
    assume res: "resolve P cfg p (Aware t) = Inr ([], Some b)" and eq: "binding_eq b bd"
      and sn: "rs_authority_effect_snapshot (cf_resolver cfg) (context_ref p) = Inr (Some sn)"
      and v: "validate_issuance_snapshot P cfg bd sn t = Inr (inst, grant, st, aps, pps, eps)"
      and c: "c = seal P (unsealed_claim P p d b iu nid iid adom st aps pps eps (commitment P (PDict op)) iv t)"
    note vs = validated_snapshot [OF v] and be = binding_eq_fields [OF eq]
    have fields: "lc_grant_id c = b_grant_id bd" "lc_grant_revision c = b_grant_revision bd"
      "lc_decision_id c = d_decision_id d" "lc_effect_id c = d_effect_id d" "lc_target c = p_target p"
      "lc_amount c = p_amount p" "lc_unit c = p_unit p" "lc_effects c = p_effects p" "lc_actor c = p_actor p"
      "lc_principal c = p_principal p" "lc_payload_commitment c = p_payload_commitment p"
      "lc_max_effects c = b_effective_max_effects bd" "lc_tenant_id c = b_tenant_id bd"
      "lc_approval_state c = aps" "lc_policy_state c = pps" "lc_evidence_state c = eps"
      by (simp_all add: c seal_def unsealed_claim_def be)
    show ?thesis
      by (intro exI [of _ t] exI [of _ persisted] exI [of _ bd] exI [of _ b] exI [of _ sn] exI [of _ st])
        (use issued res eq sn vs sink in \<open>simp add: fields\<close>)
  qed
qed

text \<open>
  C14. A claim never outlives its authority: its interval begins no earlier than the grant and the
  proposal allow, ends no later than the grant, the proposal and the requested expiry, is not empty
  and has not ended at the time of issue; and a sink's state changes only through one provisioning
  call, on a claim that verifies.
\<close>

theorem claim_within_validity:
  assumes "materialize_under_handoff P cfg has f p d now iu nid provision sink = (r, sink')"
  shows "(r = Inr c \<longrightarrow> (\<exists>t. now = Aware t \<and> claim_times_within P cfg p iu t c)) \<and>
     (sink' \<noteq> sink \<longrightarrow> (\<exists>pv c. provision = Some pv \<and> sink' = snd (pv c sink) \<and> verify_claim P c))"
  using assms
proof (cases rule: materialize_cases)
  case (refused e)
  then show ?thesis by simp
next
  case (issued t persisted bd c')
  have rc: "r = Inr c \<Longrightarrow> c = c'" using issued(8) by (auto simp: bindE_Inr_iff split: option.splits)
  have "sink' \<noteq> sink \<Longrightarrow> \<exists>pv. provision = Some pv \<and> sink' = snd (pv c' sink)"
    using issued(8) by (auto split: option.splits)
  with rc issued(1) issued_times [OF issued(7)] issued_verifies [OF issued(7)] show ?thesis
    by blast
qed

text \<open>
  An issued claim verifies and cannot be altered: a claim that issuance returned verifies, and
  any document that verifies under the same claim commitment, barring a digest collision between
  the two, agrees with the claim in every field (nested objects up to the order of keys).
\<close>

theorem issued_claim_tamper_evident:
  assumes "materialize_under_handoff P cfg has f p d now iu nid provision sink = (Inr c, sink')"
    and "float_repr_ok P" "verify_claim_doc P doc" "distinct (map fst doc)"
    and "dget doc ''claim_commitment'' = PStr (lc_claim_commitment c)"
    and "no_collision P (PDict (without_key ''claim_commitment'' doc)) (PDict (claim_doc c))"
  shows "verify_claim P c \<and> map_option key_norm (map_of doc k) = map_option key_norm (map_of (dump_claim c) k)"
proof -
  have ver: "verify_claim P c" by (rule issued_claim_verifies [OF assms(1)])
  have "commitment P (PDict (without_key ''claim_commitment'' doc)) = commitment P (PDict (claim_doc c))"
    using assms(3,5) ver by (simp add: verify_claim_doc_def Let_def verify_claim_iff)
  from commitment_binding [OF assms(2,6) this]
  have fields: "map_option key_norm (map_of (without_key ''claim_commitment'' doc) k) =
      map_option key_norm (map_of (claim_doc c) k)"
    by (rule key_norm_lookup) (simp_all add: distinct_without assms(4) distinct_claim_doc)
  show ?thesis
  proof (cases "k = ''claim_commitment''")
    case True
    have "map_of doc k = Some (PStr (lc_claim_commitment c))"
      using assms(5) True by (simp add: dget_or_def split: option.splits)
    moreover have "map_of (dump_claim c) k = Some (PStr (lc_claim_commitment c))"
      using dump_claim_commitment [of c] True by (simp add: dget_or_def split: option.splits)
    ultimately show ?thesis using ver by simp
  next
    case False
    with fields map_of_without [OF False] ver show ?thesis
      by (metis without_commitment map_of_without)
  qed
qed

section \<open>Witnesses\<close>

definition demo_issuance :: issuance where
  "demo_issuance = \<lparr>iu_claim_id = Some ''claim'', iu_budget_id = None, iu_expires_at = None,
     iu_input_commitment = None, iu_input_profile = None\<rparr>"

definition demo_snapshot :: snapshot where
  "demo_snapshot = \<lparr>sn_context = demo_context, sn_grant_status = Some (demo_grant_status GrantActive),
     sn_approvals = [(''appr'', demo_approval)],
     sn_policies = [(''pol'', the (sy_policies (demo_synthetic GrantActive) ''pol''))],
     sn_evidence = [(''ev'', the (sy_evidence (demo_synthetic GrantActive) ''ev''))]\<rparr>"

lemma demo_snapshot_read:
  "rs_authority_effect_snapshot (cf_resolver (demo_config GrantActive)) (context_ref demo_proposal) =
     Inr (Some demo_snapshot)"
  by (simp add: synthetic_snapshot_def known_def raw_lookup_def context_ref_def demo_snapshot_def demo_simps
      appendE_def Let_def)

lemma demo_validated:
  "\<exists>aps pps eps. validate_issuance_snapshot demo_prims (demo_config GrantActive) demo_binding demo_snapshot 100000000 =
     Inr (dget demo_context ''institution'', PDict demo_grant, demo_grant_status GrantActive, aps, pps, eps)"
proof -
  have pe: "policies_eq (as_policy_versions demo_approval) (b_policy_versions demo_binding)"
    using policies_eq_refl [of "b_policy_versions demo_binding"] by (simp add: demo_binding_def demo_approval_def)
  have "project_approval demo_binding (dget demo_context ''institution'') (sn_approvals demo_snapshot) (PStr ''appr'') =
      Inr \<lparr>ap_approval_ref = ''appr'', ap_role_id = ''urn:role:manager'', ap_approver = ''carol'',
        ap_status = ApprovalActive, ap_grant_id = ''g'', ap_grant_revision = ''r1'',
        ap_proposal_commitment = proposal_commitment demo_prims demo_proposal,
        ap_policy_versions = as_policy_versions demo_approval, ap_observed_at = ''T90000000'', ap_tenant_id = None\<rparr>"
    using pe by (simp add: project_approval_def deny_if_def elsewhere_def other_tenant_def demo_snapshot_def demo_simps)
  moreover have "\<exists>x. project_policy demo_binding (dget demo_context ''institution'') (sn_policies demo_snapshot)
      [(''ref'', PStr ''pol''), (''version'', PStr ''v1'')] = Inr x"
    by (simp add: project_policy_def deny_if_def elsewhere_def other_tenant_def demo_snapshot_def demo_simps)
  moreover have "\<exists>x. project_evidence demo_prims (demo_config GrantActive) (dget demo_context ''institution'') 100000000
      (sn_evidence demo_snapshot) (PDict [(''obligation_id'', PStr ''ev''), (''required'', PBool True),
         (''kind'', PStr ''authorization''), (''source_ref'', PStr ''src''), (''max_age_seconds'', PInt 60)]) = Inr x"
    by (simp add: project_evidence_def critical_def deny_if_def elsewhere_def demo_snapshot_def demo_simps)
  ultimately show ?thesis
    by (auto simp: validate_issuance_snapshot_def check_scope_def check_grant_status_def deny_if_def elsewhere_def
        other_tenant_def appendE_def demo_snapshot_def demo_simps Let_def)
qed

lemma demo_issues:
  "\<exists>c. issue_under_handoff demo_prims (demo_config GrantActive) demo_proposal demo_decision demo_binding 100000000
     demo_issuance ''id'' = Inr c"
proof -
  from demo_validated obtain aps pps eps where v: "validate_issuance_snapshot demo_prims (demo_config GrantActive)
     demo_binding demo_snapshot 100000000 =
     Inr (dget demo_context ''institution'', PDict demo_grant, demo_grant_status GrantActive, aps, pps, eps)" by blast
  have iv: "claim_interval demo_prims (PDict demo_grant) demo_proposal (iu_expires_at demo_issuance) 100000000 =
      Inr (0, 900000000)"
    by (simp add: claim_interval_def given_text_def demo_issuance_def demo_simps)
  have inst: "vget (dget demo_context ''institution'') ''institution_id'' = Inr (PStr ''inst'')"
    "vget (dget demo_context ''institution'') ''authority_domain'' = Inr (PStr ''money'')"
    by (simp_all add: demo_context_def dget_or_def)
  obtain op where "operation_payload demo_proposal demo_binding (PStr ''inst'') (PStr ''money'') = Inr op"
    by (simp add: operation_payload_def demo_binding_def Let_def)
  then show ?thesis
    by (simp add: issue_under_handoff_def demo_resolves demo_binding_eq demo_snapshot_read v iv inst expect_str_def)
qed

definition demo_sink :: "local_claim \<Rightarrow> local_claim list \<Rightarrow> unit res \<times> local_claim list" where
  "demo_sink c s = (Inr (), c # s)"

lemma demo_claim:
  obtains c where "materialize_under_handoff demo_prims (demo_config GrantActive) True (w_store demo_decided) demo_proposal
     demo_decision demo_now demo_issuance ''id'' (Some demo_sink) [] = (Inr c, [c])"
proof -
  from demo_issues obtain c where c: "issue_under_handoff demo_prims (demo_config GrantActive) demo_proposal
     demo_decision demo_binding 100000000 demo_issuance ''id'' = Inr c" by blast
  have "issuable demo_decision (Some demo_decision) = Inr demo_binding"
    by (simp add: issuable_def decision_eq_def demo_binding_eq demo_decision_def)
  then show thesis
    by (intro that [of c]) (simp add: materialize_under_handoff_def demo_stored c demo_sink_def)
qed

lemma claim_needs_live_authority_witness:
  "\<exists>c :: local_claim. lc_target c = ''acct-1'' \<and> lc_amount c = 40 \<and> lc_grant_id c = ''g''"
proof -
  obtain c where "materialize_under_handoff demo_prims (demo_config GrantActive) True (w_store demo_decided) demo_proposal
     demo_decision demo_now demo_issuance ''id'' (Some demo_sink) [] = (Inr c, [c])" by (rule demo_claim)
  from claim_needs_live_authority [OF this] show ?thesis
    by (intro exI [of _ c]) (auto simp: demo_proposal_def demo_decision_def demo_binding_def)
qed

lemma claim_within_validity_witness:
  "\<exists>c. claim_times_within demo_prims (demo_config GrantActive) demo_proposal demo_issuance 100000000 c \<and>
     verify_claim demo_prims c"
proof -
  obtain c where c: "materialize_under_handoff demo_prims (demo_config GrantActive) True (w_store demo_decided) demo_proposal
     demo_decision demo_now demo_issuance ''id'' (Some demo_sink) [] = (Inr c, [c])" by (rule demo_claim)
  from claim_within_validity [OF c, of c] show ?thesis
    by (intro exI [of _ c]) (auto simp: demo_sink_def)
qed

text \<open>The example under a float printer with the assumed properties: the issued claim itself is a document.\<close>

lemma verify_dump: "verify_claim P c \<Longrightarrow> verify_claim_doc P (dump_claim c)"
  by (simp add: verify_claim_def)

lemma distinct_dump_claim: "distinct (map fst (dump_claim c))"
  by (cases "lc_tenant_id c") (simp_all add: dump_claim_def claim_fields_def tenant_claim_fields_def)

lemma issued_claim_tamper_evident_witness:
  "\<exists>c. verify_claim demo_prims c \<and>
     map_option key_norm (map_of (dump_claim c) ''target'') = map_option key_norm (map_of (dump_claim c) ''target'')"
proof -
  obtain c where c: "materialize_under_handoff demo_prims (demo_config GrantActive) True (w_store demo_decided) demo_proposal
     demo_decision demo_now demo_issuance ''id'' (Some demo_sink) [] = (Inr c, [c])" by (rule demo_claim)
  from issued_claim_verifies [OF c] have "verify_claim demo_prims c" .
  from issued_claim_tamper_evident [OF c demo_floats verify_dump [OF this] distinct_dump_claim dump_claim_commitment]
  show ?thesis by (auto simp: without_commitment no_collision_def)
qed

end
