(* ===== verification/DecisionInput.thy ===== *)
theory DecisionInput
  imports PyTime CanonicalJson
begin

text \<open>
  The proposed decision-input profile (\<open>decision_input_profile.py\<close>): the verifier of a standalone
  record. A record is a raw document. \<open>ProfileValidationError\<close> is an exception whose class is held
  as its code; the exceptions Python raises by itself (an unhashable value looked up in a set, a
  value that cannot be iterated) are the other classes.
\<close>

definition PROFILE_VERSION :: string where
  "PROFILE_VERSION = ''0.1.0-proposed''"

definition CANONICALIZATION_PROFILE :: string where
  "CANONICALIZATION_PROFILE = ''json-sort-keys-compact-utf8-no-nan-python-semantics-v0.1-proposed''"

definition COMMITMENT_ALGORITHM :: string where
  "COMMITMENT_ALGORITHM = ''SHA-256''"

definition SUPPORTED_RESOLUTION_SEMANTICS_ID :: string where
  "SUPPORTED_RESOLUTION_SEMANTICS_ID = ''urn:cognous:resolver:required-evidence-v1''"

definition SUPPORTED_CLASSIFICATION_SEMANTICS :: pyval where
  "SUPPORTED_CLASSIFICATION_SEMANTICS = PDict
     [(''classifier'', PStr ''exact-source-current-with-max-age''), (''version'', PStr ''1''),
      (''admissible_source'', PStr ''exact-match''), (''future_observation'', PStr ''reject''),
      (''precedence'', PList [PStr ''CONFLICT'', PStr ''UNKNOWN'', PStr ''STALE'', PStr ''MISSING'', PStr ''VALID''])]"

definition REASON_PRECEDENCE :: "string list" where
  "REASON_PRECEDENCE = [''INPUT_INVALID'', ''CANDIDATE_BINDING_FAILED'', ''INSTITUTIONAL_REQUIREMENT_FAILED'',
     ''POLICY_BINDING_FAILED'', ''EVIDENCE_UNSATISFIED'', ''CONTEXT_OR_TIME_FAILED'',
     ''RESOLVER_SEMANTICS_FAILED'', ''DECISION_INCONSISTENT'']"

definition ALLOWED_ASSURANCE_CLASSES :: "string list" where
  "ALLOWED_ASSURANCE_CLASSES = [''trusted_declaration'', ''locally_recomputable_commitment'',
     ''authenticated_source'', ''externally_verified_fact'']"

definition ALLOWED_EVIDENCE_STATES :: "string list" where
  "ALLOWED_EVIDENCE_STATES = [''current'', ''unknown'', ''conflict'']"

text \<open>The evidence states, sorted, as an error message shows them.\<close>

definition shown_states :: string where
  "shown_states = ''['' @ [CHR 0x27] @ ''conflict'' @ [CHR 0x27] @ '', '' @ [CHR 0x27] @ ''current'' @ [CHR 0x27] @
     '', '' @ [CHR 0x27] @ ''unknown'' @ [CHR 0x27] @ '']''"

section \<open>Requirements on a value\<close>

definition invalid :: "string \<Rightarrow> string \<Rightarrow> 'a res" where
  "invalid code message = throw_msg (OtherError code) message"

definition ensure :: "bool \<Rightarrow> string \<Rightarrow> string \<Rightarrow> unit res" where
  "ensure c code message = (if c then Inr () else invalid code message)"

definition parse_profile_time :: "prims \<Rightarrow> string \<Rightarrow> pyval \<Rightarrow> int res" where
  "parse_profile_time P code v = (case v of
      PStr s \<Rightarrow> if blank s then invalid code ''timestamp must be a non-empty string''
        else (case fromisoformat P (replace_Z s) of
            None \<Rightarrow> invalid code ''timestamp is malformed''
          | Some (Naive _) \<Rightarrow> invalid code ''timestamp must include a timezone''
          | Some (Aware t) \<Rightarrow> Inr t)
    | _ \<Rightarrow> invalid code ''timestamp must be a non-empty string'')"

definition require_dict :: "string \<Rightarrow> pyval \<Rightarrow> pydict res" where
  "require_dict path v = (case v of PDict d \<Rightarrow> Inr d | _ \<Rightarrow> invalid ''INPUT_INVALID'' (path @ '' must be an object''))"

definition require_list :: "string \<Rightarrow> pyval \<Rightarrow> pyval list res" where
  "require_list path v = (case v of PList xs \<Rightarrow> Inr xs | _ \<Rightarrow> invalid ''INPUT_INVALID'' (path @ '' must be an array''))"

definition require_text :: "string \<Rightarrow> pyval \<Rightarrow> string res" where
  "require_text path v = (case v of
      PStr s \<Rightarrow> if blank s then invalid ''INPUT_INVALID'' (path @ '' must be a non-empty string'') else Inr s
    | _ \<Rightarrow> invalid ''INPUT_INVALID'' (path @ '' must be a non-empty string''))"

definition require_dicts :: "string \<Rightarrow> pyval \<Rightarrow> pydict list res" where
  "require_dicts name v = bindE (require_list name v) (mapE (require_dict (name @ ''[]'')))"

definition digest_text :: "pyval \<Rightarrow> bool" where
  "digest_text v = (case v of PStr s \<Rightarrow> starts_with ''sha256:'' s | _ \<Rightarrow> False)"

definition verify_named_commitment :: "prims \<Rightarrow> pydict \<Rightarrow> string \<Rightarrow> string \<Rightarrow> string \<Rightarrow> unit res" where
  "verify_named_commitment P d value_key commitment_key code = (case map_of d value_key of
      None \<Rightarrow> invalid ''INPUT_INVALID'' (''missing '' @ value_key)
    | Some v \<Rightarrow>
        bindE (ensure (digest_text (dget d commitment_key)) ''INPUT_INVALID'' (''missing or malformed '' @ commitment_key)) (\<lambda>_.
          ensure (dget d commitment_key = PStr (commitment P v)) code
            (commitment_key @ '' does not match '' @ value_key)))"

text \<open>\<open>v not in S\<close> for a set of strings; an unhashable value raises.\<close>

definition one_of :: "string list \<Rightarrow> pyval \<Rightarrow> bool res" where
  "one_of xs v = (if hashable v then Inr (v \<in> PStr ` set xs) else throw TypeError)"

section \<open>Obligations\<close>

definition obligation_semantic_payload :: "pydict \<Rightarrow> pyval" where
  "obligation_semantic_payload d = PDict (map (\<lambda>k. (k, dget d k))
     [''obligation_id'', ''policy_origin_ref'', ''policy_origin_version'', ''required'', ''source_ref'',
      ''max_age_seconds'', ''resolution_semantics_id'', ''resolution_semantics_commitment''])"

definition validate_obligation_fields :: "pydict \<Rightarrow> string res" where
  "validate_obligation_fields d =
     bindE (require_text ''evidence_obligations[].obligation_id'' (dget d ''obligation_id'')) (\<lambda>oid.
     bindE (require_text (''obligation '' @ oid @ ''.policy_origin_ref'') (dget d ''policy_origin_ref'')) (\<lambda>_.
     bindE (require_text (''obligation '' @ oid @ ''.policy_origin_version'') (dget d ''policy_origin_version'')) (\<lambda>_.
     bindE (ensure (case dget d ''required'' of PBool _ \<Rightarrow> True | _ \<Rightarrow> False)
         ''OBLIGATION_REQUIRED_INVALID'' (''obligation '' @ oid @ ''.required must be boolean'')) (\<lambda>_.
     bindE (require_text (''obligation '' @ oid @ ''.source_ref'') (dget d ''source_ref'')) (\<lambda>_.
     bindE (ensure (case dget d ''max_age_seconds'' of PInt n \<Rightarrow> 0 \<le> n | _ \<Rightarrow> False)
         ''EVIDENCE_FRESHNESS_INVALID'' (''obligation '' @ oid @ ''.max_age_seconds must be a non-negative integer'')) (\<lambda>_.
     bindE (require_text (''obligation '' @ oid @ ''.resolution_semantics_id'') (dget d ''resolution_semantics_id'')) (\<lambda>_.
     bindE (ensure (digest_text (dget d ''resolution_semantics_commitment''))
         ''INPUT_INVALID'' (''obligation '' @ oid @ ''.resolution_semantics_commitment must be sha256'')) (\<lambda>_.
       Inr oid))))))))"

text \<open>One policy, given the keys seen before; and all policies.\<close>

definition check_policy :: "prims \<Rightarrow> (string \<times> string) list \<Rightarrow> pydict \<Rightarrow> (string \<times> string) res" where
  "check_policy P seen d =
     bindE (require_text ''policies[].ref'' (dget d ''ref'')) (\<lambda>ref.
     bindE (require_text ''policies[].version'' (dget d ''version'')) (\<lambda>version.
     bindE (ensure ((ref, version) \<notin> set seen) ''INPUT_INVALID'' ''duplicate policy ref/version'') (\<lambda>_.
     bindE (verify_named_commitment P d ''content'' ''content_commitment'' ''POLICY_CONTENT_COMMITMENT_MISMATCH'') (\<lambda>_.
     bindE (verify_named_commitment P d ''evaluation_semantics'' ''evaluation_semantics_commitment''
         ''POLICY_SEMANTICS_COMMITMENT_MISMATCH'') (\<lambda>_.
       Inr (ref, version))))))"

primrec check_policies :: "prims \<Rightarrow> pydict list \<Rightarrow> (string \<times> string) list \<Rightarrow> (string \<times> string) list res" where
  "check_policies P [] seen = Inr seen"
| "check_policies P (d # ds) seen = bindE (check_policy P seen d) (\<lambda>k. check_policies P ds (seen @ [k]))"

definition validate_resolver_semantics :: "prims \<Rightarrow> pydict \<Rightarrow> pyval res" where
  "validate_resolver_semantics P d =
     bindE (verify_named_commitment P d ''classification_semantics'' ''classification_semantics_commitment''
        ''RESOLVER_SEMANTICS_COMMITMENT_MISMATCH'') (\<lambda>_.
     bindE (ensure (py_eq (dget d ''classification_semantics'') SUPPORTED_CLASSIFICATION_SEMANTICS)
        ''UNSUPPORTED_RESOLVER_SEMANTICS''
        ''declared classification semantics are not implemented by this proposed verifier'') (\<lambda>_.
       Inr (dget d ''classification_semantics_commitment'')))"

text \<open>One obligation, given those accepted before; and all obligations by id.\<close>

definition check_obligation ::
  "prims \<Rightarrow> pyval \<Rightarrow> (string \<times> string) list \<Rightarrow> (string \<times> pydict) list \<Rightarrow> pydict \<Rightarrow> string res" where
  "check_obligation P semantics policies seen d =
     bindE (validate_obligation_fields d) (\<lambda>oid.
     bindE (ensure (oid \<notin> fst ` set seen) ''INPUT_INVALID'' ''duplicate obligation_id'') (\<lambda>_.
     bindE (ensure ((dget d ''policy_origin_ref'', dget d ''policy_origin_version'') \<in>
                     (\<lambda>(r, v). (PStr r, PStr v)) ` set policies)
         ''POLICY_BINDING_FAILED'' (''obligation '' @ oid @ '' has unknown policy origin'')) (\<lambda>_.
     bindE (ensure (dget d ''obligation_commitment'' = PStr (commitment P (obligation_semantic_payload d)))
         ''OBLIGATION_COMMITMENT_MISMATCH'' (''obligation '' @ oid @ '' commitment mismatch'')) (\<lambda>_.
     bindE (ensure (dget d ''resolution_semantics_id'' = PStr SUPPORTED_RESOLUTION_SEMANTICS_ID \<and>
                    dget d ''resolution_semantics_commitment'' = semantics)
         ''OBLIGATION_RESOLVER_SEMANTICS_MISMATCH''
         (''obligation '' @ oid @ '' does not bind the supported declared resolver semantics'')) (\<lambda>_.
       Inr oid)))))"

primrec check_obligations ::
  "prims \<Rightarrow> pyval \<Rightarrow> (string \<times> string) list \<Rightarrow> pydict list \<Rightarrow> (string \<times> pydict) list \<Rightarrow> (string \<times> pydict) list res" where
  "check_obligations P semantics policies [] seen = Inr seen"
| "check_obligations P semantics policies (d # ds) seen =
     bindE (check_obligation P semantics policies seen d) (\<lambda>oid.
       check_obligations P semantics policies ds (seen @ [(oid, d)]))"

section \<open>Institutional requirements\<close>

definition check_expected_obligation :: "(string \<times> pydict) list \<Rightarrow> pydict \<Rightarrow> string \<times> pyval \<Rightarrow> unit res" where
  "check_expected_obligation obligations requirement = (\<lambda>(oid, expected).
     case map_of obligations oid of
       None \<Rightarrow> invalid ''INSTITUTIONAL_OBLIGATION_REMOVED'' (''institutional obligation '' @ oid @ '' missing'')
     | Some d \<Rightarrow>
         bindE (ensure (py_eq (dget d ''obligation_commitment'') expected)
             ''INSTITUTIONAL_OBLIGATION_REINTERPRETED'' (''institutional obligation '' @ oid @ '' changed'')) (\<lambda>_.
           ensure (py_eq (dget d ''policy_origin_ref'') (dget requirement ''policy_origin_ref''))
             ''INSTITUTIONAL_OBLIGATION_REINTERPRETED'' (''institutional obligation '' @ oid @ '' origin changed'')))"

definition check_requirement :: "prims \<Rightarrow> (string \<times> pydict) list \<Rightarrow> pydict \<Rightarrow> unit res" where
  "check_requirement P obligations d =
     bindE (verify_named_commitment P d ''content'' ''commitment'' ''INSTITUTIONAL_REQUIREMENT_COMMITMENT_MISMATCH'') (\<lambda>_.
     bindE (ensure (dget d ''non_overridable'' = PBool True) ''INSTITUTIONAL_REQUIREMENT_FAILED''
        ''institutional requirement must be non-overridable'') (\<lambda>_.
     bindE (require_dict ''institutional_requirements[].obligation_commitments'' (dget d ''obligation_commitments'')) (\<lambda>expected.
     bindE (mapE (check_expected_obligation obligations d) expected) (\<lambda>_. Inr ()))))"

section \<open>Evidence\<close>

text \<open>Each obligation an item names is known and admits the item's source.\<close>

definition check_item_obligation :: "(string \<times> pydict) list \<Rightarrow> string \<Rightarrow> string \<Rightarrow> string \<Rightarrow> unit res" where
  "check_item_obligation obligations evidence_id source oid = (case map_of obligations oid of
      None \<Rightarrow> invalid ''EVIDENCE_OBLIGATION_UNKNOWN''
        (''evidence '' @ evidence_id @ '' references unknown obligation '' @ oid)
    | Some d \<Rightarrow> ensure (dget d ''source_ref'' = PStr source) ''EVIDENCE_SOURCE_MISMATCH''
        (''evidence '' @ evidence_id @ '' source '' @ source @ '' is not admissible for obligation '' @ oid))"

definition validate_evidence_item_fields ::
  "prims \<Rightarrow> (string \<times> pydict) list \<Rightarrow> int \<Rightarrow> pydict \<Rightarrow> unit res" where
  "validate_evidence_item_fields P obligations evaluation_time d =
     bindE (require_text ''evidence_items[].evidence_id'' (dget d ''evidence_id'')) (\<lambda>eid.
     bindE (require_list (''evidence '' @ eid @ ''.obligation_ids'') (dget d ''obligation_ids'')) (\<lambda>oids.
     bindE (ensure (oids \<noteq> []) ''INPUT_INVALID'' (''evidence '' @ eid @ ''.obligation_ids must not be empty'')) (\<lambda>_.
     bindE (ensure (list_all (\<lambda>v. case v of PStr s \<Rightarrow> s \<noteq> [] | _ \<Rightarrow> False) oids) ''INPUT_INVALID''
        (''evidence '' @ eid @ ''.obligation_ids must contain strings'')) (\<lambda>_.
     bindE (ensure (distinct oids) ''INPUT_INVALID'' (''evidence '' @ eid @ ''.obligation_ids contains duplicates'')) (\<lambda>_.
     bindE (require_text (''evidence '' @ eid @ ''.source_ref'') (dget d ''source_ref'')) (\<lambda>source.
     bindE (mapE (\<lambda>v. check_item_obligation obligations eid source (str_of v)) oids) (\<lambda>_.
     bindE (parse_profile_time P ''EVIDENCE_TIME_INVALID'' (dget d ''observed_at'')) (\<lambda>observed.
     bindE (ensure (observed \<le> evaluation_time) ''EVIDENCE_TIME_FUTURE''
        (''evidence '' @ eid @ ''.observed_at is after evaluation_time'')) (\<lambda>_.
     bindE (ensure (dget d ''declared_state'' \<in> PStr ` set ALLOWED_EVIDENCE_STATES) ''EVIDENCE_STATE_INVALID''
        (''evidence '' @ eid @ ''.declared_state must be one of '' @ shown_states)) (\<lambda>_.
     bindE (require_dict (''evidence '' @ eid @ ''.provenance'') (dget d ''provenance'')) (\<lambda>provenance.
     bindE (require_text (''evidence '' @ eid @ ''.provenance.source_ref'') (dget provenance ''source_ref'')) (\<lambda>origin.
       ensure (origin = source) ''EVIDENCE_PROVENANCE_SOURCE_MISMATCH''
        (''evidence '' @ eid @ '' provenance source does not match evidence source'')))))))))))))"

definition check_item :: "prims \<Rightarrow> (string \<times> pydict) list \<Rightarrow> int \<Rightarrow> pydict \<Rightarrow> unit res" where
  "check_item P obligations evaluation_time d =
     bindE (verify_named_commitment P d ''content'' ''content_commitment'' ''EVIDENCE_CONTENT_COMMITMENT_MISMATCH'') (\<lambda>_.
     bindE (verify_named_commitment P d ''provenance'' ''provenance_commitment'' ''EVIDENCE_PROVENANCE_COMMITMENT_MISMATCH'') (\<lambda>_.
     bindE (one_of ALLOWED_ASSURANCE_CLASSES (dget d ''assurance_class'')) (\<lambda>known.
     bindE (ensure known ''INPUT_INVALID'' ''invalid evidence assurance class'') (\<lambda>_.
       validate_evidence_item_fields P obligations evaluation_time d))))"

text \<open>\<open>_evidence_status\<close>, on items already validated.\<close>

datatype evidence_class = Missing | Conflict | Unknown | Stale | Valid

fun evidence_class_str :: "evidence_class \<Rightarrow> string" where
  "evidence_class_str Missing = ''MISSING''"
| "evidence_class_str Conflict = ''CONFLICT''"
| "evidence_class_str Unknown = ''UNKNOWN''"
| "evidence_class_str Stale = ''STALE''"
| "evidence_class_str Valid = ''VALID''"

definition item_of :: "string \<Rightarrow> pydict \<Rightarrow> bool" where
  "item_of oid d = (case dget d ''obligation_ids'' of PList xs \<Rightarrow> PStr oid \<in> set xs | _ \<Rightarrow> False)"

text \<open>The loop over the candidates: the first stale one ends it.\<close>

primrec any_stale :: "prims \<Rightarrow> int \<Rightarrow> int \<Rightarrow> pydict list \<Rightarrow> bool res" where
  "any_stale P evaluation_time max_age [] = Inr False"
| "any_stale P evaluation_time max_age (d # ds) =
     bindE (parse_profile_time P ''EVIDENCE_TIME_INVALID'' (dget d ''observed_at'')) (\<lambda>observed.
       if evaluation_time - observed > seconds max_age then Inr True
       else any_stale P evaluation_time max_age ds)"

definition max_age_of :: "pydict \<Rightarrow> int" where
  "max_age_of d = (case dget d ''max_age_seconds'' of PInt n \<Rightarrow> n | _ \<Rightarrow> 0)"

definition evidence_status_of ::
  "prims \<Rightarrow> string \<Rightarrow> pydict \<Rightarrow> pydict list \<Rightarrow> int \<Rightarrow> evidence_class res" where
  "evidence_status_of P oid obligation items evaluation_time =
     (let candidates = filter (item_of oid) items;
          states = map (\<lambda>d. dget d ''declared_state'') candidates
      in if candidates = [] then Inr Missing
         else if PStr ''conflict'' \<in> set states \<or>
                 length (remdups (map (\<lambda>d. dget d ''content_commitment'') candidates)) > 1 then Inr Conflict
         else if PStr ''unknown'' \<in> set states then Inr Unknown
         else bindE (any_stale P evaluation_time (max_age_of obligation) candidates) (\<lambda>stale.
           if stale then Inr Stale
           else Inr (if set states = {PStr ''current''} then Valid else Unknown)))"

definition check_status ::
  "prims \<Rightarrow> pydict list \<Rightarrow> int \<Rightarrow> string \<times> pydict \<Rightarrow> (string \<times> evidence_class) res" where
  "check_status P items evaluation_time = (\<lambda>(oid, d).
     bindE (evidence_status_of P oid d items evaluation_time) (\<lambda>status.
     bindE (ensure (\<not> (truthy (dget d ''required'') \<and> status \<noteq> Valid)) (''EVIDENCE_'' @ evidence_class_str status)
        (''required obligation '' @ oid @ '' resolved '' @ evidence_class_str status)) (\<lambda>_.
       Inr (oid, status))))"

section \<open>The record\<close>

definition check_assurance :: "pydict \<Rightarrow> unit res" where
  "check_assurance assurance = bindE (mapE (\<lambda>(name, c).
     bindE (one_of ALLOWED_ASSURANCE_CLASSES c) (\<lambda>known.
       ensure known ''INPUT_INVALID'' (''invalid assurance class for '' @ name))) assurance) (\<lambda>_. Inr ())"

definition decision_input_payload :: "pydict \<Rightarrow> pyval" where
  "decision_input_payload d = PDict (map (\<lambda>k. (k, dget d k))
     [''profile_version'', ''canonicalization_profile'', ''commitment_algorithm'', ''candidate'',
      ''institutional_requirements'', ''policies'', ''evidence_obligations'', ''evidence_items'', ''context'',
      ''evaluation_time'', ''resolver_semantics'', ''assurance''])"

definition check_decision :: "prims \<Rightarrow> pydict \<Rightarrow> pydict \<Rightarrow> unit res" where
  "check_decision P d decision =
     bindE (ensure (dget decision ''input_commitment'' = PStr (commitment P (decision_input_payload d)))
        ''DECISION_INPUT_COMMITMENT_MISMATCH'' ''decision input commitment does not match closed inputs'') (\<lambda>_.
     bindE (py_iter (dget_or decision ''reason_precedence'' (PList []))) (\<lambda>precedence.
     bindE (ensure (precedence = map PStr REASON_PRECEDENCE)
        ''DECISION_REASON_PRECEDENCE_MISMATCH'' ''reason precedence differs from profile'') (\<lambda>_.
     bindE (one_of [''authorized'', ''hold'', ''deny''] (dget decision ''result'')) (\<lambda>known.
     bindE (ensure known ''INPUT_INVALID'' ''unsupported decision result'') (\<lambda>_.
       ensure (case dget decision ''primary_reason'' of PStr _ \<Rightarrow> True | _ \<Rightarrow> False)
        ''INPUT_INVALID'' ''primary_reason required'')))))"

record profile_facts =
  pf_record_commitment :: string
  pf_evidence_statuses :: "(string \<times> evidence_class) list"

text \<open>The document the verifier returns for the facts it established.\<close>

definition facts_doc :: "profile_facts \<Rightarrow> pyval" where
  "facts_doc f = PDict
     [(''valid'', PBool True), (''record_commitment'', PStr (pf_record_commitment f)),
      (''evidence_statuses'', PDict (map (\<lambda>(k, c). (k, PStr (evidence_class_str c))) (pf_evidence_statuses f))),
      (''assurance_scope'', PStr ''classification labels are declarations unless separately authenticated or verified''),
      (''independent_external_truth_verified'', PBool False), (''authorizing'', PBool False)]"

text \<open>\<open>verify_record\<close>: the header, the bindings, the evidence, and the closing commitments.\<close>

definition check_header :: "prims \<Rightarrow> pydict \<Rightarrow> unit res" where
  "check_header P d =
     bindE (ensure (dget d ''profile_version'' = PStr PROFILE_VERSION) ''INPUT_INVALID''
        ''unsupported proposed profile version'') (\<lambda>_.
     bindE (ensure (dget d ''authorizing'' = PBool False) ''INPUT_INVALID''
        ''profile record must be explicitly non-authorizing'') (\<lambda>_.
     bindE (ensure (dget d ''canonicalization_profile'' = PStr CANONICALIZATION_PROFILE) ''INPUT_INVALID''
        ''canonicalization profile mismatch'') (\<lambda>_.
     bindE (ensure (dget d ''commitment_algorithm'' = PStr COMMITMENT_ALGORITHM) ''INPUT_INVALID''
        ''commitment algorithm mismatch'') (\<lambda>_.
     bindE (require_dict ''candidate'' (dget d ''candidate'')) (\<lambda>candidate.
     bindE (verify_named_commitment P candidate ''materialized'' ''commitment'' ''CANDIDATE_COMMITMENT_MISMATCH'') (\<lambda>_.
     bindE (require_dict ''assurance'' (dget d ''assurance'')) (\<lambda>assurance.
       check_assurance assurance)))))))"

definition verify_record :: "prims \<Rightarrow> pyval \<Rightarrow> profile_facts res" where
  "verify_record P v =
     bindE (require_dict ''record'' v) (\<lambda>d.
     bindE (check_header P d) (\<lambda>_.
     bindE (require_dicts ''policies'' (dget d ''policies'')) (\<lambda>policies.
     bindE (check_policies P policies []) (\<lambda>keys.
     bindE (parse_profile_time P ''EVALUATION_TIME_INVALID'' (dget d ''evaluation_time'')) (\<lambda>t.
     bindE (require_dict ''resolver_semantics'' (dget d ''resolver_semantics'')) (\<lambda>resolver.
     bindE (validate_resolver_semantics P resolver) (\<lambda>semantics.
     bindE (require_dicts ''evidence_obligations'' (dget d ''evidence_obligations'')) (\<lambda>ds.
     bindE (check_obligations P semantics keys ds []) (\<lambda>obligations.
     bindE (require_dicts ''institutional_requirements'' (dget d ''institutional_requirements'')) (\<lambda>requirements.
     bindE (mapE (check_requirement P obligations) requirements) (\<lambda>_.
     bindE (require_dicts ''evidence_items'' (dget d ''evidence_items'')) (\<lambda>items.
     bindE (mapE (check_item P obligations t) items) (\<lambda>_.
     bindE (require_dict ''context'' (dget d ''context'')) (\<lambda>ctx.
     bindE (verify_named_commitment P ctx ''materialized'' ''commitment'' ''CONTEXT_COMMITMENT_MISMATCH'') (\<lambda>_.
     bindE (mapE (check_status P items t) obligations) (\<lambda>statuses.
     bindE (require_dict ''decision'' (dget d ''decision'')) (\<lambda>decision.
     bindE (check_decision P d decision) (\<lambda>_.
     bindE (ensure (dget d ''record_commitment'' = PStr (commitment P (PDict (without_key ''record_commitment'' d))))
        ''RECORD_COMMITMENT_MISMATCH'' ''record commitment mismatch'') (\<lambda>_.
       Inr \<lparr>pf_record_commitment = commitment P (PDict (without_key ''record_commitment'' d)),
            pf_evidence_statuses = statuses\<rparr>)))))))))))))))))))"

section \<open>Lemmas\<close>

lemma ensure_iff [res_iff]: "ensure c code m = Inr u \<longleftrightarrow> c"
  by (simp add: ensure_def invalid_def)

lemma invalid_not_Inr [simp]: "invalid code m \<noteq> Inr x"
  by (simp add: invalid_def)

lemma require_dict_iff [res_iff]: "require_dict path v = Inr d \<longleftrightarrow> v = PDict d"
  by (cases v) (auto simp: require_dict_def)

lemma require_list_iff [res_iff]: "require_list path v = Inr xs \<longleftrightarrow> v = PList xs"
  by (cases v) (auto simp: require_list_def)

lemma require_text_iff [res_iff]: "require_text path v = Inr s \<longleftrightarrow> v = PStr s \<and> \<not> blank s"
  by (cases v) (auto simp: require_text_def)

lemma require_dicts_iff [res_iff]: "require_dicts name v = Inr ds \<longleftrightarrow> v = PList (map PDict ds)"
proof -
  have "list_all2 (\<lambda>x y. x = PDict y) xs ds \<longleftrightarrow> xs = map PDict ds" for xs
    by (induction xs arbitrary: ds) (auto simp: list_all2_Cons1 Cons_eq_map_conv)
  then show ?thesis
    by (cases v) (auto simp: require_dicts_def bindE_Inr_iff require_list_iff mapE_Inr_iff require_dict_iff)
qed

lemma named_commitment_iff [res_iff]: "verify_named_commitment P d vk ck code = Inr u \<longleftrightarrow>
    (\<exists>v. map_of d vk = Some v \<and> dget d ck = PStr (commitment P v))"
proof -
  have "digest_text (PStr (commitment P v))" for v
    by (simp add: digest_text_def commitment_def)
  then show ?thesis
    by (auto simp: verify_named_commitment_def bindE_Inr_iff ensure_iff split: option.splits)
qed

lemma mapE_each: "mapE f xs = Inr ys \<Longrightarrow> x \<in> set xs \<Longrightarrow> \<exists>y\<in>set ys. f x = Inr y"
  by (induction xs arbitrary: ys) (auto simp: bindE_Inr_iff)

text \<open>The obligations accepted: all of them, under their ids, each id once.\<close>

lemma check_obligations_result:
  "check_obligations P sem keys ds seen = Inr obs \<Longrightarrow> distinct (map fst seen) \<Longrightarrow>
     distinct (map fst obs) \<and> set seen \<subseteq> set obs \<and>
     (\<forall>d\<in>set ds. \<exists>oid seen'. (oid, d) \<in> set obs \<and> check_obligation P sem keys seen' d = Inr oid) \<and>
     (\<forall>(oid, d)\<in>set obs. (oid, d) \<in> set seen \<or> (d \<in> set ds \<and> (\<exists>seen'. check_obligation P sem keys seen' d = Inr oid)))"
proof (induction ds arbitrary: seen)
  case Nil
  then show ?case by auto
next
  case (Cons d ds)
  from Cons.prems(1) obtain oid where oid: "check_obligation P sem keys seen d = Inr oid"
    and rest: "check_obligations P sem keys ds (seen @ [(oid, d)]) = Inr obs"
    by (auto simp: bindE_Inr_iff)
  from oid have "oid \<notin> fst ` set seen"
    by (auto simp: check_obligation_def bindE_Inr_iff ensure_iff)
  with Cons.prems(2) have "distinct (map fst (seen @ [(oid, d)]))" by simp
  from Cons.IH [OF rest this] oid show ?case by fastforce
qed

lemma check_obligation_facts:
  assumes "check_obligation P sem keys seen d = Inr oid"
  shows "dget d ''obligation_id'' = PStr oid" "\<exists>b. dget d ''required'' = PBool b"
    "dget d ''obligation_commitment'' = PStr (commitment P (obligation_semantic_payload d))"
    "(dget d ''policy_origin_ref'', dget d ''policy_origin_version'') \<in> (\<lambda>(r, v). (PStr r, PStr v)) ` set keys"
  using assms
  by (auto simp: check_obligation_def validate_obligation_fields_def bindE_Inr_iff ensure_iff require_text_iff
      split: pyval.splits)

lemma check_policies_keys:
  "check_policies P ds seen = Inr keys \<Longrightarrow> (ref, v) \<in> set keys \<Longrightarrow>
     (ref, v) \<in> set seen \<or> (\<exists>d\<in>set ds. dget d ''ref'' = PStr ref \<and> dget d ''version'' = PStr v)"
proof (induction ds arbitrary: seen)
  case Nil
  then show ?case by simp
next
  case (Cons d ds)
  from Cons.prems(1) obtain k where "check_policy P seen d = Inr k" "check_policies P ds (seen @ [k]) = Inr keys"
    by (auto simp: bindE_Inr_iff)
  with Cons.IH [OF this(2) Cons.prems(2)] show ?case
    by (auto simp: check_policy_def bindE_Inr_iff require_text_iff)
qed

text \<open>What verification of a record establishes, block by block.\<close>

lemma verify_record_cases:
  assumes "verify_record P (PDict d) = Inr facts"
  obtains policies keys t sem ds obs requirements items statuses where
    "check_header P d = Inr ()" "dget d ''policies'' = PList (map PDict policies)" "check_policies P policies [] = Inr keys"
    "parse_profile_time P ''EVALUATION_TIME_INVALID'' (dget d ''evaluation_time'') = Inr t"
    "dget d ''evidence_obligations'' = PList (map PDict ds)" "check_obligations P sem keys ds [] = Inr obs"
    "dget d ''institutional_requirements'' = PList (map PDict requirements)"
    "\<And>r. r \<in> set requirements \<Longrightarrow> check_requirement P obs r = Inr ()"
    "dget d ''evidence_items'' = PList (map PDict items)" "\<And>i. i \<in> set items \<Longrightarrow> check_item P obs t i = Inr ()"
    "mapE (check_status P items t) obs = Inr statuses"
    "dget d ''record_commitment'' = PStr (pf_record_commitment facts)"
    "pf_record_commitment facts = commitment P (PDict (without_key ''record_commitment'' d))"
    "pf_evidence_statuses facts = statuses"
proof -
  from assms obtain u policies keys t sem ds obs requirements rr items ii statuses where
    a: "check_header P d = Inr u" "dget d ''policies'' = PList (map PDict policies)" "check_policies P policies [] = Inr keys"
    "parse_profile_time P ''EVALUATION_TIME_INVALID'' (dget d ''evaluation_time'') = Inr t"
    "dget d ''evidence_obligations'' = PList (map PDict ds)" "check_obligations P sem keys ds [] = Inr obs"
    "dget d ''institutional_requirements'' = PList (map PDict requirements)"
    and rr: "mapE (check_requirement P obs) requirements = Inr rr"
    and b: "dget d ''evidence_items'' = PList (map PDict items)"
    and ii: "mapE (check_item P obs t) items = Inr ii"
    and c: "mapE (check_status P items t) obs = Inr statuses"
    "dget d ''record_commitment'' = PStr (commitment P (PDict (without_key ''record_commitment'' d)))"
    "Inr \<lparr>pf_record_commitment = commitment P (PDict (without_key ''record_commitment'' d)),
            pf_evidence_statuses = statuses\<rparr> = (Inr facts :: profile_facts res)"
    unfolding verify_record_def bindE_Inr_iff require_dict_iff require_dicts_iff ensure_iff pyval.inject
    by blast
  have "check_requirement P obs r = Inr ()" if "r \<in> set requirements" for r
    using mapE_each [OF rr that] by auto
  moreover have "check_item P obs t i = Inr ()" if "i \<in> set items" for i
    using mapE_each [OF ii that] by auto
  ultimately show thesis using a b c by (intro that) auto
qed

text \<open>A check of an item, and a status that is valid, item by item.\<close>

lemma check_item_facts:
  assumes "check_item P obs t i = Inr u" "item_of oid i"
  obtains ob s where "map_of obs oid = Some ob" "dget ob ''source_ref'' = PStr s" "dget i ''source_ref'' = PStr s"
    "\<exists>v. map_of i ''content'' = Some v \<and> dget i ''content_commitment'' = PStr (commitment P v)"
    "\<exists>x. parse_profile_time P ''EVIDENCE_TIME_INVALID'' (dget i ''observed_at'') = Inr x \<and> x \<le> t"
proof -
  from assms(1) obtain eid oids s us where
    v: "dget i ''obligation_ids'' = PList oids" "dget i ''source_ref'' = PStr s"
    "mapE (\<lambda>v. check_item_obligation obs eid s (str_of v)) oids = Inr us"
    "\<exists>x. parse_profile_time P ''EVIDENCE_TIME_INVALID'' (dget i ''observed_at'') = Inr x \<and> x \<le> t"
    "\<exists>v. map_of i ''content'' = Some v \<and> dget i ''content_commitment'' = PStr (commitment P v)"
    unfolding check_item_def validate_evidence_item_fields_def bindE_Inr_iff ensure_iff require_text_iff
      require_list_iff named_commitment_iff by blast
  from assms(2) v(1) have "PStr oid \<in> set oids" by (simp add: item_of_def)
  from mapE_each [OF v(3) this] obtain ob where "map_of obs oid = Some ob" "dget ob ''source_ref'' = PStr s"
    by (auto simp: check_item_obligation_def ensure_iff split: option.splits)
  with v show thesis by (intro that [of ob s]) auto
qed

lemma any_stale_False: "any_stale P t age ds = Inr False \<Longrightarrow> d \<in> set ds \<Longrightarrow>
    \<exists>x. parse_profile_time P ''EVIDENCE_TIME_INVALID'' (dget d ''observed_at'') = Inr x \<and> t - x \<le> seconds age"
  by (induction ds) (auto simp: bindE_Inr_iff split: if_splits)

lemma status_Valid:
  assumes "evidence_status_of P oid ob items t = Inr Valid"
  shows "\<exists>i\<in>set items. item_of oid i"
    and "\<And>i. i \<in> set items \<Longrightarrow> item_of oid i \<Longrightarrow> dget i ''declared_state'' = PStr ''current'' \<and>
      (\<exists>x. parse_profile_time P ''EVIDENCE_TIME_INVALID'' (dget i ''observed_at'') = Inr x \<and>
           t - x \<le> seconds (max_age_of ob))"
    and "\<And>i j. i \<in> set items \<Longrightarrow> item_of oid i \<Longrightarrow> j \<in> set items \<Longrightarrow> item_of oid j \<Longrightarrow>
      dget i ''content_commitment'' = dget j ''content_commitment''"
proof -
  let ?c = "filter (item_of oid) items"
  from assms have ne: "?c \<noteq> []" and one: "\<not> length (remdups (map (\<lambda>d. dget d ''content_commitment'') ?c)) > 1"
    and fresh: "any_stale P t (max_age_of ob) ?c = Inr False"
    and states: "set (map (\<lambda>d. dget d ''declared_state'') ?c) = {PStr ''current''}"
    by (auto simp: evidence_status_of_def Let_def bindE_Inr_iff split: if_splits)
  show "\<exists>i\<in>set items. item_of oid i" using ne by (auto simp: filter_empty_conv)
  show "dget i ''declared_state'' = PStr ''current'' \<and>
      (\<exists>x. parse_profile_time P ''EVIDENCE_TIME_INVALID'' (dget i ''observed_at'') = Inr x \<and>
           t - x \<le> seconds (max_age_of ob))" if "i \<in> set items" "item_of oid i" for i
    using any_stale_False [OF fresh, of i] states that by auto
  show "dget i ''content_commitment'' = dget j ''content_commitment''"
    if "i \<in> set items" "item_of oid i" "j \<in> set items" "item_of oid j" for i j
  proof -
    have "card (set (map (\<lambda>d. dget d ''content_commitment'') ?c)) \<le> 1"
      using one by (simp add: length_remdups_card_conv)
    then have "is_singleton (set (map (\<lambda>d. dget d ''content_commitment'') ?c)) \<or>
        set (map (\<lambda>d. dget d ''content_commitment'') ?c) = {}"
      by (metis One_nat_def card_0_eq is_singleton_altdef le_Suc_eq le_zero_eq List.finite_set)
    moreover have "dget i ''content_commitment'' \<in> set (map (\<lambda>d. dget d ''content_commitment'') ?c)"
      "dget j ''content_commitment'' \<in> set (map (\<lambda>d. dget d ''content_commitment'') ?c)" using that by auto
    ultimately show ?thesis by (auto simp del: set_map elim!: is_singletonE)
  qed
qed

section \<open>Properties\<close>

text \<open>
  C32. A verified record meets its required obligations: for each obligation the record marks as
  required, the verifier reports it valid, some evidence item addresses it, and every item that
  does is declared current, comes from the obligation's source, carries a commitment to its own
  content, was observed no later than the evaluation time and no longer before it than the
  obligation's maximal age, and all of them commit to the same content.
\<close>

theorem verified_record_meets_obligations:
  assumes "verify_record P (PDict d) = Inr facts"
    and "dget d ''evidence_obligations'' = PList os" "PDict ob \<in> set os" "dget ob ''required'' = PBool True"
  shows "\<exists>oid t items s. dget ob ''obligation_id'' = PStr oid \<and> (oid, Valid) \<in> set (pf_evidence_statuses facts) \<and>
     parse_profile_time P ''EVALUATION_TIME_INVALID'' (dget d ''evaluation_time'') = Inr t \<and>
     dget d ''evidence_items'' = PList (map PDict items) \<and> (\<exists>i\<in>set items. item_of oid i) \<and>
     dget ob ''source_ref'' = PStr s \<and>
     (\<forall>i\<in>set items. item_of oid i \<longrightarrow> dget i ''declared_state'' = PStr ''current'' \<and> dget i ''source_ref'' = PStr s \<and>
        (\<exists>v. map_of i ''content'' = Some v \<and> dget i ''content_commitment'' = PStr (commitment P v)) \<and>
        (\<exists>x. parse_profile_time P ''EVIDENCE_TIME_INVALID'' (dget i ''observed_at'') = Inr x \<and>
             x \<le> t \<and> t - x \<le> seconds (max_age_of ob)) \<and>
        (\<forall>j\<in>set items. item_of oid j \<longrightarrow> dget j ''content_commitment'' = dget i ''content_commitment''))"
  using assms(1)
proof (rule verify_record_cases)
  fix t sem ds obs items statuses keys
  assume t: "parse_profile_time P ''EVALUATION_TIME_INVALID'' (dget d ''evaluation_time'') = Inr t"
    and ds: "dget d ''evidence_obligations'' = PList (map PDict ds)" and obs: "check_obligations P sem keys ds [] = Inr obs"
    and items: "dget d ''evidence_items'' = PList (map PDict items)" "\<And>i. i \<in> set items \<Longrightarrow> check_item P obs t i = Inr ()"
    and st: "mapE (check_status P items t) obs = Inr statuses" "pf_evidence_statuses facts = statuses"
  have "ob \<in> set ds" using assms(2,3) ds by auto
  with check_obligations_result [OF obs] obtain oid seen where
    mem: "(oid, ob) \<in> set obs" "check_obligation P sem keys seen ob = Inr oid" and dist: "distinct (map fst obs)" by auto
  from mapE_each [OF st(1) mem(1)] obtain y where y: "y \<in> set statuses" "check_status P items t (oid, ob) = Inr y" by blast
  with assms(4) have val: "evidence_status_of P oid ob items t = Inr Valid" "y = (oid, Valid)"
    by (auto simp: check_status_def bindE_Inr_iff ensure_iff)
  note valid = status_Valid [OF val(1)]
  have look: "map_of obs oid = Some ob" using mem(1) dist by simp
  obtain i0 where i0: "i0 \<in> set items" "item_of oid i0" using valid(1) by blast
  from check_item_facts [OF items(2) [OF i0(1)] i0(2)] look obtain s where s: "dget ob ''source_ref'' = PStr s"
    by (metis option.inject)
  have each: "dget i ''source_ref'' = PStr s \<and>
      (\<exists>v. map_of i ''content'' = Some v \<and> dget i ''content_commitment'' = PStr (commitment P v)) \<and>
      (\<exists>x. parse_profile_time P ''EVIDENCE_TIME_INVALID'' (dget i ''observed_at'') = Inr x \<and> x \<le> t)"
    if "i \<in> set items" "item_of oid i" for i
    by (rule check_item_facts [OF items(2) [OF that(1)] that(2)]) (use look s in auto)
  have age: "\<exists>x. parse_profile_time P ''EVIDENCE_TIME_INVALID'' (dget i ''observed_at'') = Inr x \<and>
             x \<le> t \<and> t - x \<le> seconds (max_age_of ob)" if "i \<in> set items" "item_of oid i" for i
    using each [OF that] valid(2) [OF that] by auto
  have "\<forall>i\<in>set items. item_of oid i \<longrightarrow> dget i ''declared_state'' = PStr ''current'' \<and> dget i ''source_ref'' = PStr s \<and>
        (\<exists>v. map_of i ''content'' = Some v \<and> dget i ''content_commitment'' = PStr (commitment P v)) \<and>
        (\<exists>x. parse_profile_time P ''EVIDENCE_TIME_INVALID'' (dget i ''observed_at'') = Inr x \<and>
             x \<le> t \<and> t - x \<le> seconds (max_age_of ob)) \<and>
        (\<forall>j\<in>set items. item_of oid j \<longrightarrow> dget j ''content_commitment'' = dget i ''content_commitment'')"
    using age each valid(2,3) by blast
  moreover have "(oid, Valid) \<in> set (pf_evidence_statuses facts)" using y(1) st(2) val(2) by simp
  ultimately show ?thesis
    using check_obligation_facts(1) [OF mem(2)] t items(1) valid(1) s
    by (intro exI [of _ oid] exI [of _ t] exI [of _ items] exI [of _ s] conjI)
qed

text \<open>
  The record commitment fixes the record: two records that both verify under the same record
  commitment agree in every field, nested objects up to the order of keys, barring a digest
  collision between the two.
\<close>

theorem verified_record_tamper_evident:
  assumes "verify_record P (PDict d) = Inr facts" "verify_record P (PDict e) = Inr facts'"
    and "pf_record_commitment facts = pf_record_commitment facts'"
    and "float_repr_ok P" "distinct (map fst d)" "distinct (map fst e)"
    and "no_collision P (PDict (without_key ''record_commitment'' d)) (PDict (without_key ''record_commitment'' e))"
  shows "map_option key_norm (map_of d k) = map_option key_norm (map_of e k)"
proof -
  have closed: "dget d' ''record_commitment'' = PStr (pf_record_commitment f) \<and>
      pf_record_commitment f = commitment P (PDict (without_key ''record_commitment'' d'))"
    if "verify_record P (PDict d') = Inr f" for d' f
    using that by (rule verify_record_cases) simp
  show ?thesis
  proof (cases "k = ''record_commitment''")
    case True
    with closed [OF assms(1)] closed [OF assms(2)] assms(3) show ?thesis
      by (auto simp: dget_or_def split: option.splits)
  next
    case False
    have "key_norm (PDict (without_key ''record_commitment'' d)) = key_norm (PDict (without_key ''record_commitment'' e))"
      using commitment_binding [OF assms(4,7)] closed [OF assms(1)] closed [OF assms(2)] assms(3) by simp
    from key_norm_lookup [OF this distinct_without distinct_without, OF assms(5,6), of k] show ?thesis
      by (simp add: map_of_without [OF False])
  qed
qed

text \<open>
  Institutional obligations cannot be dropped or reinterpreted: every institutional
  requirement of a verified record is declared non-overridable, and for each obligation it lists
  the record has exactly one obligation of that id, with the commitment the requirement expects,
  which is the commitment to that obligation's own terms, and with the requirement's policy origin,
  which is one of the record's policies.
\<close>

theorem institutional_obligations_kept:
  assumes "verify_record P (PDict d) = Inr facts"
    and "dget d ''institutional_requirements'' = PList rs" "PDict r \<in> set rs"
    and "dget r ''obligation_commitments'' = PDict expected" "(oid, c) \<in> set expected"
  shows "dget r ''non_overridable'' = PBool True \<and>
     (\<exists>ds ob policies pol. dget d ''evidence_obligations'' = PList (map PDict ds) \<and> ob \<in> set ds \<and>
       dget ob ''obligation_id'' = PStr oid \<and>
       (\<forall>x\<in>set ds. dget x ''obligation_id'' = PStr oid \<longrightarrow> x = ob) \<and>
       dget ob ''obligation_commitment'' = PStr (commitment P (obligation_semantic_payload ob)) \<and>
       c = dget ob ''obligation_commitment'' \<and>
       dget r ''policy_origin_ref'' = dget ob ''policy_origin_ref'' \<and>
       dget d ''policies'' = PList (map PDict policies) \<and> pol \<in> set policies \<and>
       dget pol ''ref'' = dget ob ''policy_origin_ref'' \<and> dget pol ''version'' = dget ob ''policy_origin_version'')"
  using assms(1)
proof (rule verify_record_cases)
  fix policies keys sem ds obs requirements
  assume pol: "dget d ''policies'' = PList (map PDict policies)" "check_policies P policies [] = Inr keys"
    and ds: "dget d ''evidence_obligations'' = PList (map PDict ds)" and obs: "check_obligations P sem keys ds [] = Inr obs"
    and req: "dget d ''institutional_requirements'' = PList (map PDict requirements)"
      "\<And>r. r \<in> set requirements \<Longrightarrow> check_requirement P obs r = Inr ()"
  have "r \<in> set requirements" using assms(2,3) req(1) by auto
  from req(2) [OF this] assms(4) obtain us where non: "dget r ''non_overridable'' = PBool True"
    and us: "mapE (check_expected_obligation obs r) expected = Inr us"
    by (auto simp: check_requirement_def bindE_Inr_iff ensure_iff require_dict_iff)
  from mapE_each [OF us assms(5)] obtain ob where ob: "map_of obs oid = Some ob"
    "py_eq (dget ob ''obligation_commitment'') c" "py_eq (dget ob ''policy_origin_ref'') (dget r ''policy_origin_ref'')"
    by (auto simp: check_expected_obligation_def bindE_Inr_iff ensure_iff split: option.splits)
  note res = check_obligations_result [OF obs, simplified]
  from ob(1) have "(oid, ob) \<in> set obs" by (rule map_of_SomeD)
  with res obtain seen where mem: "ob \<in> set ds" "check_obligation P sem keys seen ob = Inr oid" by fastforce
  note facts = check_obligation_facts [OF mem(2)]
  have uniq: "x = ob" if x: "x \<in> set ds" "dget x ''obligation_id'' = PStr oid" for x
  proof -
    from res x(1) obtain i s' where i: "(i, x) \<in> set obs" "check_obligation P sem keys s' x = Inr i" by blast
    from check_obligation_facts(1) [OF i(2)] x(2) have "i = oid" by simp
    with i(1) res ob(1) show ?thesis by (metis map_of_eq_Some_iff option.inject)
  qed
  from facts(4) obtain ref v where k: "(ref, v) \<in> set keys" "dget ob ''policy_origin_ref'' = PStr ref"
    "dget ob ''policy_origin_version'' = PStr v" by auto
  from check_policies_keys [OF pol(2) k(1)] obtain q where q: "q \<in> set policies"
    "dget q ''ref'' = dget ob ''policy_origin_ref''" "dget q ''version'' = dget ob ''policy_origin_version''"
    by (auto simp: k(2,3))
  have "c = dget ob ''obligation_commitment''" "dget r ''policy_origin_ref'' = dget ob ''policy_origin_ref''"
    using ob(2,3) facts(3) k(2) by simp_all
  moreover have "\<forall>x\<in>set ds. dget x ''obligation_id'' = PStr oid \<longrightarrow> x = ob" using uniq by blast
  ultimately show ?thesis using non ds mem(1) facts(1,3) pol(1) q by blast
qed

section \<open>Witnesses\<close>

text \<open>A record with one policy, one required obligation, one institutional requirement and one item.\<close>

definition pf_prims :: prims where
  "pf_prims = \<lparr>sha256_hex = (\<lambda>s. s), float_repr = ratio_repr, parse_int = (\<lambda>s. None), parse_float = (\<lambda>s. None),
     fromisoformat = (\<lambda>s. Some (Aware (int (length s)))), isoformat_utc = digits_int, local_to_utc = (\<lambda>n. n),
     container_repr = (\<lambda>v. ''''), uuid4 = digits_nat, clock = (\<lambda>n. 0)\<rparr>"

abbreviation pf_commit :: "pyval \<Rightarrow> pyval" where
  "pf_commit v \<equiv> PStr (commitment pf_prims v)"

definition pf_obligation :: pydict where
  "pf_obligation =
     (let d = [(''obligation_id'', PStr ''ob''), (''policy_origin_ref'', PStr ''pol''),
        (''policy_origin_version'', PStr ''1''), (''required'', PBool True), (''source_ref'', PStr ''src''),
        (''max_age_seconds'', PInt 60), (''resolution_semantics_id'', PStr SUPPORTED_RESOLUTION_SEMANTICS_ID),
        (''resolution_semantics_commitment'', pf_commit SUPPORTED_CLASSIFICATION_SEMANTICS)]
      in d @ [(''obligation_commitment'', pf_commit (obligation_semantic_payload d))])"

definition pf_requirement :: pydict where
  "pf_requirement = [(''content'', PStr ''r''), (''commitment'', pf_commit (PStr ''r'')), (''non_overridable'', PBool True),
     (''policy_origin_ref'', PStr ''pol''),
     (''obligation_commitments'', PDict [(''ob'', pf_commit (obligation_semantic_payload pf_obligation))])]"

definition pf_item :: pydict where
  "pf_item = [(''content'', PStr ''x''), (''content_commitment'', pf_commit (PStr ''x'')),
     (''provenance'', PDict [(''source_ref'', PStr ''src'')]),
     (''provenance_commitment'', pf_commit (PDict [(''source_ref'', PStr ''src'')])),
     (''assurance_class'', PStr ''trusted_declaration''), (''evidence_id'', PStr ''e''),
     (''obligation_ids'', PList [PStr ''ob'']), (''source_ref'', PStr ''src''), (''observed_at'', PStr ''now''),
     (''declared_state'', PStr ''current'')]"

definition pf_inputs :: pydict where
  "pf_inputs = [(''profile_version'', PStr PROFILE_VERSION), (''canonicalization_profile'', PStr CANONICALIZATION_PROFILE),
     (''commitment_algorithm'', PStr COMMITMENT_ALGORITHM), (''authorizing'', PBool False),
     (''candidate'', PDict [(''materialized'', PStr ''c''), (''commitment'', pf_commit (PStr ''c''))]),
     (''assurance'', PDict []),
     (''policies'', PList [PDict [(''ref'', PStr ''pol''), (''version'', PStr ''1''), (''content'', PStr ''p''),
        (''content_commitment'', pf_commit (PStr ''p'')), (''evaluation_semantics'', PStr ''s''),
        (''evaluation_semantics_commitment'', pf_commit (PStr ''s''))]]),
     (''evaluation_time'', PStr ''now''),
     (''resolver_semantics'', PDict [(''classification_semantics'', SUPPORTED_CLASSIFICATION_SEMANTICS),
        (''classification_semantics_commitment'', pf_commit SUPPORTED_CLASSIFICATION_SEMANTICS)]),
     (''evidence_obligations'', PList [PDict pf_obligation]),
     (''institutional_requirements'', PList [PDict pf_requirement]), (''evidence_items'', PList [PDict pf_item]),
     (''context'', PDict [(''materialized'', PStr ''m''), (''commitment'', pf_commit (PStr ''m''))])]"

definition pf_record :: pydict where
  "pf_record = (let d = pf_inputs @ [(''decision'', PDict [(''input_commitment'', pf_commit (decision_input_payload pf_inputs)),
        (''reason_precedence'', PList (map PStr REASON_PRECEDENCE)), (''result'', PStr ''authorized''),
        (''primary_reason'', PStr ''none'')])]
      in d @ [(''record_commitment'', pf_commit (PDict d))])"

lemma digest_text_commit [simp]: "digest_text (PStr (commitment P v))"
  by (simp add: digest_text_def commitment_def)

lemma pf_time: "parse_profile_time pf_prims code (PStr ''now'') = Inr 3"
  by (simp add: parse_profile_time_def not_blank pf_prims_def replace_Z_def)

lemma pf_obligation_fields:
  "map_of pf_obligation ''obligation_id'' = Some (PStr ''ob'')" "map_of pf_obligation ''policy_origin_ref'' = Some (PStr ''pol'')"
  "map_of pf_obligation ''policy_origin_version'' = Some (PStr ''1'')" "map_of pf_obligation ''required'' = Some (PBool True)"
  "map_of pf_obligation ''source_ref'' = Some (PStr ''src'')" "map_of pf_obligation ''max_age_seconds'' = Some (PInt 60)"
  "map_of pf_obligation ''resolution_semantics_id'' = Some (PStr SUPPORTED_RESOLUTION_SEMANTICS_ID)"
  "map_of pf_obligation ''resolution_semantics_commitment'' = Some (pf_commit SUPPORTED_CLASSIFICATION_SEMANTICS)"
  "map_of pf_obligation ''obligation_commitment'' = Some (pf_commit (obligation_semantic_payload pf_obligation))"
  by (simp_all add: pf_obligation_def Let_def obligation_semantic_payload_def dget_or_def)

lemma pf_obligation_ok: "check_obligation pf_prims (pf_commit SUPPORTED_CLASSIFICATION_SEMANTICS) [(''pol'', ''1'')] []
     pf_obligation = Inr ''ob''"
  by (simp add: check_obligation_def validate_obligation_fields_def require_text_def ensure_def dget_or_def
      pf_obligation_fields not_blank SUPPORTED_RESOLUTION_SEMANTICS_ID_def)

lemma pf_requirement_ok: "check_requirement pf_prims [(''ob'', pf_obligation)] pf_requirement = Inr ()"
  by (simp add: check_requirement_def verify_named_commitment_def ensure_def require_dict_def
      check_expected_obligation_def dget_or_def pf_requirement_def pf_obligation_fields)

lemma pf_item_ok: "check_item pf_prims [(''ob'', pf_obligation)] 3 pf_item = Inr ()"
  by (simp add: check_item_def validate_evidence_item_fields_def verify_named_commitment_def ensure_def require_dict_def
      require_list_def require_text_def one_of_def ALLOWED_ASSURANCE_CLASSES_def ALLOWED_EVIDENCE_STATES_def
      check_item_obligation_def pf_obligation_fields pf_time not_blank dget_or_def pf_item_def)

lemma pf_status_ok: "check_status pf_prims [pf_item] 3 (''ob'', pf_obligation) = Inr (''ob'', Valid)"
  by (simp add: check_status_def evidence_status_of_def item_of_def pf_time max_age_of_def seconds_def ensure_def
      dget_or_def pf_obligation_fields pf_item_def)

lemma pf_record_fields:
  "dget pf_record ''policies'' = dget pf_inputs ''policies''" "dget pf_record ''evaluation_time'' = PStr ''now''"
  "dget pf_record ''resolver_semantics'' = dget pf_inputs ''resolver_semantics''"
  "dget pf_record ''evidence_obligations'' = PList (map PDict [pf_obligation])"
  "dget pf_record ''institutional_requirements'' = PList (map PDict [pf_requirement])"
  "dget pf_record ''evidence_items'' = PList (map PDict [pf_item])"
  "dget pf_record ''context'' = dget pf_inputs ''context''"
  by (simp_all add: pf_record_def pf_inputs_def Let_def dget_or_def)

lemma pf_header: "check_header pf_prims pf_record = Inr ()"
  by (simp add: check_header_def check_assurance_def ensure_def require_dict_def verify_named_commitment_def
      dget_or_def pf_record_def pf_inputs_def Let_def)

lemma pf_policies: "require_dicts ''policies'' (dget pf_inputs ''policies'') =
    Inr [[(''ref'', PStr ''pol''), (''version'', PStr ''1''), (''content'', PStr ''p''),
        (''content_commitment'', pf_commit (PStr ''p'')), (''evaluation_semantics'', PStr ''s''),
        (''evaluation_semantics_commitment'', pf_commit (PStr ''s''))]]"
  by (simp add: require_dicts_iff pf_inputs_def dget_or_def)

lemma pf_semantics: "validate_resolver_semantics pf_prims [(''classification_semantics'', SUPPORTED_CLASSIFICATION_SEMANTICS),
        (''classification_semantics_commitment'', pf_commit SUPPORTED_CLASSIFICATION_SEMANTICS)] =
     Inr (pf_commit SUPPORTED_CLASSIFICATION_SEMANTICS)"
proof -
  have "py_eq SUPPORTED_CLASSIFICATION_SEMANTICS SUPPORTED_CLASSIFICATION_SEMANTICS"
    by (rule py_eq_refl) (simp add: SUPPORTED_CLASSIFICATION_SEMANTICS_def)
  then show ?thesis
    by (simp add: validate_resolver_semantics_def verify_named_commitment_def ensure_def dget_or_def)
qed

lemma pf_decision:
  "check_decision pf_prims pf_record [(''input_commitment'', pf_commit (decision_input_payload pf_inputs)),
        (''reason_precedence'', PList (map PStr REASON_PRECEDENCE)), (''result'', PStr ''authorized''),
        (''primary_reason'', PStr ''none'')] = Inr ()"
proof -
  have "decision_input_payload pf_record = decision_input_payload pf_inputs"
    by (simp add: decision_input_payload_def pf_record_def pf_inputs_def Let_def dget_or_def)
  then show ?thesis by (simp add: check_decision_def ensure_def one_of_def dget_or_def)
qed

lemma pf_closing:
  "dget pf_record ''decision'' = PDict [(''input_commitment'', pf_commit (decision_input_payload pf_inputs)),
        (''reason_precedence'', PList (map PStr REASON_PRECEDENCE)), (''result'', PStr ''authorized''),
        (''primary_reason'', PStr ''none'')]"
  "dget pf_record ''record_commitment'' = pf_commit (PDict (without_key ''record_commitment'' pf_record))"
  by (simp_all add: pf_record_def pf_inputs_def Let_def dget_or_def without_key_def)

lemma pf_policies_ok:
  "check_policies pf_prims [[(''ref'', PStr ''pol''), (''version'', PStr ''1''), (''content'', PStr ''p''),
        (''content_commitment'', pf_commit (PStr ''p'')), (''evaluation_semantics'', PStr ''s''),
        (''evaluation_semantics_commitment'', pf_commit (PStr ''s''))]] [] = Inr [(''pol'', ''1'')]"
  by (simp add: check_policy_def require_text_def ensure_def verify_named_commitment_def not_blank dget_or_def)

lemma pf_other:
  "dget pf_inputs ''resolver_semantics'' = PDict [(''classification_semantics'', SUPPORTED_CLASSIFICATION_SEMANTICS),
        (''classification_semantics_commitment'', pf_commit SUPPORTED_CLASSIFICATION_SEMANTICS)]"
  "dget pf_inputs ''context'' = PDict [(''materialized'', PStr ''m''), (''commitment'', pf_commit (PStr ''m''))]"
  "verify_named_commitment pf_prims [(''materialized'', PStr ''m''), (''commitment'', pf_commit (PStr ''m''))]
     ''materialized'' ''commitment'' code = Inr ()"
  by (simp_all add: pf_inputs_def verify_named_commitment_def ensure_def dget_or_def)

lemma pf_verifies:
  "verify_record pf_prims (PDict pf_record) =
     Inr \<lparr>pf_record_commitment = commitment pf_prims (PDict (without_key ''record_commitment'' pf_record)),
          pf_evidence_statuses = [(''ob'', Valid)]\<rparr>"
proof -
  have dicts: "require_dicts name (PList (map PDict [x])) = Inr [x]" for name x
    by (simp only: require_dicts_iff)
  have "check_obligations pf_prims (pf_commit SUPPORTED_CLASSIFICATION_SEMANTICS) [(''pol'', ''1'')] [pf_obligation] [] =
      Inr [(''ob'', pf_obligation)]"
    by (simp add: pf_obligation_ok)
  note checks = pf_header pf_policies pf_policies_ok pf_time pf_semantics pf_requirement_ok pf_item_ok pf_other
    pf_status_ok pf_decision this
  have dict: "require_dict path (PDict x) = Inr x" and ok: "ensure True code message = Inr ()" for path x code message
    by (simp_all add: require_dict_def ensure_def)
  show ?thesis
    by (simp only: verify_record_def dict ok bindE_simps pf_record_fields pf_closing dicts checks mapE.simps simp_thms)
qed

lemma verified_record_meets_obligations_witness:
  "\<exists>oid. dget pf_obligation ''obligation_id'' = PStr oid \<and> oid = ''ob'' \<and>
     (\<exists>items. dget pf_record ''evidence_items'' = PList (map PDict items) \<and> (\<exists>i\<in>set items. item_of oid i))"
proof -
  have "dget pf_obligation ''required'' = PBool True" "dget pf_obligation ''obligation_id'' = PStr ''ob''"
    by (simp_all add: dget_or_def pf_obligation_fields)
  with verified_record_meets_obligations [OF pf_verifies pf_record_fields(4), of pf_obligation] show ?thesis by auto
qed

lemma distinct_pf_record: "distinct (map fst pf_record)"
  by (simp add: pf_record_def pf_inputs_def Let_def)

lemma pf_floats: "float_repr_ok pf_prims"
  using ratio_repr_ok [of pf_prims] by (simp add: pf_prims_def)

lemma verified_record_tamper_evident_witness:
  "map_option key_norm (map_of pf_record ''decision'') = map_option key_norm (map_of pf_record ''decision'') \<and>
     verify_record pf_prims (PDict pf_record) \<noteq> throw KeyError"
proof -
  have "no_collision pf_prims v v" for v by (simp add: no_collision_def)
  from verified_record_tamper_evident [OF pf_verifies pf_verifies refl pf_floats distinct_pf_record distinct_pf_record this]
  show ?thesis by (simp add: pf_verifies)
qed

lemma institutional_obligations_kept_witness:
  "dget pf_requirement ''non_overridable'' = PBool True \<and>
     (\<exists>ob. dget ob ''obligation_id'' = PStr ''ob'' \<and>
       dget ob ''obligation_commitment'' = pf_commit (obligation_semantic_payload ob))"
proof -
  have "dget pf_requirement ''obligation_commitments'' = PDict [(''ob'', pf_commit (obligation_semantic_payload pf_obligation))]"
    by (simp add: pf_requirement_def dget_or_def)
  from institutional_obligations_kept [OF pf_verifies pf_record_fields(5) _ this] show ?thesis by auto
qed

end
