(* ===== verification/ProfileTool.thy ===== *)
theory ProfileTool
  imports DecisionInput PolicyGate JsonText Paths
begin

text \<open>
  The script \<open>tools/verify_decision_input_commitment.py\<close>: it reads one record, runs the verifier of
  \<open>decision_input_profile.py\<close> and prints one line of JSON. The messages of the operating system and
  of the JSON library are left empty, as everywhere.
\<close>

definition failure_line :: "prims \<Rightarrow> string \<Rightarrow> string \<Rightarrow> string" where
  "failure_line P code message = ascii_json P (PDict
     [(''valid'', PBool False), (''code'', PStr code), (''message'', PStr message)])"

text \<open>The exit code and the line, or an exception the script does not catch.\<close>

definition verify_record_script :: "prims \<Rightarrow> (path \<Rightarrow> content option) \<Rightarrow> string \<Rightarrow> (int \<times> string) res" where
  "verify_record_script P fs file =
     (case fs (path_of file) of
        None \<Rightarrow> Inr (2, failure_line P ''INPUT_INVALID'' '''')
      | Some f \<Rightarrow> (case read_content P f of
          Inl e \<Rightarrow> if exn_kind e = ValueError then Inr (2, failure_line P ''INPUT_INVALID'' '''') else Inl e
        | Inr v \<Rightarrow> (case verify_record P v of
            Inr facts \<Rightarrow> Inr (0, ascii_json P (facts_doc facts))
          | Inl e \<Rightarrow> (case exn_kind e of
              OtherError code \<Rightarrow> Inr (1, failure_line P code (exn_message e))
            | _ \<Rightarrow> Inl e))))"

text \<open>The script succeeds exactly on a file that holds a record the verifier accepts.\<close>

lemma script_accepts:
  "(\<exists>line. verify_record_script P fs file = Inr (0, line)) \<longleftrightarrow>
     (\<exists>s v facts. fs (path_of file) = Some (Text s) \<and> loads P s = Some v \<and> verify_record P v = Inr facts)"
  by (auto simp: verify_record_script_def read_content_Inr read_content_Inr [THEN iffD2, OF exI, OF conjI, OF refl]
      split: option.splits sum.splits exn_class.splits if_splits)

end
