(* ===== verification/AgtAdapter.thy ===== *)
theory AgtAdapter
  imports Workflow
begin

text \<open>
  The Microsoft Agent Governance Toolkit profile (\<open>microsoft_agt.py\<close>): the adapter over the
  toolkit's runtime client and the conjunctive gate. The runtime client, the backend and the
  Cognous evaluator are parameters; each call answers or raises, in a new state of whatever they
  share. \<open>await\<close> is the call itself. What the toolkit returns is a tree of attributes whose leaves
  are JSON values, and no attribute of a leaf is one the adapter asks for.
\<close>

section \<open>The response of the toolkit\<close>

datatype attr = Leaf pyval | Obj "(string \<times> attr) list" | Seq "attr list"

definition getattr :: "attr \<Rightarrow> string \<Rightarrow> attr \<Rightarrow> attr" where
  "getattr v k w = (case v of Obj fs \<Rightarrow> (case map_of fs k of Some x \<Rightarrow> x | None \<Rightarrow> w) | _ \<Rightarrow> w)"

definition hasattr :: "attr \<Rightarrow> string \<Rightarrow> bool" where
  "hasattr v k = (case v of Obj fs \<Rightarrow> map_of fs k \<noteq> None | _ \<Rightarrow> False)"

fun attr_truthy :: "attr \<Rightarrow> bool" where
  "attr_truthy (Leaf v) = truthy v"
| "attr_truthy (Obj fs) = True"
| "attr_truthy (Seq xs) = (xs \<noteq> [])"

definition attr_iter :: "attr \<Rightarrow> attr list res" where
  "attr_iter v = (case v of
      Leaf x \<Rightarrow> bindE (py_iter x) (\<lambda>xs. Inr (map Leaf xs))
    | Obj fs \<Rightarrow> throw TypeError
    | Seq xs \<Rightarrow> Inr xs)"

text \<open>\<open>AgtDecision\<close>. Its fields are not validated: a backend may leave any value in most of them.\<close>

record agt_decision =
  ag_decision :: string
  ag_reason :: attr
  ag_message :: attr
  ag_target :: attr
  ag_target_applied :: bool
  ag_warnings :: "(string \<times> attr) list list"
  ag_artefact :: attr
  ag_pointers :: "(string \<times> attr) list"
  ag_input_identity :: attr
  ag_enforced_identity :: attr

text \<open>\<open>AgtDecision(decision, reason, message)\<close> with the defaults of the rest.\<close>

definition plain_agt_decision :: "string \<Rightarrow> attr \<Rightarrow> attr \<Rightarrow> agt_decision" where
  "plain_agt_decision word reason message =
     \<lparr>ag_decision = word, ag_reason = reason, ag_message = message, ag_target = Leaf PNone,
      ag_target_applied = False, ag_warnings = [], ag_artefact = Leaf PNone, ag_pointers = [],
      ag_input_identity = Leaf PNone, ag_enforced_identity = Leaf PNone\<rparr>"

record agt_call =
  ca_tenant_id :: string
  ca_tool_name :: string
  ca_arguments :: pydict
  ca_tool_call_id :: "string option"
  ca_snapshot :: pydict

type_synonym 's backend = "agt_call \<Rightarrow> 's \<Rightarrow> agt_decision res \<times> 's"

definition AgtUnavailable :: exn_class where
  "AgtUnavailable = OtherError ''MicrosoftAgtUnavailable''"

section \<open>The SDK backend\<close>

text \<open>\<open>InterventionPointRequest(intervention_point, snapshot, mode)\<close>\<close>

record sdk_request =
  sq_intervention_point :: string
  sq_snapshot :: pydict
  sq_mode :: string

definition sdk_request_of :: "agt_call \<Rightarrow> sdk_request" where
  "sdk_request_of c =
     (let tool_call = [(''name'', PStr (ca_tool_name c)), (''args'', PDict (ca_arguments c))] @
            (case ca_tool_call_id c of None \<Rightarrow> [] | Some i \<Rightarrow> [(''id'', PStr i)])
      in \<lparr>sq_intervention_point = ''PRE_TOOL_CALL'',
          sq_snapshot = dict_set ''tool_call'' (PDict tool_call)
            (dict_set ''tenant_id'' (PStr (ca_tenant_id c)) (ca_snapshot c)),
          sq_mode = ''ENFORCE''\<rparr>)"

text \<open>One warning, as a dict; a mapping is copied, an object gives its reason and message.\<close>

definition sdk_warning :: "attr \<Rightarrow> (string \<times> attr) list" where
  "sdk_warning v = (case v of
      Leaf (PDict d) \<Rightarrow> map (\<lambda>(k, x). (k, Leaf x)) d
    | _ \<Rightarrow> [(''reason'', getattr v ''reason'' (Leaf PNone)), (''message'', getattr v ''message'' (Leaf PNone))])"

text \<open>\<open>x or ()\<close>, read as a sequence.\<close>

definition sdk_warnings :: "attr \<Rightarrow> (string \<times> attr) list list res" where
  "sdk_warnings v = (if attr_truthy v then bindE (attr_iter v) (\<lambda>ws. Inr (map sdk_warning ws)) else Inr [])"

text \<open>\<open>dict(x or {})\<close> of a mapping; anything else true raises (a list of pairs is not considered).\<close>

definition sdk_pointers :: "attr \<Rightarrow> (string \<times> attr) list res" where
  "sdk_pointers v = (if \<not> attr_truthy v then Inr [] else (case v of
      Leaf (PDict d) \<Rightarrow> Inr (map (\<lambda>(k, x). (k, Leaf x)) d)
    | _ \<Rightarrow> throw TypeError))"

definition sdk_word :: "attr \<Rightarrow> string res" where
  "sdk_word verdict = (if verdict = Leaf PNone \<or> \<not> hasattr verdict ''decision''
     then throw_msg AgtUnavailable ''unsupported AGT response: missing verdict.decision''
     else (let raw = getattr verdict ''decision'' (Leaf PNone)
           in case getattr raw ''value'' raw of
                Leaf (PStr s) \<Rightarrow> Inr s
              | _ \<Rightarrow> throw_msg AgtUnavailable ''unsupported AGT response: non-string decision''))"

definition sdk_response :: "attr \<Rightarrow> agt_decision res" where
  "sdk_response result =
     (let verdict = getattr result ''verdict'' (Leaf PNone)
      in bindE (sdk_word verdict) (\<lambda>word.
         bindE (sdk_warnings (getattr verdict ''warnings'' (Seq []))) (\<lambda>warnings.
         (let evidence = getattr verdict ''evidence'' (Leaf PNone)
          in bindE (if evidence = Leaf PNone then Inr []
                    else sdk_pointers (getattr evidence ''verification_pointers'' (Leaf (PDict [])))) (\<lambda>pointers.
             Inr \<lparr>ag_decision = word, ag_reason = getattr verdict ''reason'' (Leaf PNone),
                  ag_message = getattr verdict ''message'' (Leaf PNone),
                  ag_target = getattr result ''transformed_policy_target'' (Leaf PNone),
                  ag_target_applied = attr_truthy (getattr result ''transformed_policy_target_applied'' (Leaf (PBool False))),
                  ag_warnings = warnings, ag_artefact = getattr evidence ''artefact'' (Leaf PNone),
                  ag_pointers = pointers, ag_input_identity = getattr result ''input_identity'' (Leaf PNone),
                  ag_enforced_identity = getattr result ''enforced_identity'' (Leaf PNone)\<rparr>)))))"

text \<open>\<open>MicrosoftAgtSdkBackend.evaluate_pre_tool_call\<close>: any exception of the client is an unavailable service.\<close>

definition sdk_backend :: "bool \<Rightarrow> (sdk_request \<Rightarrow> 's \<Rightarrow> attr res \<times> 's) \<Rightarrow> 's backend" where
  "sdk_backend installed client c s =
     (if \<not> installed then (throw_msg AgtUnavailable ''agent-control-specification is not installed'', s)
      else (case client (sdk_request_of c) s of
          (Inl e, s') \<Rightarrow> (throw_msg AgtUnavailable (''AGT pre_tool_call evaluation failed: '' @
              exn_name (exn_kind e) @ '': '' @ exn_message e), s')
        | (Inr result, s') \<Rightarrow> (sdk_response result, s')))"

section \<open>The gate\<close>

definition MICROSOFT_AGT_UPSTREAM_REVISION :: string where
  "MICROSOFT_AGT_UPSTREAM_REVISION = ''84ae67348705996a3d65e31936afb7d02853f2a0''"

definition MICROSOFT_AGT_PROFILE :: string where
  "MICROSOFT_AGT_PROFILE = ''microsoft-agt-pre-tool-call/0.1''"

record agt_evidence =
  ae_profile :: string
  ae_upstream_revision :: string
  ae_source :: string
  ae_tenant_id :: string
  ae_tool_name :: string
  ae_tool_call_id :: "string option"
  ae_agt_decision :: string
  ae_agt_reason :: attr
  ae_agt_message :: attr
  ae_agt_warnings :: "(string \<times> attr) list list"
  ae_agt_input_identity :: attr
  ae_agt_enforced_identity :: attr
  ae_agt_evidence_artefact :: attr
  ae_agt_evidence_verification_pointers :: "(string \<times> attr) list"
  ae_original_proposal_commitment :: string
  ae_effective_proposal_commitment :: "string option"
  ae_transformed :: bool
  ae_cognous_decision_id :: "string option"
  ae_cognous_result :: "decision_result option"
  ae_limitation :: string

datatype agt_result = AgtAuthorized | AgtDeny | AgtHold | AgtError

record agt_outcome =
  ar_result :: agt_result
  ar_proposal :: "proposal option"
  ar_cognous_decision :: "decision option"
  ar_evidence :: agt_evidence
  ar_reasons :: "string list"

text \<open>The call of one evaluation, as \<open>_finish\<close> needs it.\<close>

record agt_subject =
  sb_tenant :: string
  sb_tool_name :: string
  sb_tool_call_id :: "string option"
  sb_original_commitment :: string

definition finish ::
  "prims \<Rightarrow> agt_subject \<Rightarrow> agt_result \<Rightarrow> agt_decision \<Rightarrow> proposal option \<Rightarrow> decision option \<Rightarrow> bool \<Rightarrow>
     string list \<Rightarrow> agt_outcome" where
  "finish P sb result agt p cognous transformed reasons =
     \<lparr>ar_result = result, ar_proposal = p, ar_cognous_decision = cognous,
      ar_evidence = \<lparr>ae_profile = MICROSOFT_AGT_PROFILE, ae_upstream_revision = MICROSOFT_AGT_UPSTREAM_REVISION,
        ae_source = ''microsoft/agent-governance-toolkit'', ae_tenant_id = sb_tenant sb,
        ae_tool_name = sb_tool_name sb, ae_tool_call_id = sb_tool_call_id sb,
        ae_agt_decision = ag_decision agt, ae_agt_reason = ag_reason agt, ae_agt_message = ag_message agt,
        ae_agt_warnings = ag_warnings agt, ae_agt_input_identity = ag_input_identity agt,
        ae_agt_enforced_identity = ag_enforced_identity agt, ae_agt_evidence_artefact = ag_artefact agt,
        ae_agt_evidence_verification_pointers = ag_pointers agt,
        ae_original_proposal_commitment = sb_original_commitment sb,
        ae_effective_proposal_commitment = map_option (proposal_commitment P) p,
        ae_transformed = transformed, ae_cognous_decision_id = map_option d_decision_id cognous,
        ae_cognous_result = map_option d_result cognous,
        ae_limitation = ''AGT is an additional restriction only. Cognous authorization is '' @
          ''independent; AGT evidence/telemetry is not Cognous authority.''\<rparr>,
      ar_reasons = reasons\<rparr>"

text \<open>What the toolkit's answer stops, before any authority is asked: the result and its reason.\<close>

definition agt_word :: "agt_decision \<Rightarrow> string" where
  "agt_word a = strip (map lower_char (ag_decision a))"

definition usable_target :: "agt_decision \<Rightarrow> bool" where
  "usable_target a = (ag_target_applied a \<and> (case ag_target a of Leaf (PDict _) \<Rightarrow> True | _ \<Rightarrow> False))"

definition agt_stop :: "agt_decision \<Rightarrow> (agt_result \<times> string) option" where
  "agt_stop a = (let word = agt_word a in
     if ag_warnings a \<noteq> [] then Some (AgtHold, ''agt_warning_requires_review'')
     else if word \<in> {''deny'', ''escalate'', ''warn''}
       then Some (if word = ''deny'' then AgtDeny else AgtHold, ''agt_'' @ word)
     else if word = ''transform''
       then (if \<not> usable_target a then Some (AgtHold, ''unsupported_transform_response'') else None)
     else if word \<noteq> ''allow'' then Some (AgtHold, ''unsupported_agt_decision'')
     else None)"

text \<open>The proposal that goes to the authority: with a new payload and commitment after a transform.\<close>

definition effective_proposal :: "prims \<Rightarrow> agt_decision \<Rightarrow> proposal \<Rightarrow> proposal" where
  "effective_proposal P a p = (if agt_word a = ''transform''
     then (case ag_target a of
        Leaf (PDict d) \<Rightarrow> p\<lparr>p_payload := d, p_payload_commitment := commitment P (PDict d)\<rparr>
      | _ \<Rightarrow> p)
     else p)"

fun decision_result_str :: "decision_result \<Rightarrow> string" where
  "decision_result_str Authorized = ''authorized''"
| "decision_result_str Hold = ''hold''"
| "decision_result_str Deny = ''deny''"

definition cognous_reasons :: "decision \<Rightarrow> string list" where
  "cognous_reasons d = (if d_reasons d \<noteq> [] then d_reasons d else [''cognous_'' @ decision_result_str (d_result d)])"

type_synonym 's evaluator = "proposal \<Rightarrow> string \<Rightarrow> pydatetime option \<Rightarrow> 's \<Rightarrow> decision res \<times> 's"

text \<open>After the toolkit has answered.\<close>

definition ask_cognous ::
  "prims \<Rightarrow> 's evaluator \<Rightarrow> agt_subject \<Rightarrow> agt_decision \<Rightarrow> proposal \<Rightarrow> pydatetime option \<Rightarrow> 's \<Rightarrow> agt_outcome \<times> 's" where
  "ask_cognous P authorize sb agt p now s =
     (let eff = effective_proposal P agt p;
          transformed = (agt_word agt = ''transform'')
      in case authorize eff (sb_tenant sb) now s of
          (Inl e, s') \<Rightarrow> (finish P sb AgtError agt (Some eff) None transformed
              [''cognous_evaluation_error:'' @ exn_name (exn_kind e)], s')
        | (Inr d, s') \<Rightarrow>
            (if d_result d \<noteq> Authorized
             then (finish P sb (if d_result d = Deny then AgtDeny else AgtHold) agt (Some eff) (Some d) transformed
                     (cognous_reasons d), s')
             else (finish P sb AgtAuthorized agt (Some eff) (Some d) transformed [], s')))"

text \<open>\<open>evaluate\<close>. Only an unavailable backend is caught; any other exception of it goes on.\<close>

definition agt_evaluate ::
  "prims \<Rightarrow> 's backend \<Rightarrow> 's evaluator \<Rightarrow> pyval \<Rightarrow> proposal \<Rightarrow> string \<Rightarrow> string option \<Rightarrow> pydict option \<Rightarrow>
     pydatetime option \<Rightarrow> 's \<Rightarrow> agt_outcome res \<times> 's" where
  "agt_evaluate P backend authorize tenant_id p tool_name tool_call_id snapshot now s =
     (let tenant = (case tenant_id of PStr t \<Rightarrow> strip t | _ \<Rightarrow> []);
          sb = \<lparr>sb_tenant = tenant, sb_tool_name = tool_name, sb_tool_call_id = tool_call_id,
                sb_original_commitment = proposal_commitment P p\<rparr>
      in if tenant = []
         then (Inr (finish P sb AgtHold (plain_agt_decision ''unavailable'' (Leaf (PStr ''tenant_missing'')) (Leaf PNone))
                      None None False [''tenant_missing'']), s)
         else (case backend \<lparr>ca_tenant_id = tenant, ca_tool_name = tool_name, ca_arguments = p_payload p,
                    ca_tool_call_id = tool_call_id,
                    ca_snapshot = (case snapshot of None \<Rightarrow> [] | Some d \<Rightarrow> d)\<rparr> s of
             (Inl e, s') \<Rightarrow>
               (if exn_kind e = AgtUnavailable
                then (Inr (finish P sb AgtHold (plain_agt_decision ''unavailable'' (Leaf (PStr ''backend_unavailable''))
                             (Leaf (PStr (exn_message e)))) None None False [''capability_unavailable'']), s')
                else (Inl e, s'))
           | (Inr agt, s') \<Rightarrow>
               (case agt_stop agt of
                  Some (result, reason) \<Rightarrow> (Inr (finish P sb result agt None None False [reason]), s')
                | None \<Rightarrow> (case ask_cognous P authorize sb agt p now s' of (r, s'') \<Rightarrow> (Inr r, s'')))))"

section \<open>What an evaluation says\<close>

lemma agt_stop_None_iff: "agt_stop a = None \<longleftrightarrow>
    ag_warnings a = [] \<and> (agt_word a = ''allow'' \<or> agt_word a = ''transform'' \<and> usable_target a)"
  by (auto simp: agt_stop_def Let_def)

lemma agt_stop_Some: "agt_stop a = Some (result, reason) \<Longrightarrow>
    (result = AgtDeny \<or> result = AgtHold) \<and> (result = AgtDeny \<longleftrightarrow> ag_warnings a = [] \<and> agt_word a = ''deny'')"
  by (auto simp: agt_stop_def Let_def split: if_splits)

lemma finish_simps [simp]:
  "ar_result (finish P sb r a p c tr rs) = r" "ar_proposal (finish P sb r a p c tr rs) = p"
  "ar_cognous_decision (finish P sb r a p c tr rs) = c" "ar_reasons (finish P sb r a p c tr rs) = rs"
  "ae_effective_proposal_commitment (ar_evidence (finish P sb r a p c tr rs)) = map_option (proposal_commitment P) p"
  "ae_original_proposal_commitment (ar_evidence (finish P sb r a p c tr rs)) = sb_original_commitment sb"
  "ae_transformed (ar_evidence (finish P sb r a p c tr rs)) = tr"
  "ae_agt_decision (ar_evidence (finish P sb r a p c tr rs)) = ag_decision a"
  by (simp_all add: finish_def)

text \<open>A proposal that reached the authority, and the way back from an authorized outcome.\<close>

lemma agt_authorized:
  assumes "agt_evaluate P backend authorize tid p tool cid snap now s = (Inr r, s')"
    and "ar_result r = AgtAuthorized"
  obtains t a s1 d where "tid = PStr t" "strip t \<noteq> []"
    "backend \<lparr>ca_tenant_id = strip t, ca_tool_name = tool, ca_arguments = p_payload p, ca_tool_call_id = cid,
       ca_snapshot = (case snap of None \<Rightarrow> [] | Some d \<Rightarrow> d)\<rparr> s = (Inr a, s1)"
    "agt_stop a = None" "authorize (effective_proposal P a p) (strip t) now s1 = (Inr d, s')"
    "d_result d = Authorized" "ar_proposal r = Some (effective_proposal P a p)" "ar_cognous_decision r = Some d"
    "ae_transformed (ar_evidence r) = (agt_word a = ''transform'')"
    "ae_original_proposal_commitment (ar_evidence r) = proposal_commitment P p"
    "ae_effective_proposal_commitment (ar_evidence r) = Some (proposal_commitment P (effective_proposal P a p))"
  using assms
  by (auto simp: agt_evaluate_def ask_cognous_def Let_def split: pyval.splits if_splits prod.splits sum.splits option.splits
      dest: agt_stop_Some)

lemma effective_cases:
  assumes "agt_stop a = None"
  shows "agt_word a = ''allow'' \<and> effective_proposal P a p = p \<or>
     agt_word a = ''transform'' \<and> ag_target_applied a \<and> (\<exists>d. ag_target a = Leaf (PDict d) \<and>
       effective_proposal P a p = p\<lparr>p_payload := d, p_payload_commitment := commitment P (PDict d)\<rparr>)"
  using assms by (auto simp: agt_stop_None_iff usable_target_def effective_proposal_def split: attr.splits pyval.splits)

text \<open>
  C24. Authorization is conjunctive. The gate authorizes only for a tenant that is not blank, when
  the toolkit answered for that tenant, tool and payload with no warnings and either allowed the
  call or applied a transform, and then the Cognous evaluator authorized, for that tenant, the very
  proposal handed on: the original after an allow; after a transform, the original with the
  transformed payload and its recomputed commitment and no other field changed. The outcome carries
  that decision, and its evidence the commitments of both proposals.
\<close>

theorem agt_authorization_is_conjunctive:
  assumes "agt_evaluate P backend authorize tid p tool cid snap now s = (Inr r, s')"
    and "ar_result r = AgtAuthorized"
  shows "\<exists>t a s1 d eff. tid = PStr t \<and> strip t \<noteq> [] \<and>
     backend \<lparr>ca_tenant_id = strip t, ca_tool_name = tool, ca_arguments = p_payload p, ca_tool_call_id = cid,
       ca_snapshot = (case snap of None \<Rightarrow> [] | Some m \<Rightarrow> m)\<rparr> s = (Inr a, s1) \<and> ag_warnings a = [] \<and>
     (agt_word a = ''allow'' \<and> eff = p \<or>
      agt_word a = ''transform'' \<and> ag_target_applied a \<and> (\<exists>m. ag_target a = Leaf (PDict m) \<and>
        eff = p\<lparr>p_payload := m, p_payload_commitment := commitment P (PDict m)\<rparr>)) \<and>
     authorize eff (strip t) now s1 = (Inr d, s') \<and> d_result d = Authorized \<and>
     ar_proposal r = Some eff \<and> ar_cognous_decision r = Some d \<and>
     ae_transformed (ar_evidence r) = (agt_word a = ''transform'') \<and>
     ae_original_proposal_commitment (ar_evidence r) = proposal_commitment P p \<and>
     ae_effective_proposal_commitment (ar_evidence r) = Some (proposal_commitment P eff)"
  using assms
proof (rule agt_authorized)
  fix t a s1 d
  assume call: "tid = PStr t" "strip t \<noteq> []"
      "backend \<lparr>ca_tenant_id = strip t, ca_tool_name = tool, ca_arguments = p_payload p, ca_tool_call_id = cid,
         ca_snapshot = (case snap of None \<Rightarrow> [] | Some d \<Rightarrow> d)\<rparr> s = (Inr a, s1)"
    and go: "agt_stop a = None"
    and rest: "authorize (effective_proposal P a p) (strip t) now s1 = (Inr d, s')"
      "d_result d = Authorized" "ar_proposal r = Some (effective_proposal P a p)" "ar_cognous_decision r = Some d"
      "ae_transformed (ar_evidence r) = (agt_word a = ''transform'')"
      "ae_original_proposal_commitment (ar_evidence r) = proposal_commitment P p"
      "ae_effective_proposal_commitment (ar_evidence r) = Some (proposal_commitment P (effective_proposal P a p))"
  from go have "ag_warnings a = []" by (simp add: agt_stop_None_iff)
  with call rest effective_cases [OF go, of P p] show ?thesis
    by (intro exI [of _ t] exI [of _ a] exI [of _ s1] exI [of _ d] exI [of _ "effective_proposal P a p"] conjI)
qed

text \<open>
  What the toolkit does not permit is never authorized. When its service is unavailable, or its
  answer carries a warning, or says neither allow nor transform, or transforms without an applied
  mapping, the evaluation ends there: the authority is not asked (whichever it is, its state is the
  one the toolkit left), no proposal and no Cognous decision are handed on, and the result is a hold,
  or a denial exactly when the toolkit denied without warnings.
\<close>

theorem agt_restriction_is_final:
  assumes "strip t \<noteq> []"
    and "backend \<lparr>ca_tenant_id = strip t, ca_tool_name = tool, ca_arguments = p_payload p, ca_tool_call_id = cid,
       ca_snapshot = (case snap of None \<Rightarrow> [] | Some m \<Rightarrow> m)\<rparr> s = (ans, s1)"
    and "case ans of Inl e \<Rightarrow> exn_kind e = AgtUnavailable
       | Inr a \<Rightarrow> ag_warnings a \<noteq> [] \<or> agt_word a \<notin> {''allow'', ''transform''} \<or>
           (agt_word a = ''transform'' \<and> (\<not> ag_target_applied a \<or> (\<nexists>m. ag_target a = Leaf (PDict m))))"
  shows "\<exists>r. agt_evaluate P backend authorize (PStr t) p tool cid snap now s = (Inr r, s1) \<and>
     ar_proposal r = None \<and> ar_cognous_decision r = None \<and> (ar_result r = AgtHold \<or> ar_result r = AgtDeny) \<and>
     (ar_result r = AgtDeny \<longleftrightarrow> (\<exists>a. ans = Inr a \<and> ag_warnings a = [] \<and> agt_word a = ''deny''))"
proof (cases ans)
  case (Inl e)
  with assms show ?thesis by (simp add: agt_evaluate_def)
next
  case (Inr a)
  with assms(3) have "agt_stop a \<noteq> None"
    by (auto simp: agt_stop_None_iff usable_target_def split: attr.splits pyval.splits)
  then obtain result reason where stop: "agt_stop a = Some (result, reason)" by auto
  from assms(1,2) Inr stop agt_stop_Some [OF stop] show ?thesis
    by (auto simp: agt_evaluate_def)
qed

section \<open>The evaluator's contract\<close>

text \<open>
  What the gate may expect of a Cognous evaluator: an authorized decision binds the proposal it was
  asked about, by its commitment and by the commitment of its payload. The workflow's \<open>decide\<close>
  keeps it; the tenant it goes by is the one inside the proposal.
\<close>

locale binding_evaluator =
  fixes P :: prims and authorize :: "'s evaluator"
  assumes authorized_binds: "authorize p t now s = (Inr d, s') \<Longrightarrow> d_result d = Authorized \<Longrightarrow>
     \<exists>b. d_binding d = Some b \<and> b_proposal_commitment b = proposal_commitment P p \<and>
       b_payload_commitment b = commitment P (PDict (p_payload p))"
begin

lemma outcome_bound:
  assumes "agt_evaluate P backend authorize tid p tool cid snap now s = (Inr r, s')"
    and "ar_result r = AgtAuthorized"
  shows "\<exists>eff d b t s1. ar_proposal r = Some eff \<and> ar_cognous_decision r = Some d \<and> d_binding d = Some b \<and>
     authorize eff t now s1 = (Inr d, s') \<and>
     ae_effective_proposal_commitment (ar_evidence r) = Some (b_proposal_commitment b) \<and>
     b_payload_commitment b = commitment P (PDict (p_payload eff))"
  using assms
proof (rule agt_authorized)
  fix t a s1 d
  assume "authorize (effective_proposal P a p) (strip t) now s1 = (Inr d, s')" "d_result d = Authorized"
    "ar_proposal r = Some (effective_proposal P a p)" "ar_cognous_decision r = Some d"
    "ae_effective_proposal_commitment (ar_evidence r) = Some (proposal_commitment P (effective_proposal P a p))"
  moreover from authorized_binds [OF this(1,2)] obtain b where "d_binding d = Some b"
    "b_proposal_commitment b = proposal_commitment P (effective_proposal P a p)"
    "b_payload_commitment b = commitment P (PDict (p_payload (effective_proposal P a p)))" by blast
  ultimately show ?thesis
    by (intro exI [of _ "effective_proposal P a p"] exI [of _ d] exI [of _ b] exI [of _ "strip t"] exI [of _ s1]) simp
qed

end

definition workflow_evaluator :: "prims \<Rightarrow> config \<Rightarrow> 'd world evaluator" where
  "workflow_evaluator P cfg p t now = decide P cfg p now"

lemma decide_binds:
  assumes "decide P cfg p now w = (Inr d, w')"
  shows "(\<exists>rr. w_store w' = Document rr \<and> d \<in> set (rr_decisions rr)) \<and>
     (d_result d = Authorized \<longrightarrow> (\<exists>b. d_binding d = Some b \<and> b_proposal_commitment b = proposal_commitment P p \<and>
       b_payload_commitment b = commitment P (PDict (p_payload p))))"
proof -
  from assms obtain t w0 reasons bo rr where res: "resolve P cfg p t = Inr (reasons, bo)"
    and rec: "w_store w' = Document (add_entry (EDecision d) rr)"
    and d: "d_result d = (if reasons = [] then Authorized else Hold)"
      "d_binding d = (if reasons = [] then bo else None)"
    by (auto simp: decide_def act_iff Let_def)
  have "\<exists>b. bo = Some b \<and> b_proposal_commitment b = proposal_commitment P p \<and>
      b_payload_commitment b = commitment P (PDict (p_payload p))" if "reasons = []"
  proof -
    from resolve_shape [OF res] that obtain b where b: "bo = Some b" by auto
    with res have "resolve P cfg p t = Inr (reasons, Some b)" by simp
    then show ?thesis
    proof (rule resolve_authorized)
      fix ctx action mapping rp gp n
      assume man: "manifest_mismatches P (cf_manifest cfg) p t = Inr []"
        and mk: "make_binding P ctx (dget ctx ''grant'') p mapping n = Inr b"
      from man have "p_payload_commitment p = commitment P (PDict (p_payload p))"
        by (rule manifest_ok) (simp add: version_ok)
      with b show ?thesis by (simp add: make_binding_fields [OF mk])
    qed
  qed
  with rec d show ?thesis by (cases rr) auto
qed

interpretation workflow: binding_evaluator P "workflow_evaluator P cfg" for P cfg
  by unfold_locales (auto simp: workflow_evaluator_def dest: decide_binds)

text \<open>
  With the bounded workflow as the evaluator, an authorized outcome of the gate stands on a
  decision in the record file, whose binding commits to the proposal handed on and to its payload:
  after a transform, to the transformed payload and not to the one proposed.
\<close>

theorem agt_outcome_on_record:
  assumes "agt_evaluate P backend (workflow_evaluator P cfg) tid p tool cid snap now w = (Inr r, w')"
    and "ar_result r = AgtAuthorized"
  shows "\<exists>eff d b rr. ar_proposal r = Some eff \<and> ar_cognous_decision r = Some d \<and>
     w_store w' = Document rr \<and> d \<in> set (rr_decisions rr) \<and> d_result d = Authorized \<and> d_binding d = Some b \<and>
     ae_effective_proposal_commitment (ar_evidence r) = Some (b_proposal_commitment b) \<and>
     b_proposal_commitment b = proposal_commitment P eff \<and>
     b_payload_commitment b = commitment P (PDict (p_payload eff))"
proof -
  from workflow.outcome_bound [OF assms] obtain eff d b t w1 where
    out: "ar_proposal r = Some eff" "ar_cognous_decision r = Some d" "d_binding d = Some b"
      "ae_effective_proposal_commitment (ar_evidence r) = Some (b_proposal_commitment b)"
      "b_payload_commitment b = commitment P (PDict (p_payload eff))"
    and asked: "decide P cfg eff now w1 = (Inr d, w')" by (auto simp: workflow_evaluator_def)
  from assms have "d_result d = Authorized"
    by (rule agt_authorized) (use out in simp)
  with out decide_binds [OF asked] show ?thesis by (intro exI [of _ eff] exI [of _ d] exI [of _ b]) auto
qed

section \<open>Witnesses\<close>

text \<open>A client that allows every call, in front of the workflow of the worked example.\<close>

definition allow_response :: attr where
  "allow_response = Obj [(''verdict'', Obj [(''decision'', Obj [(''value'', Leaf (PStr ''Allow''))]),
     (''warnings'', Seq []), (''evidence'', Leaf PNone)])]"

definition demo_client :: "sdk_request \<Rightarrow> 's \<Rightarrow> attr res \<times> 's" where
  "demo_client q s = (Inr allow_response, s)"

definition demo_agt :: "dest_file world \<Rightarrow> agt_outcome res \<times> dest_file world" where
  "demo_agt = agt_evaluate demo_prims (sdk_backend True demo_client) (workflow_evaluator demo_prims (demo_config GrantActive))
     (PStr ''acme'') demo_proposal ''refunds'' None None (Some demo_now)"

lemma agt_word_allow: "agt_word (a\<lparr>ag_decision := ''Allow''\<rparr>) = ''allow''"
proof -
  have "map lower_char ''Allow'' = ''allow''" by code_simp
  then show ?thesis by (simp add: agt_word_def strip_plain printable_def)
qed

lemma demo_agt_runs: "\<exists>r. demo_agt demo_world = (Inr r, demo_decided) \<and> ar_result r = AgtAuthorized"
proof -
  define a where "a = (plain_agt_decision '''' (Leaf PNone) (Leaf PNone))\<lparr>ag_decision := ''Allow''\<rparr>"
  have ans: "sdk_response allow_response = Inr a"
    by (simp add: sdk_response_def sdk_word_def sdk_warnings_def allow_response_def getattr_def hasattr_def Let_def
        a_def plain_agt_decision_def)
  have word: "agt_word a = ''allow''" by (simp add: a_def agt_word_allow)
  then have go: "agt_stop a = None" by (simp add: agt_stop_None_iff a_def plain_agt_decision_def)
  have eff: "effective_proposal demo_prims a demo_proposal = demo_proposal" by (simp add: effective_proposal_def word)
  have tenant: "strip ''acme'' = ''acme''" by (simp add: strip_plain printable_def)
  have "d_result demo_decision = Authorized" by (simp add: demo_decision_def)
  then show ?thesis
    by (simp add: demo_agt_def agt_evaluate_def tenant sdk_backend_def demo_client_def ans go ask_cognous_def eff
        workflow_evaluator_def demo_decide)
qed

lemma agt_authorization_is_conjunctive_witness:
  "\<exists>r d. demo_agt demo_world = (Inr r, demo_decided) \<and> ar_cognous_decision r = Some d \<and> d_result d = Authorized"
proof -
  obtain r where r: "demo_agt demo_world = (Inr r, demo_decided)" "ar_result r = AgtAuthorized"
    using demo_agt_runs by blast
  from agt_authorization_is_conjunctive [OF r(1) [unfolded demo_agt_def] r(2)] r(1) show ?thesis by blast
qed

lemma agt_outcome_on_record_witness:
  "\<exists>rr d. w_store demo_decided = Document rr \<and> d \<in> set (rr_decisions rr) \<and> d_result d = Authorized"
proof -
  obtain r where r: "demo_agt demo_world = (Inr r, demo_decided)" "ar_result r = AgtAuthorized"
    using demo_agt_runs by blast
  from agt_outcome_on_record [OF r(1) [unfolded demo_agt_def] r(2)] show ?thesis by blast
qed

lemma sdk_missing: "sdk_backend False demo_client c s =
    (Inl (Raise AgtUnavailable ''agent-control-specification is not installed''), s)"
  by (simp add: sdk_backend_def throw_msg_def)

lemma agt_restriction_is_final_witness:
  "\<exists>r. agt_evaluate demo_prims (sdk_backend False demo_client) (workflow_evaluator demo_prims (demo_config GrantActive))
     (PStr ''acme'') demo_proposal ''refunds'' None None (Some demo_now) demo_world = (Inr r, demo_world) \<and>
     ar_result r = AgtHold"
proof -
  have tenant: "strip ''acme'' \<noteq> []" by (simp add: strip_plain printable_def)
  note final = agt_restriction_is_final [of "''acme''" "sdk_backend False demo_client", OF tenant sdk_missing]
  show ?thesis by (rule exE [OF final [of demo_prims "workflow_evaluator demo_prims (demo_config GrantActive)"]]) auto
qed

end
