(* ===== verification/Recorder.thy ===== *)
theory Recorder
  imports PolicyGate "HOL-Library.Sublist"
begin

text \<open>
  \<open>RunRecorder\<close> of \<open>records.py\<close> with \<open>create_frame\<close> (\<open>frame.py\<close>), \<open>generate_replay_bundle\<close>
  (\<open>replay.py\<close>) and the tool adapter of \<open>tools.py\<close>. The recorder's attributes are a record, with
  the number of uuids and clock readings used so far; an operation returns its value and the new
  recorder, or raises and leaves the recorder as it was. The lists it hands out hold the same
  objects it keeps; callers that mutate them are not modelled. The gate is the default one.
\<close>

record recorder =
  rc_run_id :: "string option"
  rc_task :: string
  rc_created_at :: string
  rc_frame :: "frame option"
  rc_actions :: "action_proposal list"
  rc_decisions :: "gate_decision list"
  rc_policy_traces :: "policy_trace list"
  rc_authority_records :: "authority_record list"
  rc_reliance_records :: "reliance_record list"
  rc_blocked_actions :: "blocked_action list"
  rc_completed :: bool
  rc_final_output :: "string option"
  rc_replay_bundle_id :: "string option"
  rc_uuids :: nat
  rc_ticks :: nat

definition new_recorder :: "nat \<Rightarrow> nat \<Rightarrow> recorder" where
  "new_recorder uuids ticks = \<lparr>rc_run_id = None, rc_task = '''', rc_created_at = '''', rc_frame = None,
     rc_actions = [], rc_decisions = [], rc_policy_traces = [], rc_authority_records = [],
     rc_reliance_records = [], rc_blocked_actions = [], rc_completed = False, rc_final_output = None,
     rc_replay_bundle_id = None, rc_uuids = uuids, rc_ticks = ticks\<rparr>"

text \<open>The next uuid and timestamp, and the recorder that has used them.\<close>

definition next_id :: "prims \<Rightarrow> recorder \<Rightarrow> string" where
  "next_id P rc = uuid4 P (rc_uuids rc)"

definition next_stamp :: "prims \<Rightarrow> recorder \<Rightarrow> string" where
  "next_stamp P rc = isoformat_utc P (clock P (rc_ticks rc))"

definition used :: "nat \<Rightarrow> nat \<Rightarrow> recorder \<Rightarrow> recorder" where
  "used ids stamps rc = rc\<lparr>rc_uuids := rc_uuids rc + ids, rc_ticks := rc_ticks rc + stamps\<rparr>"

section \<open>The run lifecycle\<close>

definition create_frame ::
  "prims \<Rightarrow> nat \<Rightarrow> nat \<Rightarrow> string \<Rightarrow> string \<Rightarrow> string \<Rightarrow> string list \<Rightarrow> string list \<Rightarrow> string \<Rightarrow> frame" where
  "create_frame P uuids ticks task actor environment allowed blocked version =
     \<lparr>fr_frame_id = uuid4 P uuids, fr_task = task, fr_actor = actor, fr_environment = environment,
      fr_allowed_tools = allowed, fr_blocked_tools = blocked, fr_policy_version = version,
      fr_created_at = isoformat_utc P (clock P ticks)\<rparr>"

definition start_run ::
  "prims \<Rightarrow> string \<Rightarrow> string \<Rightarrow> string \<Rightarrow> string list \<Rightarrow> string list \<Rightarrow> string \<Rightarrow> recorder \<Rightarrow> string \<times> recorder" where
  "start_run P task actor environment allowed blocked version rc =
     (let run_id = next_id P rc;
          fr = create_frame P (Suc (rc_uuids rc)) (rc_ticks rc) task actor environment allowed blocked version
      in (run_id, (used 2 1 rc)\<lparr>rc_run_id := Some run_id, rc_task := task, rc_frame := Some fr,
                                rc_created_at := fr_created_at fr\<rparr>))"

text \<open>\<open>_require_started\<close>: the run id and frame of the run, or a raise.\<close>

definition require_started :: "recorder \<Rightarrow> (string \<times> frame) res" where
  "require_started rc = (case (rc_run_id rc, rc_frame rc) of
      (Some i, Some fr) \<Rightarrow> Inr (i, fr)
    | _ \<Rightarrow> throw_msg RuntimeError ''Run has not been started.  Call start_run() first.'')"

definition add_authority_record ::
  "prims \<Rightarrow> string \<Rightarrow> string list \<Rightarrow> string \<Rightarrow> string option \<Rightarrow> recorder \<Rightarrow> (authority_record \<times> recorder) res" where
  "add_authority_record P actor scope source expires rc =
     bindE (require_started rc) (\<lambda>(run_id, _).
       let r = \<lparr>au_authority_id = next_id P rc, au_run_id = run_id, au_actor = actor, au_scope = scope,
                au_expires_at = expires, au_source = source, au_created_at = next_stamp P rc\<rparr>
       in Inr (r, (used 1 1 rc)\<lparr>rc_authority_records := rc_authority_records rc @ [r]\<rparr>))"

definition propose_action ::
  "prims \<Rightarrow> string \<Rightarrow> string \<Rightarrow> string \<Rightarrow> pydict option \<Rightarrow> string option \<Rightarrow> recorder \<Rightarrow>
     (action_proposal \<times> recorder) res" where
  "propose_action P tool_name action_type target payload reason rc =
     bindE (require_started rc) (\<lambda>(run_id, _).
       let a = \<lparr>ac_action_id = next_id P rc, ac_run_id = run_id, ac_tool_name = tool_name,
                ac_action_type = action_type, ac_target = target,
                ac_payload = (case payload of None \<Rightarrow> [] | Some d \<Rightarrow> d),
                ac_proposed_at = next_stamp P rc, ac_reason = reason\<rparr>
       in Inr (a, (used 1 1 rc)\<lparr>rc_actions := rc_actions rc @ [a]\<rparr>))"

text \<open>The gate's answer, with or without a trace, and the recorder that has used its ids.\<close>

definition ask_gate ::
  "prims \<Rightarrow> action_proposal \<Rightarrow> frame \<Rightarrow> bool \<Rightarrow> recorder \<Rightarrow> (gate_decision \<times> policy_trace list \<times> recorder) res" where
  "ask_gate P action fr include_trace rc =
     (if include_trace
      then bindE (gate_evaluate_with_trace P action fr (rc_authority_records rc) TimeNow (rc_uuids rc, rc_ticks rc))
        (\<lambda>(d, tr, uuids, ticks). Inr (d, [tr], rc\<lparr>rc_uuids := uuids, rc_ticks := ticks\<rparr>))
      else bindE (gate_evaluate P action fr (rc_authority_records rc) TimeNow (rc_uuids rc, rc_ticks rc))
        (\<lambda>(d, uuids, ticks). Inr (d, [], rc\<lparr>rc_uuids := uuids, rc_ticks := ticks\<rparr>)))"

definition evaluate_action ::
  "prims \<Rightarrow> action_proposal \<Rightarrow> bool \<Rightarrow> recorder \<Rightarrow> ((gate_decision \<times> blocked_action option) \<times> recorder) res" where
  "evaluate_action P action include_trace rc =
     bindE (require_started rc) (\<lambda>(run_id, fr).
       if ac_run_id action \<noteq> run_id then throw_msg ValueError ''Action belongs to a different run.''
       else if \<not> list_ex (\<lambda>a. ac_action_id a = ac_action_id action) (rc_actions rc)
         then throw_msg ValueError ''Action was not proposed in this run.''
       else bindE (ask_gate P action fr include_trace rc) (\<lambda>(d, traces, rc1).
         let rc2 = rc1\<lparr>rc_policy_traces := rc_policy_traces rc @ traces, rc_decisions := rc_decisions rc @ [d]\<rparr>
         in if gd_result d = Block
            then (let b = \<lparr>ba_blocked_id = next_id P rc2, ba_action_id = ac_action_id action, ba_run_id = run_id,
                           ba_reason = gd_reason d, ba_policy_name = gd_policy_name d,
                           ba_blocked_at = next_stamp P rc2\<rparr>
                  in Inr ((d, Some b), (used 1 1 rc2)\<lparr>rc_blocked_actions := rc_blocked_actions rc @ [b]\<rparr>))
            else Inr ((d, None), rc2)))"

text \<open>The source types \<open>RelianceRecord\<close> accepts.\<close>

definition source_type_of :: "string \<Rightarrow> source_type option" where
  "source_type_of s = map_of
     [(''tool'', SrcTool), (''database'', SrcDatabase), (''file'', SrcFile), (''api'', SrcApi),
      (''user_input'', SrcUserInput), (''model_output'', SrcModelOutput), (''other'', SrcOther)] s"

definition record_reliance ::
  "prims \<Rightarrow> string \<Rightarrow> string \<Rightarrow> string \<Rightarrow> string option \<Rightarrow> recorder \<Rightarrow> (reliance_record \<times> recorder) res" where
  "record_reliance P source_name source_type scope referenced rc =
     bindE (require_started rc) (\<lambda>(run_id, _).
       case source_type_of source_type of
         None \<Rightarrow> throw ValidationError
       | Some st \<Rightarrow>
          (let r = \<lparr>rl_reliance_id = next_id P rc, rl_run_id = run_id, rl_source_name = source_name,
                    rl_source_type = st, rl_scope = scope, rl_referenced_action_id = referenced,
                    rl_created_at = next_stamp P rc\<rparr>
           in Inr (r, (used 1 1 rc)\<lparr>rc_reliance_records := rc_reliance_records rc @ [r]\<rparr>)))"

definition complete_run :: "string option \<Rightarrow> recorder \<Rightarrow> (unit \<times> recorder) res" where
  "complete_run out rc = bindE (require_started rc) (\<lambda>_. Inr ((), rc\<lparr>rc_completed := True, rc_final_output := out\<rparr>))"

section \<open>Exports\<close>

definition to_run_record :: "recorder \<Rightarrow> agent_run res" where
  "to_run_record rc = bindE (require_started rc) (\<lambda>(run_id, fr).
     Inr \<lparr>rb_run_id = run_id, rb_frame = fr, rb_actions = rc_actions rc, rb_decisions = rc_decisions rc,
          rb_policy_traces = rc_policy_traces rc, rb_authority_records = rc_authority_records rc,
          rb_reliance_records = rc_reliance_records rc, rb_blocked_actions = rc_blocked_actions rc,
          rb_final_output = rc_final_output rc, ar_task = rc_task rc, ar_created_at = rc_created_at rc,
          ar_completed = rc_completed rc, ar_replay_bundle_id = rc_replay_bundle_id rc\<rparr>)"

text \<open>\<open>generate_replay_bundle\<close> of \<open>replay.py\<close>, given the id and the time it uses.\<close>

definition bundle_of_run :: "string \<Rightarrow> string \<Rightarrow> agent_run \<Rightarrow> replay_bundle" where
  "bundle_of_run bundle_id generated_at r =
     \<lparr>rb_run_id = rb_run_id r, rb_frame = rb_frame r, rb_actions = rb_actions r, rb_decisions = rb_decisions r,
      rb_policy_traces = rb_policy_traces r, rb_authority_records = rb_authority_records r,
      rb_reliance_records = rb_reliance_records r, rb_blocked_actions = rb_blocked_actions r,
      rb_final_output = rb_final_output r, bu_replay_bundle_id = bundle_id, bu_generated_at = generated_at\<rparr>"

definition generate_bundle :: "prims \<Rightarrow> recorder \<Rightarrow> (replay_bundle \<times> recorder) res" where
  "generate_bundle P rc = bindE (to_run_record rc) (\<lambda>r.
     let bundle = bundle_of_run (next_id P rc) (next_stamp P rc) r
     in Inr (bundle, (used 1 1 rc)\<lparr>rc_replay_bundle_id := Some (bu_replay_bundle_id bundle)\<rparr>))"

section \<open>Tool execution\<close>

text \<open>An adapter acts on a world of its own: \<open>execute(target, payload)\<close> may change it and may raise.\<close>

record 'x adapter =
  ad_name :: string
  ad_action_type :: string
  ad_execute :: "string \<Rightarrow> pydict \<Rightarrow> 'x \<Rightarrow> pydict res \<times> 'x"

text \<open>
  \<open>execute_with_control\<close>: the answer or the exception, with the recorder and the adapter's world
  as they are then. The adapter gets the target and payload of the proposal, and only after the
  gate allowed it and its name and action type are the approved ones.
\<close>

definition execute_with_control ::
  "prims \<Rightarrow> string \<Rightarrow> string \<Rightarrow> string \<Rightarrow> pydict option \<Rightarrow> string option \<Rightarrow> 'x adapter option \<Rightarrow>
     recorder \<Rightarrow> 'x \<Rightarrow> (gate_decision \<times> tool_result option) res \<times> recorder \<times> 'x" where
  "execute_with_control P tool_name action_type target payload reason adapter rc x =
     (let sent = (case payload of None \<Rightarrow> [] | Some p \<Rightarrow> p)
      in case propose_action P tool_name action_type target (Some sent) reason rc of
        Inl e \<Rightarrow> (Inl e, rc, x)
      | Inr (action, rc1) \<Rightarrow>
         (case evaluate_action P action True rc1 of
            Inl e \<Rightarrow> (Inl e, rc1, x)
          | Inr ((d, _), rc2) \<Rightarrow>
             (let result = (\<lambda>executed out err. \<lparr>tx_action_id = ac_action_id action, tx_run_id = ac_run_id action,
                    tx_executed = executed, tx_result = out, tx_error = err\<rparr>)
              in if gd_result d \<noteq> Allow then (Inr (d, None), rc2, x)
                 else (case adapter of
                    None \<Rightarrow> (Inr (d, Some (result False [] (Some ''No adapter provided.''))), rc2, x)
                  | Some ad \<Rightarrow>
                      if ad_name ad \<noteq> tool_name \<or> ad_action_type ad \<noteq> action_type
                      then (Inr (d, Some (result False [] (Some
                        (''Adapter binding mismatch: approved '' @ tool_name @ ''/'' @ action_type @ '', got '' @
                         ad_name ad @ ''/'' @ ad_action_type ad @ ''.'')))), rc2, x)
                      else (case ad_execute ad target sent x of
                          (Inl e, x') \<Rightarrow> (Inr (d, Some (result True [] (Some (exn_message e)))), rc2, x')
                        | (Inr out, x') \<Rightarrow>
                            (case record_reliance P tool_name ''tool'' (''Executed '' @ action_type @ '' on '' @ target)
                                    (Some (ac_action_id action)) rc2 of
                               Inl e \<Rightarrow> (Inl e, rc2, x')
                             | Inr (_, rc3) \<Rightarrow> (Inr (d, Some (result True out None)), rc3, x')))))))"

section \<open>What an operation does to the recorder\<close>

lemma require_started_iff: "require_started rc = Inr (i, fr) \<longleftrightarrow> rc_run_id rc = Some i \<and> rc_frame rc = Some fr"
  by (auto simp: require_started_def split: option.splits)

lemma ask_gate_cases:
  assumes "ask_gate P action fr b rc = Inr (d, trs, rc1)"
  obtains t ticks scopes n where
    "gate_time P TimeNow (rc_ticks rc) = Inr (t, ticks)"
    "active_scopes P action fr (rc_authority_records rc) t = Inr scopes"
    "gd_result d = rule_outcome action fr scopes" "gd_action_id d = ac_action_id action"
    "gd_run_id d = ac_run_id action" "rc1 = rc\<lparr>rc_uuids := n, rc_ticks := ticks\<rparr>" "rc_uuids rc < n"
    "(trs = [] \<and> gd_trace_id d = None) \<or>
     (\<exists>tr. trs = [tr] \<and> gd_trace_id d = Some (tr_trace_id tr) \<and> tr_trace_id tr = next_id P rc \<and>
        tr_fingerprint tr = gd_fingerprint d \<and> tr_run_id tr = ac_run_id action \<and>
        tr_action_id tr = ac_action_id action)"
proof (cases b)
  case True
  with assms obtain tr u k where e: "gate_evaluate_with_trace P action fr (rc_authority_records rc) TimeNow
      (rc_uuids rc, rc_ticks rc) = Inr (d, tr, u, k)" "trs = [tr]" "rc1 = rc\<lparr>rc_uuids := u, rc_ticks := k\<rparr>"
    by (auto simp: ask_gate_def res_iff)
  from e(1) show thesis
    by (rule gate_trace_cases) (rule that, auto simp: e next_id_def)
next
  case False
  with assms obtain u k where e: "gate_evaluate P action fr (rc_authority_records rc) TimeNow
      (rc_uuids rc, rc_ticks rc) = Inr (d, u, k)" "trs = []" "rc1 = rc\<lparr>rc_uuids := u, rc_ticks := k\<rparr>"
    by (auto simp: ask_gate_def res_iff)
  from e(1) show thesis
    by (rule gate_evaluate_cases) (rule that, auto simp: e)
qed

lemma evaluate_action_cases:
  assumes "evaluate_action P action b rc = Inr ((d, blk), rc')"
  obtains i fr trs rc1 where
    "rc_run_id rc = Some i" "rc_frame rc = Some fr" "ac_run_id action = i"
    "ac_action_id action \<in> ac_action_id ` set (rc_actions rc)"
    "ask_gate P action fr b rc = Inr (d, trs, rc1)"
    "gd_result d \<noteq> Block" "blk = None"
    "rc' = rc1\<lparr>rc_policy_traces := rc_policy_traces rc @ trs, rc_decisions := rc_decisions rc @ [d]\<rparr>"
  | i fr trs rc1 bl where
    "rc_run_id rc = Some i" "rc_frame rc = Some fr" "ac_run_id action = i"
    "ac_action_id action \<in> ac_action_id ` set (rc_actions rc)"
    "ask_gate P action fr b rc = Inr (d, trs, rc1)"
    "gd_result d = Block" "blk = Some bl" "ba_run_id bl = i" "ba_action_id bl = ac_action_id action"
    "rc' = (used 1 1 rc1)\<lparr>rc_policy_traces := rc_policy_traces rc @ trs, rc_decisions := rc_decisions rc @ [d],
             rc_blocked_actions := rc_blocked_actions rc @ [bl]\<rparr>"
proof -
  from assms obtain i fr where rq: "require_started rc = Inr (i, fr)"
    by (auto simp: evaluate_action_def bindE_Inr_iff)
  have run: "ac_run_id action = i" and lx: "list_ex (\<lambda>a. ac_action_id a = ac_action_id action) (rc_actions rc)"
    using assms by (simp_all add: evaluate_action_def rq split: if_splits)
  from assms obtain trs rc1 where ask: "ask_gate P action fr b rc = Inr (d, trs, rc1)"
    by (cases "ask_gate P action fr b rc") (auto simp: evaluate_action_def rq run lx Let_def split: if_splits)
  have base: "rc_run_id rc = Some i" "rc_frame rc = Some fr" "ac_run_id action = i"
    "ac_action_id action \<in> ac_action_id ` set (rc_actions rc)" "ask_gate P action fr b rc = Inr (d, trs, rc1)"
    using rq run lx ask by (auto simp: require_started_iff list_ex_iff intro: rev_image_eqI)
  from base(5) obtain n k where rc1: "rc1 = rc\<lparr>rc_uuids := n, rc_ticks := k\<rparr>" by (rule ask_gate_cases)
  show thesis
  proof (cases "gd_result d = Block")
    case True
    from assms True obtain bl where "blk = Some bl" "ba_run_id bl = i" "ba_action_id bl = ac_action_id action"
      "rc' = (used 1 1 rc1)\<lparr>rc_policy_traces := rc_policy_traces rc @ trs, rc_decisions := rc_decisions rc @ [d],
             rc_blocked_actions := rc_blocked_actions rc @ [bl]\<rparr>"
      by (auto simp: evaluate_action_def rq base lx rc1 used_def Let_def)
    with base True show thesis by (rule that(2))
  next
    case False
    with assms show thesis
      by (intro that(1) [OF base False]) (auto simp: evaluate_action_def rq base lx rc1)
  qed
qed

section \<open>Sequences of operations\<close>

text \<open>
  The operations on a started recorder, with their arguments; a tool execution also acts on the
  world of its adapter. A call that raises leaves the recorder as it was (the ids and readings it
  drew before raising are not counted), except that a tool execution keeps what its completed
  parts recorded.
\<close>

datatype 'x rec_op =
    OpAuthority string "string list" string "string option"
  | OpPropose string string string "pydict option" "string option"
  | OpEvaluate action_proposal bool
  | OpReliance string string string "string option"
  | OpComplete "string option"
  | OpBundle
  | OpExecute string string string "pydict option" "string option" "'x adapter option"

definition kept :: "recorder \<Rightarrow> ('a \<times> recorder) res \<Rightarrow> recorder" where
  "kept rc r = (case r of Inl _ \<Rightarrow> rc | Inr (_, rc') \<Rightarrow> rc')"

fun rec_step :: "prims \<Rightarrow> 'x rec_op \<Rightarrow> recorder \<times> 'x \<Rightarrow> recorder \<times> 'x" where
  "rec_step P (OpAuthority actor scope source expires) (rc, x) =
     (kept rc (add_authority_record P actor scope source expires rc), x)"
| "rec_step P (OpPropose tool act target payload reason) (rc, x) =
     (kept rc (propose_action P tool act target payload reason rc), x)"
| "rec_step P (OpEvaluate action trace) (rc, x) = (kept rc (evaluate_action P action trace rc), x)"
| "rec_step P (OpReliance name act scope ref) (rc, x) = (kept rc (record_reliance P name act scope ref rc), x)"
| "rec_step P (OpComplete out) (rc, x) = (kept rc (complete_run out rc), x)"
| "rec_step P OpBundle (rc, x) = (kept rc (generate_bundle P rc), x)"
| "rec_step P (OpExecute tool act target payload reason ad) (rc, x) =
     snd (execute_with_control P tool act target payload reason ad rc x)"

definition rec_run :: "prims \<Rightarrow> 'x rec_op list \<Rightarrow> recorder \<times> 'x \<Rightarrow> recorder \<times> 'x" where
  "rec_run P ops s = fold (rec_step P) ops s"

text \<open>Where a tool execution leaves the recorder: after as many of its recordings as succeeded.\<close>

lemma execute_recorder:
  assumes "snd (execute_with_control P tool act target payload reason ad rc x) = (rc', x')"
  shows "rc' = rc \<or>
    (\<exists>action rc1. propose_action P tool act target (Some (case payload of None \<Rightarrow> [] | Some p \<Rightarrow> p)) reason rc =
       Inr (action, rc1) \<and> (rc' = rc1 \<or>
      (\<exists>d rc2. evaluate_action P action True rc1 = Inr (d, rc2) \<and> (rc' = rc2 \<or>
        (\<exists>l. record_reliance P tool ''tool'' (''Executed '' @ act @ '' on '' @ target)
               (Some (ac_action_id action)) rc2 = Inr (l, rc'))))))"
  using assms unfolding execute_with_control_def Let_def
  by (auto split: sum.splits prod.splits option.splits if_splits)

text \<open>
  The contract of an invariant of recorders: the six recording operations keep it. Tool
  executions, and so whole sequences of operations, then keep it too.
\<close>

locale recorder_invariant =
  fixes P :: prims and Q :: "recorder \<Rightarrow> bool"
  assumes authority: "Q rc \<Longrightarrow> add_authority_record P actor sc source e rc = Inr (r, rc') \<Longrightarrow> Q rc'"
    and propose: "Q rc \<Longrightarrow> propose_action P tool act target payload reason rc = Inr (a, rc') \<Longrightarrow> Q rc'"
    and evaluate: "Q rc \<Longrightarrow> evaluate_action P action b rc = Inr (d, rc') \<Longrightarrow> Q rc'"
    and reliance: "Q rc \<Longrightarrow> record_reliance P name styp sc' ref rc = Inr (l, rc') \<Longrightarrow> Q rc'"
    and complete: "Q rc \<Longrightarrow> complete_run out rc = Inr (u, rc') \<Longrightarrow> Q rc'"
    and bundling: "Q rc \<Longrightarrow> generate_bundle P rc = Inr (bd, rc') \<Longrightarrow> Q rc'"
begin

lemma execute: "Q rc \<Longrightarrow> Q (fst (snd (execute_with_control P tool act target payload reason ad rc x)))"
  using execute_recorder [of P tool act target payload reason ad rc x] propose evaluate reliance
  by (metis prod.collapse)

lemma step: "Q (fst s) \<Longrightarrow> Q (fst (rec_step P op s))"
  by (cases s; cases op) (auto simp: kept_def split: sum.splits prod.splits
      dest: authority propose evaluate reliance complete bundling intro: execute)

lemma run: "Q (fst s) \<Longrightarrow> Q (fst (rec_run P ops s))"
  by (induction ops arbitrary: s) (simp_all add: rec_run_def step)

end

lemmas recorder_ops = add_authority_record_def propose_action_def record_reliance_def complete_run_def
  generate_bundle_def to_run_record_def bindE_Inr_iff require_started_iff used_def Let_def

text \<open>A recorder's history is only ever extended, and its run and frame stay the same.\<close>

definition extends_recorder :: "recorder \<Rightarrow> recorder \<Rightarrow> bool" where
  "extends_recorder old new \<longleftrightarrow>
     rc_run_id new = rc_run_id old \<and> rc_frame new = rc_frame old \<and> rc_task new = rc_task old \<and>
     rc_created_at new = rc_created_at old \<and> rc_uuids old \<le> rc_uuids new \<and>
     prefix (rc_actions old) (rc_actions new) \<and> prefix (rc_decisions old) (rc_decisions new) \<and>
     prefix (rc_policy_traces old) (rc_policy_traces new) \<and>
     prefix (rc_authority_records old) (rc_authority_records new) \<and>
     prefix (rc_reliance_records old) (rc_reliance_records new) \<and>
     prefix (rc_blocked_actions old) (rc_blocked_actions new)"

lemma extends_recorder_refl: "extends_recorder rc rc"
  by (simp add: extends_recorder_def)

lemma evaluate_extends:
  assumes "evaluate_action P action b rc = Inr (r, rc')"
  shows "extends_recorder rc rc' \<and> rc_actions rc' = rc_actions rc \<and> rc_authority_records rc' = rc_authority_records rc"
proof -
  obtain d blk where r: "r = (d, blk)" by (cases r)
  from assms [unfolded r] show ?thesis
    by (rule evaluate_action_cases; elim ask_gate_cases) (auto simp: extends_recorder_def used_def)
qed

lemma extends_recorder_trans: "extends_recorder a b \<Longrightarrow> extends_recorder b c \<Longrightarrow> extends_recorder a c"
  unfolding extends_recorder_def by (auto intro: prefix_order.trans)

interpretation history: recorder_invariant P "extends_recorder old" for P old
proof unfold_locales
  fix rc action b d rc'
  assume "extends_recorder old rc" "evaluate_action P action b rc = Inr (d, rc')"
  then show "extends_recorder old rc'" using evaluate_extends extends_recorder_trans by blast
qed (auto simp: recorder_ops extends_recorder_def split: option.splits intro: prefix_prefix)


section \<open>Properties\<close>

text \<open>When a tool execution reaches the adapter: the gate's decision, and the binding of the adapter.\<close>

lemma execute_world:
  assumes "execute_with_control P tool act target payload reason adapter rc x = (r, rc', x')" "x' \<noteq> x"
  obtains ad action rc1 d blk rc2 where "adapter = Some ad" "ad_name ad = tool" "ad_action_type ad = act"
    "x' = snd (ad_execute ad target (case payload of None \<Rightarrow> [] | Some p \<Rightarrow> p) x)"
    "propose_action P tool act target (Some (case payload of None \<Rightarrow> [] | Some p \<Rightarrow> p)) reason rc = Inr (action, rc1)"
    "evaluate_action P action True rc1 = Inr ((d, blk), rc2)" "gd_result d = Allow"
    "rc' = rc2 \<or> (\<exists>l. record_reliance P tool ''tool'' (''Executed '' @ act @ '' on '' @ target)
               (Some (ac_action_id action)) rc2 = Inr (l, rc'))"
  using assms unfolding execute_with_control_def Let_def
  by (auto split: sum.splits prod.splits option.splits if_splits)

lemma allowed_outcome:
  assumes "rule_outcome action fr scopes = Allow"
  shows "ac_tool_name action \<in> set (fr_allowed_tools fr) \<and> ac_tool_name action \<notin> set (fr_blocked_tools fr) \<and>
    (ac_action_type action = ''read'' \<or>
     ac_action_type action \<in> {''write'', ''external_send''} \<and> ac_action_type action \<in> set scopes)"
  using assms by (auto simp: rule_outcome_def split: if_splits)

text \<open>
  C25. A tool acts only when the gate allows it: if executing an action changes anything in the
  adapter's world, the adapter is the one approved (same tool name and action type), it was called
  with exactly the proposed target and payload, the recorder gained an allowing decision about the
  proposed action, the frame permits the tool, and an action other than a read is covered by an
  unexpired authority record of this run for the frame's actor.
\<close>

theorem adapter_acts_only_when_allowed:
  assumes "execute_with_control P tool act target payload reason adapter rc x = (r, rc', x')" "x' \<noteq> x"
  shows "\<exists>ad fr run d. adapter = Some ad \<and> ad_name ad = tool \<and> ad_action_type ad = act \<and>
     x' = snd (ad_execute ad target (case payload of None \<Rightarrow> [] | Some p \<Rightarrow> p) x) \<and>
     rc_run_id rc = Some run \<and> rc_frame rc = Some fr \<and>
     rc_decisions rc' = rc_decisions rc @ [d] \<and> gd_result d = Allow \<and> gd_action_id d = next_id P rc \<and>
     tool \<in> set (fr_allowed_tools fr) \<and> tool \<notin> set (fr_blocked_tools fr) \<and>
     (act = ''read'' \<or> act \<in> {''write'', ''external_send''} \<and>
        (\<exists>au\<in>set (rc_authority_records rc). act \<in> set (au_scope au) \<and> au_run_id au = run \<and>
           au_actor au = fr_actor fr \<and>
           (\<forall>e. au_expires_at au = Some e \<longrightarrow>
              (\<exists>t. parse_time P e = Inr t \<and> clock P (Suc (rc_ticks rc)) < t))))"
  using assms
proof (rule execute_world)
  fix ad action rc1 d blk rc2
  assume ad: "adapter = Some ad" "ad_name ad = tool" "ad_action_type ad = act"
    "x' = snd (ad_execute ad target (case payload of None \<Rightarrow> [] | Some p \<Rightarrow> p) x)"
    and pr: "propose_action P tool act target (Some (case payload of None \<Rightarrow> [] | Some p \<Rightarrow> p)) reason rc = Inr (action, rc1)"
    and ev: "evaluate_action P action True rc1 = Inr ((d, blk), rc2)" and al: "gd_result d = Allow"
    and rc': "rc' = rc2 \<or> (\<exists>l. record_reliance P tool ''tool'' (''Executed '' @ act @ '' on '' @ target)
               (Some (ac_action_id action)) rc2 = Inr (l, rc'))"
  from pr obtain run fr where rc1: "rc_run_id rc = Some run" "rc_frame rc = Some fr" "rc_frame rc1 = Some fr"
    "rc_authority_records rc1 = rc_authority_records rc" "rc_decisions rc1 = rc_decisions rc"
    "rc_ticks rc1 = Suc (rc_ticks rc)" "ac_action_id action = next_id P rc" "ac_run_id action = run"
    "ac_tool_name action = tool" "ac_action_type action = act"
    by (auto simp: recorder_ops)
  have dec: "rc_decisions rc' = rc_decisions rc2"
    using rc' by (auto simp: recorder_ops split: option.splits)
  from ev al obtain trs rcg where ask: "ask_gate P action fr True rc1 = Inr (d, trs, rcg)"
    and d2: "rc_decisions rc2 = rc_decisions rc @ [d]"
    by (cases rule: evaluate_action_cases) (use rc1 in auto)
  from ask obtain t k scopes where g: "gate_time P TimeNow (Suc (rc_ticks rc)) = Inr (t, k)"
    "active_scopes P action fr (rc_authority_records rc) t = Inr scopes"
    "rule_outcome action fr scopes = Allow" "gd_action_id d = next_id P rc"
    by (rule ask_gate_cases) (use rc1 al in auto)
  from g(1) have "t = clock P (Suc (rc_ticks rc))" by (simp add: gate_time_def)
  with allowed_outcome [OF g(3)] active_scopes_member [OF g(2)] rc1 ad dec d2 al g(4)
  show ?thesis by (intro exI [of _ ad] exI [of _ fr] exI [of _ run] exI [of _ d]) auto
qed

text \<open>
  The record of a run is append-only: whatever operations follow, with any arguments and any
  adapters, the run id, task and frame stay, and every action, decision, trace, authority record,
  reliance record and blocked action recorded so far stays in its place.
\<close>

theorem recorder_history_grows: "extends_recorder (fst s) (fst (rec_run P ops s))"
  by (rule history.run) (rule extends_recorder_refl)

section \<open>Witnesses\<close>

definition sample_recorder :: recorder where
  "sample_recorder = (new_recorder 0 0)\<lparr>rc_run_id := Some ''run'', rc_frame := Some sample_frame,
     rc_authority_records := [sample_authority]\<rparr>"

definition sample_adapter :: "nat adapter" where
  "sample_adapter = \<lparr>ad_name = ''crm'', ad_action_type = ''write'', ad_execute = (\<lambda>t p n. (Inr p, Suc n))\<rparr>"

lemma sample_execution:
  "snd (snd (execute_with_control sample_prims ''crm'' ''write'' ''c:1'' None None (Some sample_adapter) sample_recorder 0)) =
     Suc 0"
  by (simp add: execute_with_control_def propose_action_def evaluate_action_def require_started_def ask_gate_def
      gate_evaluate_with_trace_def gate_time_def active_scopes_def record_scopes_def parse_time_def apply_rules_def
      gate_rules_def record_reliance_def source_type_of_def used_def new_recorder_def sample_recorder_def Let_def next_id_def
      sample_adapter_def sample_defs split: prod.splits)

lemma adapter_acts_only_when_allowed_witness:
  "\<exists>d. snd (snd (execute_with_control sample_prims ''crm'' ''write'' ''c:1'' None None (Some sample_adapter)
        sample_recorder 0)) \<noteq> (0 :: nat) \<and>
     rc_decisions (fst (snd (execute_with_control sample_prims ''crm'' ''write'' ''c:1'' None None
        (Some sample_adapter) sample_recorder 0))) = [d] \<and> gd_result d = Allow"
proof -
  let ?e = "execute_with_control sample_prims ''crm'' ''write'' ''c:1'' None None (Some sample_adapter) sample_recorder 0"
  obtain r rc x where e: "?e = (r, rc, x)" by (cases ?e)
  have x: "x \<noteq> 0" using sample_execution e by simp
  from adapter_acts_only_when_allowed [OF e x] x e show ?thesis
    by (auto simp: sample_recorder_def new_recorder_def)
qed

end
