(* ===== verification/Validation.thy ===== *)
theory Validation
  imports Recorder
begin

text \<open>
  The semantic validation of run records and replay bundles (\<open>validation.py\<close>), and what it says
  about the records a \<open>RunRecorder\<close> exports.
\<close>

section \<open>Issues\<close>

text \<open>One \<open>if\<close> of the validator, appending an issue when its condition holds.\<close>

definition error_if :: "bool \<Rightarrow> string \<Rightarrow> string \<Rightarrow> string \<Rightarrow> validation_issue list" where
  "error_if c code message path =
     (if c then [\<lparr>vi_severity = SevError, vi_code = code, vi_message = message, vi_path = Some path\<rparr>] else [])"

definition warning_if :: "bool \<Rightarrow> string \<Rightarrow> string \<Rightarrow> string \<Rightarrow> validation_issue list" where
  "warning_if c code message path =
     (if c then [\<lparr>vi_severity = SevWarning, vi_code = code, vi_message = message, vi_path = Some path\<rparr>] else [])"

definition is_error :: "validation_issue \<Rightarrow> bool" where
  "is_error i \<longleftrightarrow> vi_severity i = SevError"

definition report_of :: "string \<Rightarrow> string \<Rightarrow> validation_issue list \<Rightarrow> validation_report" where
  "report_of object_type checked_id issues =
     \<lparr>vr_valid = (\<not> list_ex is_error issues), vr_checked_object_type = object_type,
      vr_checked_id = checked_id, vr_issues = issues\<rparr>"

text \<open>\<open>for index, x in enumerate(xs)\<close>, the body appending issues; a path into a list; \<open>!r\<close>.\<close>

definition for_each :: "(nat \<Rightarrow> 'a \<Rightarrow> validation_issue list) \<Rightarrow> 'a list \<Rightarrow> validation_issue list" where
  "for_each body xs = concat (map (\<lambda>(index, x). body index x) (enumerate 0 xs))"

definition at_index :: "string \<Rightarrow> nat \<Rightarrow> string \<Rightarrow> string" where
  "at_index field index rest = field @ ''['' @ digits_int (int index) @ '']'' @ rest"

definition shown :: "prims \<Rightarrow> string \<Rightarrow> string" where
  "shown P s = container_repr P (PStr s)"

section \<open>The checks\<close>

definition action_issues :: "prims \<Rightarrow> string \<Rightarrow> nat \<Rightarrow> action_proposal \<Rightarrow> validation_issue list" where
  "action_issues P run_id index a =
     error_if (ac_run_id a \<noteq> run_id) ''action_run_id_mismatch''
       (''Action '' @ ac_action_id a @ '' has run_id '' @ shown P (ac_run_id a) @ '', expected '' @ shown P run_id @ ''.'')
       (at_index ''actions'' index ''.run_id'')"

text \<open>\<open>trace_by_id\<close>, where a later trace replaces an earlier one with the same id.\<close>

definition trace_by_id :: "policy_trace list \<Rightarrow> string \<Rightarrow> policy_trace option" where
  "trace_by_id traces = map_of (rev (map (\<lambda>t. (tr_trace_id t, t)) traces))"

definition decision_issues ::
  "prims \<Rightarrow> string \<Rightarrow> string set \<Rightarrow> policy_trace list \<Rightarrow> nat \<Rightarrow> gate_decision \<Rightarrow> validation_issue list" where
  "decision_issues P run_id action_ids traces index d =
     error_if (gd_run_id d \<noteq> run_id) ''decision_run_id_mismatch''
       (''Policy decision '' @ gd_decision_id d @ '' has run_id '' @ shown P (gd_run_id d) @ '', expected '' @
        shown P run_id @ ''.'') (at_index ''decisions'' index ''.run_id'') @
     error_if (gd_action_id d \<notin> action_ids) ''decision_action_missing''
       (''Policy decision '' @ gd_decision_id d @ '' references unknown action '' @ shown P (gd_action_id d) @ ''.'')
       (at_index ''decisions'' index ''.action_id'') @
     (case gd_trace_id d of None \<Rightarrow> []
      | Some t \<Rightarrow> (case trace_by_id traces t of
          None \<Rightarrow> error_if True ''decision_trace_missing''
            (''Policy decision '' @ gd_decision_id d @ '' references unknown trace '' @ shown P t @ ''.'')
            (at_index ''decisions'' index ''.trace_id'')
        | Some tr \<Rightarrow> error_if (tr_fingerprint tr \<noteq> gd_fingerprint d) ''decision_trace_fingerprint_mismatch''
            ''Policy decision and referenced evaluation trace have different deterministic fingerprints.''
            (at_index ''decisions'' index ''.trace_id'')))"

text \<open>\<open>decision_by_action\<close>: the decisions about an action.\<close>

definition decision_by_action :: "gate_decision list \<Rightarrow> string \<Rightarrow> gate_decision list" where
  "decision_by_action decisions action_id = filter (\<lambda>d. gd_action_id d = action_id) decisions"

definition blocked_issues ::
  "prims \<Rightarrow> string \<Rightarrow> string set \<Rightarrow> gate_decision list \<Rightarrow> nat \<Rightarrow> blocked_action \<Rightarrow> validation_issue list" where
  "blocked_issues P run_id action_ids decisions index b =
     error_if (ba_run_id b \<noteq> run_id) ''blocked_action_run_id_mismatch''
       (''Blocked action '' @ ba_blocked_id b @ '' has run_id '' @ shown P (ba_run_id b) @ '', expected '' @
        shown P run_id @ ''.'') (at_index ''blocked_actions'' index ''.run_id'') @
     error_if (ba_action_id b \<notin> action_ids) ''blocked_action_missing_action''
       (''Blocked action '' @ ba_blocked_id b @ '' references unknown action '' @ shown P (ba_action_id b) @ ''.'')
       (at_index ''blocked_actions'' index ''.action_id'') @
     error_if (\<not> list_ex (\<lambda>d. gd_result d = Block) (decision_by_action decisions (ba_action_id b)))
       ''blocked_action_without_block_decision''
       (''Blocked action '' @ ba_blocked_id b @ '' does not correspond to a block policy decision.'')
       (at_index ''blocked_actions'' index '''')"

definition reliance_issues :: "prims \<Rightarrow> string \<Rightarrow> string set \<Rightarrow> nat \<Rightarrow> reliance_record \<Rightarrow> validation_issue list" where
  "reliance_issues P run_id action_ids index l =
     error_if (rl_run_id l \<noteq> run_id) ''reliance_run_id_mismatch''
       (''Reliance record '' @ rl_reliance_id l @ '' has run_id '' @ shown P (rl_run_id l) @ '', expected '' @
        shown P run_id @ ''.'') (at_index ''reliance_records'' index ''.run_id'') @
     (case rl_referenced_action_id l of None \<Rightarrow> []
      | Some a \<Rightarrow> error_if (a \<notin> action_ids) ''reliance_action_missing''
          (''Reliance record '' @ rl_reliance_id l @ '' references unknown action '' @ shown P a @ ''.'')
          (at_index ''reliance_records'' index ''.referenced_action_id''))"

definition authority_issues :: "prims \<Rightarrow> string \<Rightarrow> string \<Rightarrow> nat \<Rightarrow> authority_record \<Rightarrow> validation_issue list" where
  "authority_issues P run_id frame_actor index au =
     error_if (au_run_id au \<noteq> run_id) ''authority_run_id_mismatch''
       (''Authority record '' @ au_authority_id au @ '' has run_id '' @ shown P (au_run_id au) @ '', expected '' @
        shown P run_id @ ''.'') (at_index ''authority_records'' index ''.run_id'') @
     warning_if (au_actor au \<noteq> frame_actor) ''authority_actor_mismatch''
       (''Authority record '' @ au_authority_id au @ '' actor '' @ shown P (au_actor au) @
        '' does not match frame actor '' @ shown P frame_actor @ ''.'')
       (at_index ''authority_records'' index ''.actor'')"

definition trace_issues :: "prims \<Rightarrow> string \<Rightarrow> string set \<Rightarrow> nat \<Rightarrow> policy_trace \<Rightarrow> validation_issue list" where
  "trace_issues P run_id action_ids index t =
     error_if (tr_run_id t \<noteq> run_id) ''policy_trace_run_id_mismatch''
       (''Policy evaluation trace '' @ tr_trace_id t @ '' has run_id '' @ shown P (tr_run_id t) @ '', expected '' @
        shown P run_id @ ''.'') (at_index ''policy_traces'' index ''.run_id'') @
     error_if (tr_action_id t \<notin> action_ids) ''policy_trace_action_missing''
       (''Policy evaluation trace '' @ tr_trace_id t @ '' references unknown action '' @ shown P (tr_action_id t) @ ''.'')
       (at_index ''policy_traces'' index ''.action_id'')"

text \<open>\<open>_validate_run_consistency\<close>, on what run records and bundles have in common.\<close>

definition consistency_issues :: "prims \<Rightarrow> 'z run_body_scheme \<Rightarrow> validation_issue list" where
  "consistency_issues P b =
     (let run_id = rb_run_id b; ids = ac_action_id ` set (rb_actions b)
      in for_each (action_issues P run_id) (rb_actions b) @
         for_each (decision_issues P run_id ids (rb_policy_traces b)) (rb_decisions b) @
         for_each (blocked_issues P run_id ids (rb_decisions b)) (rb_blocked_actions b) @
         for_each (reliance_issues P run_id ids) (rb_reliance_records b) @
         for_each (authority_issues P run_id (fr_actor (rb_frame b))) (rb_authority_records b) @
         for_each (trace_issues P run_id ids) (rb_policy_traces b))"

definition validate_run_record :: "prims \<Rightarrow> agent_run \<Rightarrow> validation_report" where
  "validate_run_record P r = report_of ''RunRecord'' (rb_run_id r)
     (consistency_issues P r @
      warning_if (ar_completed r \<and> rb_final_output r = None) ''completed_run_missing_final_output''
        ''Completed run record has no final_output.'' ''final_output'')"

definition validate_replay_bundle :: "prims \<Rightarrow> replay_bundle \<Rightarrow> validation_report" where
  "validate_replay_bundle P b = report_of ''ReplayBundle'' (bu_replay_bundle_id b)
     (consistency_issues P b @
      warning_if (rb_final_output b = None) ''replay_missing_final_output''
        ''Replay bundle has no final_output.'' ''final_output'')"

section \<open>Which errors there are\<close>

named_theorems issue_defs "definitions of the checks"

lemmas [issue_defs] = action_issues_def decision_issues_def blocked_issues_def reliance_issues_def
  authority_issues_def trace_issues_def

lemma error_if_simps [simp]: "i \<in> set (error_if c code m p) \<longleftrightarrow>
    c \<and> i = \<lparr>vi_severity = SevError, vi_code = code, vi_message = m, vi_path = Some p\<rparr>"
  "is_error \<lparr>vi_severity = SevError, vi_code = code, vi_message = m, vi_path = q\<rparr>"
  by (auto simp: error_if_def is_error_def)

lemma warning_if_no_error [simp]: "i \<in> set (warning_if c code m p) \<Longrightarrow> \<not> is_error i"
  by (auto simp: warning_if_def is_error_def split: if_splits)

lemma set_for_each: "set (for_each body xs) = (\<Union>k<length xs. set (body k (xs ! k)))"
  by (force simp: for_each_def enumerate_eq_zip set_zip)

text \<open>When a check errs depends on the element alone, not on its position.\<close>

lemma for_each_error:
  assumes "\<And>k x. list_ex is_error (body k x) = bad x"
  shows "list_ex is_error (for_each body xs) \<longleftrightarrow> list_ex bad xs"
proof -
  have "list_ex is_error (for_each body xs) \<longleftrightarrow> (\<exists>k<length xs. list_ex is_error (body k (xs ! k)))"
    by (auto simp: list_ex_iff set_for_each)
  then show ?thesis by (simp add: assms list_ex_length [of bad])
qed

lemma error_if_exists [simp]: "list_ex is_error (error_if c code m p) \<longleftrightarrow> c"
  "list_ex is_error (warning_if c code m p) \<longleftrightarrow> False"
  by (simp_all add: error_if_def warning_if_def is_error_def)

text \<open>What validation promises: the references and run ids of a record fit together.\<close>

definition decision_coherent :: "string \<Rightarrow> string set \<Rightarrow> policy_trace list \<Rightarrow> gate_decision \<Rightarrow> bool" where
  "decision_coherent run_id ids traces d \<longleftrightarrow> gd_run_id d = run_id \<and> gd_action_id d \<in> ids \<and>
     (\<forall>t. gd_trace_id d = Some t \<longrightarrow>
        (\<exists>tr. trace_by_id traces t = Some tr \<and> tr_fingerprint tr = gd_fingerprint d))"

definition blocked_coherent :: "string \<Rightarrow> string set \<Rightarrow> gate_decision list \<Rightarrow> blocked_action \<Rightarrow> bool" where
  "blocked_coherent run_id ids decisions b \<longleftrightarrow> ba_run_id b = run_id \<and> ba_action_id b \<in> ids \<and>
     (\<exists>d\<in>set decisions. gd_action_id d = ba_action_id b \<and> gd_result d = Block)"

definition references_known :: "string set \<Rightarrow> reliance_record \<Rightarrow> bool" where
  "references_known ids l \<longleftrightarrow> (\<forall>a. rl_referenced_action_id l = Some a \<longrightarrow> a \<in> ids)"

definition coherent :: "'z run_body_scheme \<Rightarrow> bool" where
  "coherent b \<longleftrightarrow> (let run_id = rb_run_id b; ids = ac_action_id ` set (rb_actions b) in
     (\<forall>a\<in>set (rb_actions b). ac_run_id a = run_id) \<and>
     (\<forall>d\<in>set (rb_decisions b). decision_coherent run_id ids (rb_policy_traces b) d) \<and>
     (\<forall>x\<in>set (rb_blocked_actions b). blocked_coherent run_id ids (rb_decisions b) x) \<and>
     (\<forall>l\<in>set (rb_reliance_records b). rl_run_id l = run_id \<and> references_known ids l) \<and>
     (\<forall>au\<in>set (rb_authority_records b). au_run_id au = run_id) \<and>
     (\<forall>t\<in>set (rb_policy_traces b). tr_run_id t = run_id \<and> tr_action_id t \<in> ids))"

lemma block_decisions: "list_ex (\<lambda>d. gd_result d = Block) (decision_by_action ds a) \<longleftrightarrow>
    (\<exists>d\<in>set ds. gd_action_id d = a \<and> gd_result d = Block)"
  by (auto simp: decision_by_action_def list_ex_iff)

lemma check_errors:
  "list_ex is_error (action_issues P r k a) \<longleftrightarrow> ac_run_id a \<noteq> r"
  "list_ex is_error (decision_issues P r ids traces k d) \<longleftrightarrow> \<not> decision_coherent r ids traces d"
  "list_ex is_error (blocked_issues P r ids decisions k b) \<longleftrightarrow> \<not> blocked_coherent r ids decisions b"
  "list_ex is_error (reliance_issues P r ids k l) \<longleftrightarrow> \<not> (rl_run_id l = r \<and> references_known ids l)"
  "list_ex is_error (authority_issues P r actor k au) \<longleftrightarrow> au_run_id au \<noteq> r"
  "list_ex is_error (trace_issues P r ids k t) \<longleftrightarrow> \<not> (tr_run_id t = r \<and> tr_action_id t \<in> ids)"
  by (auto simp: issue_defs decision_coherent_def blocked_coherent_def references_known_def
      block_decisions split: option.splits)

lemma consistency_errors: "list_ex is_error (consistency_issues P b) \<longleftrightarrow> \<not> coherent b"
  unfolding consistency_issues_def Let_def list_ex_append for_each_error [OF check_errors(1)]
    for_each_error [OF check_errors(2)] for_each_error [OF check_errors(3)] for_each_error [OF check_errors(4)]
    for_each_error [OF check_errors(5)] for_each_error [OF check_errors(6)]
  unfolding coherent_def Let_def list_ex_iff by blast

lemma valid_iff_coherent:
  "vr_valid (validate_run_record P r) \<longleftrightarrow> coherent r" "vr_valid (validate_replay_bundle P b) \<longleftrightarrow> coherent b"
  by (simp_all add: validate_run_record_def validate_replay_bundle_def report_of_def consistency_errors)

text \<open>
  C30. Validation decides coherence: a run record is reported valid exactly when it is coherent,
  and so is a replay bundle. Coherent means that every entry carries the record's run id, decisions,
  blocked actions and traces name recorded actions, a traced decision has the fingerprint of the
  trace with its id, a blocked action has a blocking decision, and reliance records refer to
  recorded actions only; missing outputs and foreign actors are warnings.
\<close>

theorem validation_decides_coherence:
  "vr_valid (validate_run_record P r) = coherent r \<and> vr_valid (validate_replay_bundle P b) = coherent b"
  by (simp add: valid_iff_coherent)

section \<open>Recorded runs\<close>

text \<open>
  What a recorder's lists satisfy between operations when uuids do not repeat: coherent except for
  the actions reliance records refer to, with trace ids drawn before and each used once.
\<close>

definition recorder_coherent :: "prims \<Rightarrow> string \<Rightarrow> recorder \<Rightarrow> bool" where
  "recorder_coherent P run_id rc \<longleftrightarrow>
     rc_run_id rc = Some run_id \<and> rc_frame rc \<noteq> None \<and>
     (\<forall>a\<in>set (rc_actions rc). ac_run_id a = run_id) \<and>
     (\<forall>d\<in>set (rc_decisions rc).
        decision_coherent run_id (ac_action_id ` set (rc_actions rc)) (rc_policy_traces rc) d) \<and>
     (\<forall>b\<in>set (rc_blocked_actions rc).
        blocked_coherent run_id (ac_action_id ` set (rc_actions rc)) (rc_decisions rc) b) \<and>
     (\<forall>l\<in>set (rc_reliance_records rc). rl_run_id l = run_id) \<and>
     (\<forall>au\<in>set (rc_authority_records rc). au_run_id au = run_id) \<and>
     (\<forall>t\<in>set (rc_policy_traces rc). tr_run_id t = run_id \<and>
        tr_action_id t \<in> ac_action_id ` set (rc_actions rc) \<and> tr_trace_id t \<in> uuid4 P ` {..<rc_uuids rc})"

text \<open>Later actions and fresh traces keep a decision coherent.\<close>

lemma decision_coherent_more:
  "decision_coherent r ids traces d \<Longrightarrow> ids \<subseteq> ids' \<Longrightarrow> decision_coherent r ids' traces d"
  by (auto simp: decision_coherent_def)

lemma blocked_coherent_more:
  "blocked_coherent r ids ds b \<Longrightarrow> ids \<subseteq> ids' \<Longrightarrow> blocked_coherent r ids' (ds @ ds') b"
  by (auto simp: blocked_coherent_def)

lemma decision_coherent_trace:
  assumes "decision_coherent r ids traces d" "\<forall>x\<in>set traces. tr_trace_id x \<noteq> tr_trace_id t"
  shows "decision_coherent r ids (traces @ [t]) d"
proof -
  have "trace_by_id (traces @ [t]) u = Some tr" if "trace_by_id traces u = Some tr" for u tr
  proof -
    have "(u, tr) \<in> set (rev (map (\<lambda>t. (tr_trace_id t, t)) traces))"
      using that unfolding trace_by_id_def by (rule map_of_SomeD)
    with assms(2) have "u \<noteq> tr_trace_id t" by auto
    with that show ?thesis by (simp add: trace_by_id_def)
  qed
  with assms(1) show ?thesis by (fastforce simp: decision_coherent_def)
qed

lemma evaluate_coherent:
  assumes inj: "inj (uuid4 P)" and ok: "recorder_coherent P run_id rc"
    and ev: "evaluate_action P action b rc = Inr (r, rc')"
  shows "recorder_coherent P run_id rc'"
proof -
  let ?ids = "ac_action_id ` set (rc_actions rc)"
  obtain d blk where r: "r = (d, blk)" by (cases r)
  from ev [unfolded r] obtain fr trs rc1 bl where act: "ac_run_id action = run_id" "ac_action_id action \<in> ?ids"
    and ask: "ask_gate P action fr b rc = Inr (d, trs, rc1)"
    and lists: "rc_actions rc' = rc_actions rc" "rc_decisions rc' = rc_decisions rc @ [d]"
      "rc_policy_traces rc' = rc_policy_traces rc @ trs" "rc_authority_records rc' = rc_authority_records rc"
      "rc_reliance_records rc' = rc_reliance_records rc" "rc_run_id rc' = rc_run_id rc" "rc_frame rc' = rc_frame rc"
    and more: "rc_uuids rc1 \<le> rc_uuids rc'"
    and blocked: "rc_blocked_actions rc' = rc_blocked_actions rc @ bl"
      "\<forall>x\<in>set bl. ba_run_id x = run_id \<and> ba_action_id x = ac_action_id action \<and> gd_result d = Block"
  proof (cases rule: evaluate_action_cases)
    case (1 i fr trs rc1)
    from 1(5) obtain n k where "rc1 = rc\<lparr>rc_uuids := n, rc_ticks := k\<rparr>" by (rule ask_gate_cases)
    with 1 ok show ?thesis by (intro that [of fr trs rc1 "[]"]) (auto simp: recorder_coherent_def)
  next
    case (2 i fr trs rc1 bl)
    from 2(5) obtain n k where "rc1 = rc\<lparr>rc_uuids := n, rc_ticks := k\<rparr>" by (rule ask_gate_cases)
    with 2 ok show ?thesis by (intro that [of fr trs rc1 "[bl]"]) (auto simp: recorder_coherent_def used_def)
  qed
  from ask obtain n where d: "gd_action_id d = ac_action_id action" "gd_run_id d = run_id" "rc_uuids rc < n" "n \<le> rc_uuids rc'"
    and trs: "(trs = [] \<and> gd_trace_id d = None) \<or>
     (\<exists>tr. trs = [tr] \<and> gd_trace_id d = Some (tr_trace_id tr) \<and> tr_trace_id tr = next_id P rc \<and>
        tr_fingerprint tr = gd_fingerprint d \<and> tr_run_id tr = run_id \<and> tr_action_id tr = ac_action_id action)"
    by (rule ask_gate_cases) (use act more in auto)
  have unused: "\<forall>x\<in>set (rc_policy_traces rc). tr_trace_id x \<noteq> next_id P rc"
    using ok inj by (auto simp: recorder_coherent_def next_id_def inj_eq)
  have used: "uuid4 P ` {..<rc_uuids rc} \<subseteq> uuid4 P ` {..<rc_uuids rc'}" "next_id P rc \<in> uuid4 P ` {..<rc_uuids rc'}"
    using d(3,4) by (auto simp: next_id_def)
  have old: "decision_coherent run_id ?ids (rc_policy_traces rc @ trs) x" if "x \<in> set (rc_decisions rc)" for x
  proof -
    have base: "decision_coherent run_id ?ids (rc_policy_traces rc) x"
      using that ok by (simp add: recorder_coherent_def)
    from trs show ?thesis
    proof
      assume "trs = [] \<and> gd_trace_id d = None"
      with base show ?thesis by simp
    next
      assume "\<exists>tr. trs = [tr] \<and> gd_trace_id d = Some (tr_trace_id tr) \<and> tr_trace_id tr = next_id P rc \<and>
        tr_fingerprint tr = gd_fingerprint d \<and> tr_run_id tr = run_id \<and> tr_action_id tr = ac_action_id action"
      then obtain tr where "trs = [tr]" "tr_trace_id tr = next_id P rc" by blast
      with decision_coherent_trace [OF base, of tr] unused show ?thesis by simp
    qed
  qed
  have new: "decision_coherent run_id ?ids (rc_policy_traces rc @ trs) d"
    using trs d act(2) by (auto simp: decision_coherent_def trace_by_id_def)
  have blocks: "blocked_coherent run_id ?ids (rc_decisions rc @ [d]) x" if "x \<in> set (rc_blocked_actions rc @ bl)" for x
    using that ok act(2) blocked(2) d(1)
    by (auto simp: recorder_coherent_def intro: blocked_coherent_more) (auto simp: blocked_coherent_def)
  show ?thesis
    unfolding recorder_coherent_def lists blocked(1)
    using ok old new blocks trs act(2) used by (auto simp: recorder_coherent_def)
qed

text \<open>The other operations add entries of the run, and leave decisions, traces and blocks alone.\<close>

lemma recorder_coherent_more:
  assumes "recorder_coherent P i rc" "rc_run_id rc' = rc_run_id rc" "rc_frame rc' = rc_frame rc"
    "rc_decisions rc' = rc_decisions rc" "rc_policy_traces rc' = rc_policy_traces rc"
    "rc_blocked_actions rc' = rc_blocked_actions rc" "rc_uuids rc \<le> rc_uuids rc'"
    "rc_actions rc' = rc_actions rc @ xs" "\<forall>a\<in>set xs. ac_run_id a = i"
    "rc_reliance_records rc' = rc_reliance_records rc @ ls" "\<forall>l\<in>set ls. rl_run_id l = i"
    "rc_authority_records rc' = rc_authority_records rc @ aus" "\<forall>au\<in>set aus. au_run_id au = i"
  shows "recorder_coherent P i rc'"
proof -
  have ids: "ac_action_id ` set (rc_actions rc) \<subseteq> ac_action_id ` set (rc_actions rc')"
    by (auto simp: assms)
  have uuids: "uuid4 P ` {..<rc_uuids rc} \<subseteq> uuid4 P ` {..<rc_uuids rc'}"
    using assms(7) by auto
  have ds: "decision_coherent i (ac_action_id ` set (rc_actions rc')) (rc_policy_traces rc') d"
    if "d \<in> set (rc_decisions rc')" for d
    using that assms(1) decision_coherent_more [OF _ ids] by (auto simp: assms(4,5) recorder_coherent_def)
  have bs: "blocked_coherent i (ac_action_id ` set (rc_actions rc')) (rc_decisions rc') b"
    if "b \<in> set (rc_blocked_actions rc')" for b
    using that assms(1) blocked_coherent_more [OF _ ids, where ds' = "[]"]
    by (auto simp: assms(4,6) recorder_coherent_def)
  have ts: "tr_run_id t = i \<and> tr_action_id t \<in> ac_action_id ` set (rc_actions rc') \<and>
      tr_trace_id t \<in> uuid4 P ` {..<rc_uuids rc'}" if "t \<in> set (rc_policy_traces rc')" for t
    using that assms(1) ids uuids unfolding assms(5) recorder_coherent_def by blast
  show ?thesis
    unfolding recorder_coherent_def using assms(1) ds bs ts
    by (auto simp: recorder_coherent_def assms(2,3,8-13))
qed

interpretation runs: recorder_invariant P "\<lambda>rc. inj (uuid4 P) \<longrightarrow> recorder_coherent P run_id rc" for P run_id
proof unfold_locales
  fix rc action b d rc'
  assume "inj (uuid4 P) \<longrightarrow> recorder_coherent P run_id rc" "evaluate_action P action b rc = Inr (d, rc')"
  then show "inj (uuid4 P) \<longrightarrow> recorder_coherent P run_id rc'" using evaluate_coherent by blast
next
  fix rc tool act target payload reason a rc'
  assume "inj (uuid4 P) \<longrightarrow> recorder_coherent P run_id rc"
    and "propose_action P tool act target payload reason rc = Inr (a, rc')"
  then show "inj (uuid4 P) \<longrightarrow> recorder_coherent P run_id rc'"
    by (auto simp: recorder_ops intro!: recorder_coherent_more [where rc = rc and ls = "[]" and aus = "[]"])
       (auto simp: recorder_coherent_def)
next
  fix rc actor sc source e r rc'
  assume "inj (uuid4 P) \<longrightarrow> recorder_coherent P run_id rc"
    and "add_authority_record P actor sc source e rc = Inr (r, rc')"
  then show "inj (uuid4 P) \<longrightarrow> recorder_coherent P run_id rc'"
    by (auto simp: recorder_ops intro!: recorder_coherent_more [where rc = rc and ls = "[]" and xs = "[]"])
       (auto simp: recorder_coherent_def)
next
  fix rc name styp sc' ref l rc'
  assume "inj (uuid4 P) \<longrightarrow> recorder_coherent P run_id rc"
    and "record_reliance P name styp sc' ref rc = Inr (l, rc')"
  then show "inj (uuid4 P) \<longrightarrow> recorder_coherent P run_id rc'"
    by (auto simp: recorder_ops split: option.splits
        intro!: recorder_coherent_more [where rc = rc and aus = "[]" and xs = "[]"])
       (auto simp: recorder_coherent_def)
next
  fix rc out u rc'
  assume "inj (uuid4 P) \<longrightarrow> recorder_coherent P run_id rc" "complete_run out rc = Inr (u, rc')"
  then show "inj (uuid4 P) \<longrightarrow> recorder_coherent P run_id rc'"
    by (auto simp: recorder_ops intro!: recorder_coherent_more [where rc = rc and ls = "[]" and aus = "[]" and xs = "[]"])
next
  fix rc bd rc'
  assume "inj (uuid4 P) \<longrightarrow> recorder_coherent P run_id rc" "generate_bundle P rc = Inr (bd, rc')"
  then show "inj (uuid4 P) \<longrightarrow> recorder_coherent P run_id rc'"
    by (auto simp: recorder_ops intro!: recorder_coherent_more [where rc = rc and ls = "[]" and aus = "[]" and xs = "[]"])
qed

section \<open>Properties of exported records\<close>

lemma started_coherent:
  assumes "start_run P task actor env allowed blocked version (new_recorder n m) = (run_id, rc)"
  shows "recorder_coherent P run_id rc" "run_id = uuid4 P n" "rc_uuids rc = n + 2"
  using assms by (auto simp: start_run_def new_recorder_def used_def next_id_def recorder_coherent_def Let_def)

lemma run_coherent:
  assumes "inj (uuid4 P)" "recorder_coherent P run_id (fst s)"
  shows "recorder_coherent P run_id (fst (rec_run P ops s))"
  using assms runs.run [of P run_id s ops] by simp

lemma coherent_export:
  assumes "recorder_coherent P run_id rc"
  obtains r where "to_run_record rc = Inr r" "rb_run_id r = run_id" "rb_actions r = rc_actions rc"
    "rb_reliance_records r = rc_reliance_records rc"
    "coherent r \<longleftrightarrow> list_all (references_known (ac_action_id ` set (rb_actions r))) (rb_reliance_records r)"
  using assms
  by (auto simp: recorder_coherent_def to_run_record_def require_started_def coherent_def list_all_iff)

lemma bundle_coherent: "coherent (bundle_of_run i t r) = coherent r"
  by (simp add: bundle_of_run_def coherent_def)

text \<open>
  What a recorder exports validates: when uuids do not repeat, after starting a fresh recorder
  and any sequence of operations the run can be exported, and the exported record is reported valid
  exactly when its reliance records refer to recorded actions (the one reference the recorder takes
  on trust); a replay bundle generated then is reported valid in the same case.
\<close>

theorem recorded_runs_validate:
  assumes "inj (uuid4 P)"
    and "start_run P task actor env allowed blocked version (new_recorder n m) = (run_id, rc)"
    and "rec_run P ops (rc, x) = (rc', x')"
  shows "\<exists>r. to_run_record rc' = Inr r \<and> rb_run_id r = run_id \<and>
     (vr_valid (validate_run_record P r) \<longleftrightarrow>
        (\<forall>l\<in>set (rb_reliance_records r). references_known (ac_action_id ` set (rb_actions r)) l)) \<and>
     (\<forall>b rc''. generate_bundle P rc' = Inr (b, rc'') \<longrightarrow>
        vr_valid (validate_replay_bundle P b) = vr_valid (validate_run_record P r))"
proof -
  have "recorder_coherent P run_id rc'"
    using run_coherent [OF assms(1), of run_id "(rc, x)" ops] started_coherent(1) [OF assms(2)] assms(3) by simp
  then obtain r where r: "to_run_record rc' = Inr r" "rb_run_id r = run_id"
    "coherent r \<longleftrightarrow> list_all (references_known (ac_action_id ` set (rb_actions r))) (rb_reliance_records r)"
    by (rule coherent_export)
  then show ?thesis
    by (intro exI [of _ r])
       (auto simp: valid_iff_coherent list_all_iff generate_bundle_def Let_def bundle_coherent)
qed

text \<open>
  C39. A recorder is good for one run: starting it a second time keeps the entries of the first
  run, so when any action was proposed before, the record exported right after the second start is
  reported invalid.
\<close>

theorem second_start_invalidates:
  assumes "inj (uuid4 P)"
    and "start_run P task actor env allowed blocked version (new_recorder n m) = (run_id, rc)"
    and "rec_run P ops (rc, x) = (rc', x')" "rc_actions rc' \<noteq> []"
    and "start_run P task' actor' env' allowed' blocked' version' rc' = (run_id', rc'')"
  shows "\<exists>r. to_run_record rc'' = Inr r \<and> rb_run_id r = run_id' \<and> rb_actions r = rc_actions rc' \<and>
     \<not> vr_valid (validate_run_record P r)"
proof -
  have coh: "recorder_coherent P run_id rc'"
    using run_coherent [OF assms(1), of run_id "(rc, x)" ops] started_coherent(1) [OF assms(2)] assms(3) by simp
  have "extends_recorder rc rc'"
    using history.run [OF extends_recorder_refl, of "(rc, x)" P ops] assms(3) by simp
  then have "rc_uuids rc' \<noteq> n" using started_coherent(3) [OF assms(2)] by (simp add: extends_recorder_def)
  then have ne: "run_id' \<noteq> run_id"
    using assms(1,5) started_coherent(2) [OF assms(2)]
    by (auto simp: start_run_def Let_def next_id_def inj_eq)
  obtain a where a: "a \<in> set (rc_actions rc')" "ac_run_id a = run_id"
    using coh list.set_sel(1) [OF assms(4)] by (simp add: recorder_coherent_def)
  from assms(5) obtain r where r: "to_run_record rc'' = Inr r" "rb_run_id r = run_id'" "rb_actions r = rc_actions rc'"
    by (auto simp: start_run_def Let_def to_run_record_def require_started_def used_def)
  with a ne have "\<not> coherent r" by (auto simp: coherent_def)
  with r show ?thesis by (auto simp: valid_iff_coherent)
qed

section \<open>Witnesses\<close>

lemma sample_uuids: "inj (uuid4 sample_prims)"
  by (rule injI) (simp add: sample_prims_def replicate_eq_replicate)

definition sample_start :: recorder where
  "sample_start = snd (start_run sample_prims ''t'' ''agent'' ''test'' [''crm''] [] ''v1'' (new_recorder 0 0))"

lemma sample_started:
  "start_run sample_prims ''t'' ''agent'' ''test'' [''crm''] [] ''v1'' (new_recorder 0 0) = ('''', sample_start)"
  by (simp add: sample_start_def start_run_def new_recorder_def Let_def next_id_def sample_prims_def)

definition sample_ops :: "unit rec_op list" where
  "sample_ops = [OpPropose ''crm'' ''write'' ''c:1'' None None]"

lemma sample_run: "rc_actions (fst (rec_run sample_prims sample_ops (sample_start, ()))) \<noteq> []"
  by (simp add: rec_run_def sample_ops_def sample_start_def start_run_def new_recorder_def Let_def
      propose_action_def require_started_def kept_def used_def)

lemma recorded_runs_validate_witness:
  "\<exists>r. to_run_record (fst (rec_run sample_prims sample_ops (sample_start, ()))) = Inr r \<and> rb_run_id r = ''''"
  using recorded_runs_validate [OF sample_uuids sample_started prod.collapse [symmetric], of sample_ops "()"]
  by blast

lemma second_start_invalidates_witness:
  "\<exists>r. to_run_record (snd (start_run sample_prims ''t'' ''agent'' ''test'' [] [] ''v1''
        (fst (rec_run sample_prims sample_ops (sample_start, ()))))) = Inr r \<and>
     \<not> vr_valid (validate_run_record sample_prims r)"
  using second_start_invalidates [OF sample_uuids sample_started prod.collapse [symmetric] sample_run
      prod.collapse [symmetric]]
  by blast

end
