(* ===== verification/Redaction.thy ===== *)
theory Redaction
  imports Validation
begin

text \<open>
  Redaction of exported records and bundles (\<open>redaction.py\<close>). The functions work on deep copies,
  so the argument is not changed: here they return the redacted value.
\<close>

definition redact_action :: "redaction_config \<Rightarrow> action_proposal \<Rightarrow> action_proposal" where
  "redact_action c a = a\<lparr>ac_payload := (if rdc_payloads c then [(''redacted'', PBool True)] else ac_payload a),
     ac_target := (if rdc_targets c then rdc_replacement c else ac_target a),
     ac_reason := (if rdc_reasons c \<and> ac_reason a \<noteq> None then Some (rdc_replacement c) else ac_reason a)\<rparr>"

definition redact_decision :: "redaction_config \<Rightarrow> gate_decision \<Rightarrow> gate_decision" where
  "redact_decision c d = (if rdc_reasons c then d\<lparr>gd_reason := rdc_replacement c\<rparr> else d)"

definition redact_blocked :: "redaction_config \<Rightarrow> blocked_action \<Rightarrow> blocked_action" where
  "redact_blocked c b = (if rdc_reasons c then b\<lparr>ba_reason := rdc_replacement c\<rparr> else b)"

definition redact_trace :: "redaction_config \<Rightarrow> policy_trace \<Rightarrow> policy_trace" where
  "redact_trace c t = (if rdc_reasons c
     then t\<lparr>tr_rules_evaluated := map (\<lambda>r. r\<lparr>re_reason := rdc_replacement c\<rparr>) (tr_rules_evaluated t)\<rparr> else t)"

text \<open>\<open>_apply_redaction\<close>, for run records and bundles alike.\<close>

definition apply_redaction :: "redaction_config \<Rightarrow> 'z run_body_scheme \<Rightarrow> 'z run_body_scheme" where
  "apply_redaction c b = b\<lparr>rb_actions := map (redact_action c) (rb_actions b),
     rb_decisions := map (redact_decision c) (rb_decisions b),
     rb_blocked_actions := map (redact_blocked c) (rb_blocked_actions b),
     rb_policy_traces := map (redact_trace c) (rb_policy_traces b),
     rb_final_output := (if rdc_final_output c \<and> rb_final_output b \<noteq> None
       then Some (rdc_replacement c) else rb_final_output b)\<rparr>"

text \<open>The optional configuration defaults to \<open>RedactionConfig()\<close>.\<close>

definition given_config :: "redaction_config option \<Rightarrow> redaction_config" where
  "given_config c = (case c of None \<Rightarrow> default_redaction | Some c \<Rightarrow> c)"

definition redact_run_record :: "agent_run \<Rightarrow> redaction_config option \<Rightarrow> agent_run" where
  "redact_run_record r c = apply_redaction (given_config c) r"

definition redact_replay_bundle :: "replay_bundle \<Rightarrow> redaction_config option \<Rightarrow> replay_bundle" where
  "redact_replay_bundle b c = apply_redaction (given_config c) b"

section \<open>What redaction keeps\<close>

lemmas redact_parts = redact_action_def redact_decision_def redact_blocked_def redact_trace_def

lemma redact_keeps [simp]:
  "ac_action_id (redact_action c a) = ac_action_id a" "ac_run_id (redact_action c a) = ac_run_id a"
  "gd_run_id (redact_decision c d) = gd_run_id d" "gd_action_id (redact_decision c d) = gd_action_id d"
  "gd_trace_id (redact_decision c d) = gd_trace_id d" "gd_fingerprint (redact_decision c d) = gd_fingerprint d"
  "gd_result (redact_decision c d) = gd_result d" "gd_decision_id (redact_decision c d) = gd_decision_id d"
  "ba_run_id (redact_blocked c b) = ba_run_id b" "ba_action_id (redact_blocked c b) = ba_action_id b"
  "ba_blocked_id (redact_blocked c b) = ba_blocked_id b"
  "tr_trace_id (redact_trace c t) = tr_trace_id t" "tr_fingerprint (redact_trace c t) = tr_fingerprint t"
  "tr_run_id (redact_trace c t) = tr_run_id t" "tr_action_id (redact_trace c t) = tr_action_id t"
  by (simp_all add: redact_parts)

lemma redact_twice:
  "redact_action c (redact_action c a) = redact_action c a" "redact_decision c (redact_decision c d) = redact_decision c d"
  "redact_blocked c (redact_blocked c b) = redact_blocked c b" "redact_trace c (redact_trace c t) = redact_trace c t"
  by (simp_all add: redact_parts)

lemma trace_by_id_redact:
  "trace_by_id (map (redact_trace c) ts) t = map_option (redact_trace c) (trace_by_id ts t)"
proof -
  have "rev (map (\<lambda>t. (tr_trace_id t, t)) (map (redact_trace c) ts)) =
      map (\<lambda>(k, v). (k, redact_trace c v)) (rev (map (\<lambda>t. (tr_trace_id t, t)) ts))"
    by (simp add: rev_map comp_def)
  then show ?thesis by (simp add: trace_by_id_def map_of_map)
qed

lemma enumerate_map: "enumerate n (map f xs) = map (\<lambda>(k, x). (k, f x)) (enumerate n xs)"
  by (induction xs arbitrary: n) simp_all

lemma for_each_map:
  assumes "\<And>k x. body k (f x) = body' k x"
  shows "for_each body (map f xs) = for_each body' xs"
  by (simp add: for_each_def enumerate_map comp_def case_prod_beta' assms)

lemma issues_redact:
  "action_issues P r k (redact_action c a) = action_issues P r k a"
  "decision_issues P r ids (map (redact_trace c) ts) k (redact_decision c d) = decision_issues P r ids ts k d"
  "blocked_issues P r ids (map (redact_decision c) ds) k (redact_blocked c b) = blocked_issues P r ids ds k b"
  "trace_issues P r ids k (redact_trace c t) = trace_issues P r ids k t"
  by (auto simp: issue_defs trace_by_id_redact block_decisions split: option.splits)

lemma lists_redact:
  "for_each (action_issues P r) (map (redact_action c) as) = for_each (action_issues P r) as"
  "for_each (decision_issues P r ids (map (redact_trace c) ts)) (map (redact_decision c) ds) =
     for_each (decision_issues P r ids ts) ds"
  "for_each (blocked_issues P r ids (map (redact_decision c) ds)) (map (redact_blocked c) bs) =
     for_each (blocked_issues P r ids ds) bs"
  "for_each (trace_issues P r ids) (map (redact_trace c) ts) = for_each (trace_issues P r ids) ts"
  by (rule for_each_map, rule issues_redact)+

lemma consistency_redact: "consistency_issues P (apply_redaction c b) = consistency_issues P b"
  by (simp add: consistency_issues_def Let_def apply_redaction_def image_image lists_redact)

lemma apply_redaction_keeps [simp]:
  "rb_run_id (apply_redaction c b) = rb_run_id b" "rb_final_output (apply_redaction c b) = None \<longleftrightarrow> rb_final_output b = None"
  "ar_completed (apply_redaction c r) = ar_completed r"
  "bu_replay_bundle_id (apply_redaction c x) = bu_replay_bundle_id x"
  by (auto simp: apply_redaction_def)

lemma apply_redaction_twice: "apply_redaction c (apply_redaction c b) = apply_redaction c b"
  by (simp add: apply_redaction_def redact_twice comp_def)

section \<open>Properties\<close>

text \<open>
  Redaction does not disturb the audit: a redacted run record or bundle validates with exactly
  the same report, issue for issue, and redacting twice is redacting once.
\<close>

theorem redaction_keeps_validation:
  "validate_run_record P (redact_run_record r c) = validate_run_record P r \<and>
   validate_replay_bundle P (redact_replay_bundle b c) = validate_replay_bundle P b \<and>
   redact_run_record (redact_run_record r c) c = redact_run_record r c \<and>
   redact_replay_bundle (redact_replay_bundle b c) c = redact_replay_bundle b c"
  by (simp add: validate_run_record_def validate_replay_bundle_def redact_run_record_def redact_replay_bundle_def
      consistency_redact apply_redaction_twice)

text \<open>
  Redaction hides what it is told to hide and nothing else: by default every payload is the
  marker, and two records that differ only in payloads become equal; decisions keep their result,
  policy and fingerprint under every configuration.
\<close>

theorem redaction_hides_payloads:
  "redact_run_record (r\<lparr>rb_actions := map (\<lambda>a. a\<lparr>ac_payload := f a\<rparr>) (rb_actions r)\<rparr>) None = redact_run_record r None \<and>
   map ac_payload (rb_actions (redact_run_record r None)) =
     replicate (length (rb_actions r)) [(''redacted'', PBool True)] \<and>
   map (\<lambda>d. (gd_result d, gd_policy_name d, gd_fingerprint d)) (rb_decisions (redact_run_record r c)) =
     map (\<lambda>d. (gd_result d, gd_policy_name d, gd_fingerprint d)) (rb_decisions r)"
proof -
  have "map (\<lambda>a :: action_proposal. [(''redacted'', PBool True)]) as =
      replicate (length as) [(''redacted'', PBool True)]" for as
    by (simp add: map_replicate_const)
  then show ?thesis
    by (simp add: redact_run_record_def given_config_def default_redaction_def apply_redaction_def
        redact_parts comp_def)
qed

end
