(* ===== verification/Exports.thy ===== *)
theory Exports
  imports ModelJson Redaction Paths
begin

text \<open>
  Records and bundles outside the process: the JSON text of a bundle (\<open>to_json\<close>, \<open>from_json\<close> of
  \<open>replay.py\<close>) and the files of \<open>FileSystemPersistenceAdapter\<close> (\<open>persistence.py\<close>). Files are
  a map from paths to what is in them; a file system that
  refuses (permissions, a full disk, a directory in the place of a file), links and \<open>..\<close> are not
  considered, nor are strings that are not Unicode text, which cannot be written. Reading a file turns carriage returns into newlines, which changes nothing here: both
  are white space between the tokens of a document, and neither may stand inside a string.
\<close>

type_synonym files = "path \<Rightarrow> content option"

section \<open>The text of a bundle\<close>

definition to_json :: "prims \<Rightarrow> replay_bundle \<Rightarrow> nat \<Rightarrow> string" where
  "to_json P b indent = dumps P indent 0 (PDict (dump_bundle b))"

text \<open>
  Every failure to read becomes a \<open>ReplayError\<close>; its message ends in that of the cause. A number
  that is not finite is none: there the model stops.
\<close>

definition from_json :: "prims \<Rightarrow> string \<Rightarrow> replay_bundle reader" where
  "from_json P data n =
     (case bindE (read_json P data) (\<lambda>v. load_bundle P v n) of
        Inl e \<Rightarrow> if e = Raise not_finite [] then Inl e
          else throw_msg (OtherError ''ReplayError'') (''Failed to deserialise ReplayBundle: '' @ exn_message e)
      | Inr x \<Rightarrow> Inr x)"

section \<open>The persistence adapter\<close>

definition runs_dir :: "path \<Rightarrow> path" where
  "runs_dir base = join base ''runs''"

definition bundles_dir :: "path \<Rightarrow> path" where
  "bundles_dir base = join base ''replay_bundles''"

text \<open>\<open>_write_model\<close> and \<open>_load_model\<close>; the directories on the way to a file are made as needed.\<close>

definition write_model :: "prims \<Rightarrow> path \<Rightarrow> pydict \<Rightarrow> files \<Rightarrow> files" where
  "write_model P p d fs = fs(p \<mapsto> Text (dumps P 2 0 (PDict d)))"

definition load_model :: "prims \<Rightarrow> path \<Rightarrow> (pyval \<Rightarrow> 'a reader) \<Rightarrow> string \<Rightarrow> files \<Rightarrow> 'a reader" where
  "load_model P p validate missing fs n = (case fs p of
      None \<Rightarrow> throw_msg FileNotFoundError missing
    | Some f \<Rightarrow> bindE (read_content P f) (\<lambda>v. validate v n))"

definition save_run_record :: "prims \<Rightarrow> path \<Rightarrow> agent_run \<Rightarrow> files \<Rightarrow> string \<times> files" where
  "save_run_record P base r fs =
     (let p = join (runs_dir base) (rb_run_id r @ ''.json'') in (path_text p, write_model P p (dump_run r) fs))"

definition load_run_record :: "prims \<Rightarrow> path \<Rightarrow> string \<Rightarrow> files \<Rightarrow> agent_run reader" where
  "load_run_record P base run_id fs =
     load_model P (join (runs_dir base) (run_id @ ''.json'')) (load_run P) (''Run record not found: '' @ run_id) fs"

definition save_replay_bundle :: "prims \<Rightarrow> path \<Rightarrow> replay_bundle \<Rightarrow> files \<Rightarrow> string \<times> files" where
  "save_replay_bundle P base b fs =
     (let p = join (bundles_dir base) (bu_replay_bundle_id b @ ''.json'')
      in (path_text p, write_model P p (dump_bundle b) fs))"

definition load_replay_bundle :: "prims \<Rightarrow> path \<Rightarrow> string \<Rightarrow> files \<Rightarrow> replay_bundle reader" where
  "load_replay_bundle P base bundle_id fs =
     load_model P (join (bundles_dir base) (bundle_id @ ''.json'')) (load_bundle P)
       (''Replay bundle not found: '' @ bundle_id) fs"

text \<open>
  \<open>RunRecorder.export_json\<close>: the file is written in the same form, or, when no run was started,
  not at all.
\<close>

definition export_json :: "prims \<Rightarrow> string \<Rightarrow> recorder \<Rightarrow> files \<Rightarrow> (path \<times> files) res" where
  "export_json P out rc fs =
     bindE (to_run_record rc) (\<lambda>r. Inr (path_of out, write_model P (path_of out) (dump_run r) fs))"

section \<open>Names\<close>

lemma path_of_file: "plain s \<Longrightarrow> path_of (s @ ''.json'') = ('''', [s @ ''.json''])"
proof -
  assume s: "plain s"
  then have "plain (s @ ''.json'')" by (simp add: plain_def)
  moreover from this have "cut (CHR ''/'') (s @ ''.json'') = [s @ ''.json'']" unfolding plain_def by (rule cut_plain)
  moreover have "s @ ''.json'' \<noteq> ''.''" by (cases s) auto
  ultimately show ?thesis by (simp add: path_of_def root_plain)
qed

lemma join_file: "plain s \<Longrightarrow> join p (s @ ''.json'') = (fst p, snd p @ [s @ ''.json''])"
  by (simp add: join_def path_of_file)

lemma join_runs: "runs_dir base = (fst base, snd base @ [''runs''])"
  by (simp add: runs_dir_def join_def path_of_def root_of_def Let_def)

lemma join_bundles: "bundles_dir base = (fst base, snd base @ [''replay_bundles''])"
  by (simp add: bundles_dir_def join_def path_of_def root_of_def Let_def)

section \<open>What is written is read\<close>

lemma loads_dumped:
  "json_floats P \<Longrightarrow> wf_pyval v \<Longrightarrow> loads P (dumps P w 0 v) = Some v"
  "json_floats P \<Longrightarrow> wf_pyval v \<Longrightarrow> read_json P (dumps P w 0 v) = Inr v"
  "json_floats P \<Longrightarrow> wf_pyval v \<Longrightarrow> read_content P (Text (dumps P w 0 v)) = Inr v"
  by (simp_all add: loads_dumps read_content_def read_json_def)

lemma load_written:
  assumes "json_floats P" "wf_pyval (PDict d)" "validate (PDict d) n = Inr (x, n)"
  shows "load_model P p validate m (write_model P p d fs) n = Inr (x, n)"
  using assms by (simp add: load_model_def write_model_def loads_dumped del: wf_pyval.simps dumps_as.simps)

lemma load_written_run:
  "json_floats P \<Longrightarrow> payloads_ok r \<Longrightarrow> load_model P p (load_run P) m (write_model P p (dump_run r) fs) n = Inr (r, n)"
  by (rule load_written) (simp_all only: wf_dump_run load_dump_run)

lemma load_written_bundle:
  "json_floats P \<Longrightarrow> payloads_ok b \<Longrightarrow>
     load_model P p (load_bundle P) m (write_model P p (dump_bundle b) fs) n = Inr (b, n)"
  by (rule load_written) (simp_all only: wf_dump_bundle load_dump_bundle)

lemma load_written_signed:
  "json_floats P \<Longrightarrow> payloads_ok (sg_replay_bundle s) \<Longrightarrow>
     load_model P p (load_signed P) m (write_model P p (dump_signed s) fs) n = Inr (s, n)"
  by (rule load_written) (simp_all only: wf_dump_signed load_dump_signed)

lemma load_elsewhere: "q \<noteq> p \<Longrightarrow> load_model P q validate m (write_model P p d fs) = load_model P q validate m fs"
  by (rule ext) (simp add: load_model_def write_model_def)

lemma saved_elsewhere:
  assumes "plain i" "plain (rb_run_id r)" "plain (bu_replay_bundle_id b)"
  shows "i \<noteq> rb_run_id r \<Longrightarrow> load_run_record P base i (snd (save_run_record P base r fs)) = load_run_record P base i fs"
    "load_replay_bundle P base i (snd (save_run_record P base r fs)) = load_replay_bundle P base i fs"
    "i \<noteq> bu_replay_bundle_id b \<Longrightarrow>
       load_replay_bundle P base i (snd (save_replay_bundle P base b fs)) = load_replay_bundle P base i fs"
    "load_run_record P base i (snd (save_replay_bundle P base b fs)) = load_run_record P base i fs"
  using assms by (auto simp: load_run_record_def load_replay_bundle_def save_run_record_def save_replay_bundle_def Let_def
    join_file join_runs join_bundles load_elsewhere)

text \<open>
  C33. What the persistence adapter saved, it loads: the run record or the bundle itself, with no
  reading of the clock, whatever its identifier. The path it returns is that of the document's file,
  and no other file changes. For identifiers without a slash this makes documents independent: what
  loads under another identifier, or as the other kind of document, is what loaded before, after
  saving a run and after saving a bundle.
\<close>

theorem saved_documents_load:
  assumes "json_floats P" "payloads_ok r" "payloads_ok b"
  shows "load_run_record P base (rb_run_id r) (snd (save_run_record P base r fs)) n = Inr (r, n) \<and>
     load_replay_bundle P base (bu_replay_bundle_id b) (snd (save_replay_bundle P base b fs)) n = Inr (b, n) \<and>
     fst (save_run_record P base r fs) = path_text (join (runs_dir base) (rb_run_id r @ ''.json'')) \<and>
     fst (save_replay_bundle P base b fs) = path_text (join (bundles_dir base) (bu_replay_bundle_id b @ ''.json'')) \<and>
     (\<forall>q. q \<noteq> join (runs_dir base) (rb_run_id r @ ''.json'') \<longrightarrow> snd (save_run_record P base r fs) q = fs q) \<and>
     (\<forall>q. q \<noteq> join (bundles_dir base) (bu_replay_bundle_id b @ ''.json'') \<longrightarrow>
        snd (save_replay_bundle P base b fs) q = fs q) \<and>
     (plain i \<and> plain (rb_run_id r) \<and> plain (bu_replay_bundle_id b) \<longrightarrow>
        (i \<noteq> rb_run_id r \<longrightarrow>
           load_run_record P base i (snd (save_run_record P base r fs)) n = load_run_record P base i fs n) \<and>
        load_replay_bundle P base i (snd (save_run_record P base r fs)) n = load_replay_bundle P base i fs n \<and>
        (i \<noteq> bu_replay_bundle_id b \<longrightarrow>
           load_replay_bundle P base i (snd (save_replay_bundle P base b fs)) n = load_replay_bundle P base i fs n) \<and>
        load_run_record P base i (snd (save_replay_bundle P base b fs)) n = load_run_record P base i fs n)"
proof -
  note saves = save_run_record_def save_replay_bundle_def Let_def snd_conv fst_conv
  have "load_run_record P base (rb_run_id r) (snd (save_run_record P base r fs)) n = Inr (r, n)"
    "load_replay_bundle P base (bu_replay_bundle_id b) (snd (save_replay_bundle P base b fs)) n = Inr (b, n)"
    unfolding saves load_run_record_def load_replay_bundle_def
    using load_written_run [OF assms(1,2)] load_written_bundle [OF assms(1,3)] by blast+
  moreover have "\<forall>q. q \<noteq> join (runs_dir base) (rb_run_id r @ ''.json'') \<longrightarrow> snd (save_run_record P base r fs) q = fs q"
    "\<forall>q. q \<noteq> join (bundles_dir base) (bu_replay_bundle_id b @ ''.json'') \<longrightarrow>
        snd (save_replay_bundle P base b fs) q = fs q"
    unfolding saves by (simp_all add: write_model_def del: dumps_as.simps)
  moreover note saved_elsewhere [of i r b P base fs]
  ultimately show ?thesis by (simp add: saves)
qed

lemma from_json_to_json:
  "json_floats P \<Longrightarrow> payloads_ok b \<Longrightarrow> from_json P (to_json P b indent) n = Inr (b, n)"
  by (simp add: from_json_def to_json_def loads_dumped wf_dump_bundle load_dump_bundle del: wf_pyval.simps dumps_as.simps)

lemma from_json_ok: "from_json P data n = Inr (b, m) \<Longrightarrow> payloads_ok b"
  by (auto simp: from_json_def bindE_Inr_iff read_json_Inr split: sum.splits if_splits dest!: loads_wf intro: load_bundle_wf)

text \<open>
  The text of a bundle is faithful at any indentation: reading it gives the bundle back. Any
  other text of finite numbers is either read as a bundle that survives the round trip as well, or
  refused with \<open>ReplayError\<close> and nothing else, whatever went wrong underneath.
\<close>

theorem bundle_text_round_trip:
  assumes "json_floats P"
  shows "(payloads_ok b \<longrightarrow> from_json P (to_json P b indent) n = Inr (b, n)) \<and>
     (case from_json P data n of
        Inl e \<Rightarrow> exn_kind e = OtherError ''ReplayError'' \<or> e = Raise not_finite []
      | Inr (c, m) \<Rightarrow> from_json P (to_json P c indent) k = Inr (c, k))"
proof -
  have "exn_kind e = OtherError ''ReplayError'' \<or> e = Raise not_finite []" if "from_json P data n = Inl e" for e
    using that by (auto simp: from_json_def throw_msg_def split: sum.splits if_splits)
  with from_json_to_json [OF assms] from_json_ok [of P data n] show ?thesis by (auto split: sum.split)
qed

section \<open>Witnesses\<close>

definition stored_run :: agent_run where
  "stored_run = \<lparr>rb_run_id = ''run'', rb_frame = sample_frame,
     rb_actions = [sample_action\<lparr>ac_payload := [(''rate'', PFloat (1 / 2)), (''tags'', PList [PStr [CHR 0x22, CHR 0x0A], PInt (-3)])]\<rparr>],
     rb_decisions = [], rb_policy_traces = [], rb_authority_records = [sample_authority], rb_reliance_records = [],
     rb_blocked_actions = [], rb_final_output = Some ''done'', ar_task = ''t'', ar_created_at = ''now'',
     ar_completed = True, ar_replay_bundle_id = None\<rparr>"

definition stored_bundle :: replay_bundle where
  "stored_bundle = bundle_of_run ''b1'' ''now'' stored_run"

lemma stored_ok: "payloads_ok stored_run" "payloads_ok stored_bundle"
  by (simp_all add: payloads_ok_def stored_bundle_def stored_run_def bundle_of_run_def)

lemma stored_names: "rb_run_id stored_run = ''run''" "bu_replay_bundle_id stored_bundle = ''b1''"
    "plain ''run''" "plain ''b1''"
  by (simp_all add: stored_run_def stored_bundle_def bundle_of_run_def plain_def)

lemma saved_documents_load_witness:
  "load_run_record (with_ratios sample_prims) ('''', [''data'']) ''run''
     (snd (save_run_record (with_ratios sample_prims) ('''', [''data'']) stored_run (\<lambda>p. None))) 0 = Inr (stored_run, 0) \<and>
   load_run_record (with_ratios sample_prims) ('''', [''data'']) ''b1''
     (snd (save_replay_bundle (with_ratios sample_prims) ('''', [''data'']) stored_bundle (\<lambda>p. None))) 0 =
   throw_msg FileNotFoundError ''Run record not found: b1''"
proof -
  have "load_run_record (with_ratios sample_prims) ('''', [''data'']) ''b1'' (\<lambda>p. None) 0 =
      throw_msg FileNotFoundError ''Run record not found: b1''"
    by (simp add: load_run_record_def load_model_def)
  with saved_documents_load [OF with_ratios_floats [of sample_prims] stored_ok, of "('''', [''data''])" "\<lambda>p. None" 0 "''b1''",
      unfolded stored_names]
  show ?thesis using stored_names(3,4) by presburger
qed

lemma bundle_text_round_trip_witness:
  "from_json (with_ratios sample_prims) (to_json (with_ratios sample_prims) stored_bundle 2) 0 = Inr (stored_bundle, 0)"
  using bundle_text_round_trip [OF with_ratios_floats [of sample_prims], of stored_bundle 2 0] stored_ok(2) by blast

end
