(* ===== verification/Signing.thy ===== *)
theory Signing
  imports Exports EscapedText
begin

text \<open>
  Signed bundles (\<open>signing.py\<close>): the bytes of a bundle that are signed, HMAC-SHA256 over them with
  the digest of the runtime, and the comparison, which refuses texts that are not ASCII.
\<close>

unbundle bit_operations_syntax

section \<open>The bytes that are signed\<close>

text \<open>\<open>json.dumps(v, sort_keys=True, separators=(",", ":"))\<close>, encoded: the text is ASCII.\<close>

definition serialise_replay_bundle :: "prims \<Rightarrow> replay_bundle \<Rightarrow> string" where
  "serialise_replay_bundle P b = json_of ascii_quoted P (PDict (dump_bundle b))"

section \<open>HMAC\<close>

definition hex_digit :: "char \<Rightarrow> nat" where
  "hex_digit c = (case hex_of c of Some n \<Rightarrow> n | None \<Rightarrow> 0)"

fun unhex :: "string \<Rightarrow> string" where
  "unhex (a # b # r) = char_of (16 * hex_digit a + hex_digit b) # unhex r"
| "unhex _ = []"

definition hmac_key :: "prims \<Rightarrow> string \<Rightarrow> string" where
  "hmac_key P key = (let k = (if 64 < length key then unhex (sha256_hex P key) else key)
     in k @ replicate (64 - length k) (CHR 0x00))"

definition masked :: "nat \<Rightarrow> string \<Rightarrow> string" where
  "masked m key = map (\<lambda>c. char_of ((of_char c :: nat) XOR m)) key"

definition hmac_sha256 :: "prims \<Rightarrow> string \<Rightarrow> string \<Rightarrow> string" where
  "hmac_sha256 P key msg = (let k = hmac_key P key
     in sha256_hex P (masked 0x5C k @ unhex (sha256_hex P (masked 0x36 k @ msg))))"

definition sign_payload :: "prims \<Rightarrow> string \<Rightarrow> string \<Rightarrow> string" where
  "sign_payload P payload secret = hmac_sha256 P secret payload"

section \<open>Signing and verifying\<close>

text \<open>The identifier is drawn before the record is made, which reads the clock.\<close>

definition sign_replay_bundle :: "prims \<Rightarrow> replay_bundle \<Rightarrow> string \<Rightarrow> nat \<Rightarrow> nat \<Rightarrow> signed_bundle \<times> nat \<times> nat" where
  "sign_replay_bundle P b secret uuids ticks =
     (\<lparr>sg_signed_bundle_id = uuid4 P uuids, sg_replay_bundle = b,
       sg_signature = sign_payload P (serialise_replay_bundle P b) secret, sg_signature_algorithm = ''HMAC-SHA256'',
       sg_signed_at = isoformat_utc P (clock P ticks)\<rparr>, Suc uuids, Suc ticks)"

definition compare_digest :: "string \<Rightarrow> string \<Rightarrow> bool res" where
  "compare_digest a b = (if ascii a \<and> ascii b then Inr (a = b) else throw TypeError)"

definition verify_signed_replay_bundle :: "prims \<Rightarrow> signed_bundle \<Rightarrow> string \<Rightarrow> bool res" where
  "verify_signed_replay_bundle P s secret =
     (if sg_signature_algorithm s \<noteq> ''HMAC-SHA256'' then Inr False
      else compare_digest (sg_signature s) (sign_payload P (serialise_replay_bundle P (sg_replay_bundle s)) secret))"

text \<open>A digest is printed in hexadecimal.\<close>

definition ascii_digests :: "prims \<Rightarrow> bool" where
  "ascii_digests P \<longleftrightarrow> (\<forall>s. ascii (sha256_hex P s))"

lemma sign_payload_ascii: "ascii_digests P \<Longrightarrow> ascii (sign_payload P m secret)"
  by (simp add: ascii_digests_def sign_payload_def hmac_sha256_def Let_def)

lemma verify_signed:
  "ascii_digests P \<Longrightarrow> verify_signed_replay_bundle P (fst (sign_replay_bundle P b secret u t)) secret' =
     Inr (sign_payload P (serialise_replay_bundle P b) secret = sign_payload P (serialise_replay_bundle P b) secret')"
  by (simp add: verify_signed_replay_bundle_def sign_replay_bundle_def compare_digest_def sign_payload_ascii)

section \<open>What a signature binds\<close>

lemma key_norm_texts [simp]: "key_norm (json_opt s) = json_opt s" "key_norm (json_texts xs) = json_texts xs"
  by (cases s) (simp_all add: json_opt_def json_texts_def)

lemma json_texts_inj [simp]: "json_opt s = json_opt t \<longleftrightarrow> s = t" "json_texts xs = json_texts ys \<longleftrightarrow> xs = ys"
  by (auto simp: json_opt_def json_texts_def inj_on_def inj_map_eq_map split: option.splits)

lemma gate_word_inj [simp]: "gate_word r = gate_word r' \<longleftrightarrow> r = r'"
  by (cases r; cases r') simp_all

lemma norm_frame_inj:
  assumes "key_norm (PDict (dump_frame f)) = key_norm (PDict (dump_frame g))"
  shows "f = g"
proof -
  have same: "map_option key_norm (map_of (dump_frame f) k) = map_option key_norm (map_of (dump_frame g) k)" for k
    by (rule key_norm_lookup [OF assms]) (simp_all add: dump_frame_def)
  show ?thesis
    using same [of "''frame_id''"] same [of "''task''"] same [of "''actor''"] same [of "''environment''"]
      same [of "''allowed_tools''"] same [of "''blocked_tools''"] same [of "''policy_version''"] same [of "''created_at''"]
    by (cases f; cases g) (simp add: dump_frame_def)
qed

lemma norm_decision_inj:
  assumes "key_norm (PDict (dump_decision d)) = key_norm (PDict (dump_decision e))"
  shows "d = e"
proof -
  have same: "map_option key_norm (map_of (dump_decision d) k) = map_option key_norm (map_of (dump_decision e) k)" for k
    by (rule key_norm_lookup [OF assms]) (simp_all add: dump_decision_def)
  show ?thesis
    using same [of "''decision_id''"] same [of "''action_id''"] same [of "''run_id''"] same [of "''result''"]
      same [of "''policy_name''"] same [of "''reason''"] same [of "''decided_at''"]
      same [of "''deterministic_fingerprint''"] same [of "''trace_id''"]
    by (cases d; cases e) (simp add: dump_decision_def)
qed

lemma norm_list_inj:
  assumes "\<And>x y. key_norm (PDict (f x)) = key_norm (PDict (f y)) \<Longrightarrow> x = y"
    and "key_norm (json_list f xs) = key_norm (json_list f ys)"
  shows "xs = ys"
proof -
  have "inj (\<lambda>x. key_norm (PDict (f x)))" by (rule injI) (rule assms(1))
  moreover have "map (\<lambda>x. key_norm (PDict (f x))) xs = map (\<lambda>x. key_norm (PDict (f x))) ys"
    using assms(2) by (simp add: json_list_def comp_def del: key_norm.simps(2))
  ultimately show ?thesis by (simp add: inj_map_eq_map)
qed

definition exportable :: "replay_bundle \<Rightarrow> bool" where
  "exportable b = strings_ok unicode (PDict (dump_bundle b))"

lemma serialise_inj:
  assumes "float_repr_ok P" "exportable a" "exportable b" "serialise_replay_bundle P a = serialise_replay_bundle P b"
  shows "key_norm (PDict (dump_bundle a)) = key_norm (PDict (dump_bundle b))"
  using escaped.json_prefix [OF assms(1), of "PDict (dump_bundle a)" "PDict (dump_bundle b)" "[]" "[]"] assms(2-)
  by (simp only: exportable_def serialise_replay_bundle_def closes_Nil append_Nil2 simp_thms)

lemma norm_bundle:
  assumes "key_norm (PDict (dump_bundle a)) = key_norm (PDict (dump_bundle b))"
  shows "bu_replay_bundle_id a = bu_replay_bundle_id b \<and> rb_run_id a = rb_run_id b \<and> rb_frame a = rb_frame b \<and>
    rb_decisions a = rb_decisions b \<and> rb_final_output a = rb_final_output b"
proof -
  have same: "map_option key_norm (map_of (dump_bundle a) k) = map_option key_norm (map_of (dump_bundle b) k)" for k
    by (rule key_norm_lookup [OF assms]) (simp_all add: dump_bundle_def dump_body_def)
  have "key_norm (PDict (dump_frame (rb_frame a))) = key_norm (PDict (dump_frame (rb_frame b)))"
    using same [of "''frame''"] by (simp add: dump_bundle_def dump_body_def del: key_norm.simps)
  moreover have "key_norm (json_list dump_decision (rb_decisions a)) = key_norm (json_list dump_decision (rb_decisions b))"
    using same [of "''decisions''"] by (simp add: dump_bundle_def dump_body_def del: key_norm.simps)
  ultimately show ?thesis
    using same [of "''replay_bundle_id''"] same [of "''run_id''"] same [of "''final_output''"]
      norm_list_inj [OF norm_decision_inj] norm_frame_inj
    by (simp add: dump_bundle_def dump_body_def)
qed

text \<open>
  C36. A signature binds the bundle: two signed bundles that verify with one secret and carry the
  same signature hold the same bundle. Their documents are equal up to the order of the keys inside
  a payload, and bundle, run, frame, decisions and final output are equal, unless the code of the
  two texts collides.
\<close>

theorem signature_tamper_evident:
  assumes "float_repr_ok P" "exportable (sg_replay_bundle s)" "exportable (sg_replay_bundle t)"
    and "verify_signed_replay_bundle P s secret = Inr True" "verify_signed_replay_bundle P t secret = Inr True"
    and "sg_signature s = sg_signature t"
    and "sign_payload P (serialise_replay_bundle P (sg_replay_bundle s)) secret =
        sign_payload P (serialise_replay_bundle P (sg_replay_bundle t)) secret \<longrightarrow>
      serialise_replay_bundle P (sg_replay_bundle s) = serialise_replay_bundle P (sg_replay_bundle t)"
  shows "key_norm (PDict (dump_bundle (sg_replay_bundle s))) = key_norm (PDict (dump_bundle (sg_replay_bundle t))) \<and>
    bu_replay_bundle_id (sg_replay_bundle s) = bu_replay_bundle_id (sg_replay_bundle t) \<and>
    rb_run_id (sg_replay_bundle s) = rb_run_id (sg_replay_bundle t) \<and>
    rb_frame (sg_replay_bundle s) = rb_frame (sg_replay_bundle t) \<and>
    rb_decisions (sg_replay_bundle s) = rb_decisions (sg_replay_bundle t) \<and>
    rb_final_output (sg_replay_bundle s) = rb_final_output (sg_replay_bundle t)"
proof -
  have "serialise_replay_bundle P (sg_replay_bundle s) = serialise_replay_bundle P (sg_replay_bundle t)"
    using assms(4-) by (auto simp: verify_signed_replay_bundle_def compare_digest_def split: if_splits)
  from serialise_inj [OF assms(1-3) this] show ?thesis using norm_bundle by blast
qed

section \<open>Witness\<close>

definition export_prims :: prims where
  "export_prims = with_ratios (sample_prims\<lparr>sha256_hex := (\<lambda>s. digits_nat (length s))\<rparr>)"

lemma export_floats: "json_floats export_prims" "float_repr_ok export_prims"
  using ratio_repr_ok [of sample_prims]
  by (simp_all add: export_prims_def with_ratios_floats) (simp add: float_repr_ok_def with_ratios_def)

lemma export_digests: "ascii_digests export_prims"
  by (simp add: ascii_digests_def export_prims_def with_ratios_def ascii_digits)

lemma stored_exportable: "exportable stored_bundle"
  by (simp add: exportable_def stored_bundle_def bundle_of_run_def stored_run_def dump_bundle_def dump_body_def
      dump_frame_def dump_action_def dump_authority_def json_list_def json_texts_def json_opt_def sample_frame_def
      sample_action_def sample_authority_def ascii_unicode ascii_def)

lemma verifies: "verify_signed_replay_bundle export_prims (fst (sign_replay_bundle export_prims b k u t)) k = Inr True"
  by (simp add: verify_signed export_digests)

lemma signature_tamper_evident_witness:
  "rb_decisions (sg_replay_bundle (fst (sign_replay_bundle export_prims stored_bundle ''key'' 0 0))) =
     rb_decisions (sg_replay_bundle (fst (sign_replay_bundle export_prims stored_bundle ''key'' 1 5)))"
  using signature_tamper_evident [OF export_floats(2) _ _ verifies verifies, of stored_bundle "key''" 0 0 stored_bundle 1 5]
  by (simp add: sign_replay_bundle_def stored_exportable)

end
