(* ===== verification/CommandLine.thy ===== *)
theory CommandLine
  imports Signing
begin

text \<open>
  The command line (\<open>cli.py\<close>): six commands on exported files. What \<open>argparse\<close> makes of the
  arguments, a command or the exit code it ends with, is a parameter; what it prints itself is not
  modelled. A command reads one file, may write one, prints lines, and ends with an exit code or
  with an exception that \<open>main\<close> does not catch.
\<close>

section \<open>Commands\<close>

record redaction_flags =
  rf_targets :: bool
  rf_final_output :: bool
  rf_reasons :: bool
  rf_replacement :: string

datatype command =
    ValidateRun string
  | ValidateReplay string
  | RedactRun string string redaction_flags
  | RedactReplay string string redaction_flags
  | SignReplay string string string
  | VerifySignedReplay string string

text \<open>The arguments of the constructors: the path; \<open>--out\<close> and the flags; \<open>--secret\<close>, then \<open>--out\<close>.\<close>

record console =
  co_files :: files
  co_uuids :: nat
  co_ticks :: nat
  co_out :: "string list"
  co_err :: "string list"

definition print_out :: "string \<Rightarrow> console \<Rightarrow> console" where
  "print_out s w = w\<lparr>co_out := co_out w @ [s]\<rparr>"

definition print_err :: "string \<Rightarrow> console \<Rightarrow> console" where
  "print_err s w = w\<lparr>co_err := co_err w @ [s]\<rparr>"

section \<open>Reading and writing\<close>

definition InvalidJsonError :: exn_class where
  "InvalidJsonError = OtherError ''_InvalidJsonError''"

definition ModelValidationError :: exn_class where
  "ModelValidationError = OtherError ''_ModelValidationError''"

text \<open>
  Only a \<open>JSONDecodeError\<close> of the reading becomes an invalid JSON text, here the \<open>ValueError\<close> of
  \<open>read_content\<close>: bytes that are not UTF-8 go through as they are raised.
\<close>

definition load_json_model :: "prims \<Rightarrow> string \<Rightarrow> (pyval \<Rightarrow> 'a reader) \<Rightarrow> console \<Rightarrow> ('a \<times> console) res" where
  "load_json_model P file validate w =
     (let p = path_of file in case co_files w p of
        None \<Rightarrow> throw_msg FileNotFoundError (''File not found: '' @ path_text p)
      | Some f \<Rightarrow> (case read_content P f of
          Inl e \<Rightarrow> if exn_kind e = ValueError
            then throw_msg InvalidJsonError (''Invalid JSON in '' @ path_text p @ '': '') else Inl e
        | Inr v \<Rightarrow> (case validate v (co_ticks w) of
            Inl e \<Rightarrow> throw_msg ModelValidationError (''Validation failed for '' @ path_text p @ '': '' @ exn_message e)
          | Inr (x, n) \<Rightarrow> Inr (x, w\<lparr>co_ticks := n\<rparr>))))"

definition write_json_model :: "prims \<Rightarrow> string \<Rightarrow> pydict \<Rightarrow> console \<Rightarrow> path \<times> console" where
  "write_json_model P file d w = (path_of file, w\<lparr>co_files := write_model P (path_of file) d (co_files w)\<rparr>)"

definition redaction_config_from_args :: "redaction_flags \<Rightarrow> redaction_config" where
  "redaction_config_from_args f = \<lparr>rdc_payloads = True, rdc_targets = rf_targets f,
     rdc_final_output = rf_final_output f, rdc_reasons = rf_reasons f, rdc_replacement = rf_replacement f\<rparr>"

fun severity_word :: "severity \<Rightarrow> string" where
  "severity_word SevError = ''ERROR''"
| "severity_word SevWarning = ''WARNING''"

definition issue_line :: "validation_issue \<Rightarrow> string" where
  "issue_line i =
     (let location = (case vi_path i of None \<Rightarrow> '''' | Some p \<Rightarrow> if p = '''' then '''' else CHR '' '' # p)
      in severity_word (vi_severity i) @ '' '' @ vi_code i @ location @ '': '' @ vi_message i)"

definition report_lines :: "validation_report \<Rightarrow> string list" where
  "report_lines r =
     (let count = (\<lambda>s. digits_nat (length (filter (\<lambda>i. vi_severity i = s) (vr_issues r))))
      in (vr_checked_object_type r @ '' '' @ vr_checked_id r @ '': '' @ (if vr_valid r then ''valid'' else ''invalid'') @
          '' ('' @ count SevError @ '' errors, '' @ count SevWarning @ '' warnings)'') #
         map issue_line (vr_issues r))"

definition print_report :: "validation_report \<Rightarrow> console \<Rightarrow> console" where
  "print_report r w = w\<lparr>co_out := co_out w @ report_lines r\<rparr>"

section \<open>The commands\<close>

fun command_body :: "prims \<Rightarrow> command \<Rightarrow> console \<Rightarrow> (int \<times> console) res" where
  "command_body P (ValidateRun file) w =
     bindE (load_json_model P file (load_run P) w) (\<lambda>(r, w).
       let report = validate_run_record P r
       in Inr (if vr_valid report then 0 else 1, print_report report w))"
| "command_body P (ValidateReplay file) w =
     bindE (load_json_model P file (load_bundle P) w) (\<lambda>(b, w).
       let report = validate_replay_bundle P b
       in Inr (if vr_valid report then 0 else 1, print_report report w))"
| "command_body P (RedactRun file out flags) w =
     bindE (load_json_model P file (load_run P) w) (\<lambda>(r, w).
       let (p, w) = write_json_model P out
             (dump_run (redact_run_record r (Some (redaction_config_from_args flags)))) w
       in Inr (0, print_out (''Redacted run record written to '' @ path_text p @ ''.'') w))"
| "command_body P (RedactReplay file out flags) w =
     bindE (load_json_model P file (load_bundle P) w) (\<lambda>(b, w).
       let (p, w) = write_json_model P out
             (dump_bundle (redact_replay_bundle b (Some (redaction_config_from_args flags)))) w
       in Inr (0, print_out (''Redacted replay bundle written to '' @ path_text p @ ''.'') w))"
| "command_body P (SignReplay file secret out) w =
     bindE (load_json_model P file (load_bundle P) w) (\<lambda>(b, w).
       let (s, uuids, ticks) = sign_replay_bundle P b secret (co_uuids w) (co_ticks w);
           (p, w) = write_json_model P out (dump_signed s) (w\<lparr>co_uuids := uuids, co_ticks := ticks\<rparr>)
       in Inr (0, print_out (''Signed replay bundle written to '' @ path_text p @ ''.'') w))"
| "command_body P (VerifySignedReplay file secret) w =
     bindE (load_json_model P file (load_signed P) w) (\<lambda>(s, w).
     bindE (verify_signed_replay_bundle P s secret) (\<lambda>good.
       if good then Inr (0, print_out ''Signed replay bundle is valid.'' w)
       else Inr (1, print_err ''Signed replay bundle verification failed.'' w)))"

text \<open>The exceptions \<open>main\<close> turns into exit codes. They are raised before anything is printed or written.\<close>

definition run_command :: "prims \<Rightarrow> command \<Rightarrow> console \<Rightarrow> (int \<times> console) res" where
  "run_command P c w = (case command_body P c w of
      Inr x \<Rightarrow> Inr x
    | Inl e \<Rightarrow> if exn_kind e = FileNotFoundError \<or> exn_kind e = InvalidJsonError
          then Inr (2, print_err (exn_message e) w)
        else if exn_kind e = ModelValidationError then Inr (1, print_err (exn_message e) w)
        else Inl e)"

definition main :: "prims \<Rightarrow> (string list \<Rightarrow> int + command) \<Rightarrow> string list \<Rightarrow> console \<Rightarrow> (int \<times> console) res" where
  "main P parse_args argv w = (case parse_args argv of
      Inl code \<Rightarrow> Inr (code, w)
    | Inr c \<Rightarrow> run_command P c w)"

section \<open>What a command can end with\<close>

text \<open>A file that cannot be read as JSON: it is not there, or its text is no JSON text.\<close>

definition unreadable :: "prims \<Rightarrow> console \<Rightarrow> string \<Rightarrow> bool" where
  "unreadable P w file = (case co_files w (path_of file) of
      None \<Rightarrow> True | Some Undecodable \<Rightarrow> False | Some (Text s) \<Rightarrow> \<not> grammatical P s)"

text \<open>The files that loading stops at: not UTF-8, or with a number beyond the model.\<close>

definition stops_loading :: "prims \<Rightarrow> console \<Rightarrow> string \<Rightarrow> exn_class option" where
  "stops_loading P w file = (case co_files w (path_of file) of
      None \<Rightarrow> None | Some Undecodable \<Rightarrow> Some UnicodeDecodeError
    | Some (Text s) \<Rightarrow> if grammatical P s \<and> loads P s = None then Some not_finite else None)"

fun input_file :: "command \<Rightarrow> string" where
  "input_file (ValidateRun file) = file"
| "input_file (ValidateReplay file) = file"
| "input_file (RedactRun file _ _) = file"
| "input_file (RedactReplay file _ _) = file"
| "input_file (SignReplay file _ _) = file"
| "input_file (VerifySignedReplay file _) = file"

lemma load_json_cases:
  obtains (unreadable) k m where "unreadable P w file" "k = FileNotFoundError \<or> k = InvalidJsonError"
      "load_json_model P file validate w = Inl (Raise k m)"
  | (stopped) k m where "\<not> unreadable P w file" "stops_loading P w file = Some k"
      "load_json_model P file validate w = Inl (Raise k m)"
  | (invalid) m where "\<not> unreadable P w file" "stops_loading P w file = None"
      "load_json_model P file validate w = Inl (Raise ModelValidationError m)"
  | (loaded) x n where "\<not> unreadable P w file" "stops_loading P w file = None" "load_json_model P file validate w = Inr (x, w\<lparr>co_ticks := n\<rparr>)"
proof (cases "co_files w (path_of file)")
  case None
  then show thesis by (intro unreadable) (simp_all add: load_json_model_def unreadable_def throw_msg_def Let_def)
next
  case (Some f)
  show thesis
  proof (cases "read_content P f")
    case (Inl e)
    show thesis
    proof (cases "unreadable P w file")
      case True
      then obtain s where "f = Text s" "\<not> grammatical P s" by (auto simp: unreadable_def Some split: content.splits)
      with Inl have "exn_kind e = ValueError" by (auto simp: read_content_def read_json_def unread_def split: option.splits)
      with True Inl Some show thesis by (intro unreadable) (simp_all add: load_json_model_def throw_msg_def)
    next
      case False
      then have "stops_loading P w file = Some (exn_kind e)" "exn_kind e \<noteq> ValueError"
        using Inl by (auto simp: unreadable_def stops_loading_def Some read_content_def read_json_def unread_def throw_def
            UnicodeDecodeError_def not_finite_def split: content.splits option.splits)
      with False Inl Some show thesis by (intro stopped [of "exn_kind e" "exn_message e"]) (simp_all add: load_json_model_def)
    qed
  next
    case (Inr v)
    then obtain s where s: "f = Text s" "loads P s = Some v" by (auto simp: read_content_Inr)
    then have here: "\<not> unreadable P w file" "stops_loading P w file = None"
      by (simp_all add: unreadable_def stops_loading_def Some loads_grammatical)
    show thesis
    proof (cases "validate v (co_ticks w)")
      case Inl
      with Inr Some here show thesis by (intro invalid) (simp_all add: load_json_model_def throw_msg_def)
    next
      case ok: (Inr y)
      with Inr Some here show thesis
        by (cases y) (intro loaded [of "fst y" "snd y"], simp_all add: load_json_model_def)
    qed
  qed
qed

lemma error_kinds [simp]: "FileNotFoundError \<noteq> ModelValidationError" "InvalidJsonError \<noteq> ModelValidationError"
    "ModelValidationError \<noteq> FileNotFoundError" "ModelValidationError \<noteq> InvalidJsonError"
    "TypeError \<noteq> FileNotFoundError" "TypeError \<noteq> InvalidJsonError" "TypeError \<noteq> ModelValidationError"
  by (simp_all add: InvalidJsonError_def ModelValidationError_def)

lemma print_keeps [simp]: "co_files (print_out s w) = co_files w" "co_files (print_err s w) = co_files w"
    "co_files (print_report r w) = co_files w" "co_out (print_err s w) = co_out w"
  by (simp_all add: print_out_def print_err_def print_report_def)

lemma verify_outcome:
  "ascii_digests P \<Longrightarrow> verify_signed_replay_bundle P s secret =
     (if sg_signature_algorithm s = ''HMAC-SHA256'' \<and> \<not> ascii (sg_signature s) then throw TypeError
      else Inr (sg_signature_algorithm s = ''HMAC-SHA256'' \<and>
        sg_signature s = sign_payload P (serialise_replay_bundle P (sg_replay_bundle s)) secret))"
  by (simp add: verify_signed_replay_bundle_def compare_digest_def sign_payload_ascii)

text \<open>Verification does not answer on a signature that is not ASCII, of the algorithm it knows.\<close>

definition foreign_signature :: "prims \<Rightarrow> command \<Rightarrow> console \<Rightarrow> bool" where
  "foreign_signature P c w = (case c of
      VerifySignedReplay file _ \<Rightarrow> (case load_json_model P file (load_signed P) w of
          Inr (s, _) \<Rightarrow> sg_signature_algorithm s = ''HMAC-SHA256'' \<and> \<not> ascii (sg_signature s)
        | Inl _ \<Rightarrow> False)
    | _ \<Rightarrow> False)"

text \<open>
  Texts the interpreter reads as the model does: no integer of more than 4300 digits, nesting well
  within the recursion limits of the reader and of the models' dump, no escaped surrogate (a lone
  one is no Unicode text), and every number finite.
\<close>

primrec digits_within :: "nat \<Rightarrow> string \<Rightarrow> bool" where
  "digits_within n [] = True"
| "digits_within n (c # cs) = (if is_digit c then 0 < n \<and> digits_within (n - 1) cs else digits_within 4300 cs)"

text \<open>Levels left, whether inside a string, and whether behind a backslash there.\<close>

primrec nests_within :: "nat \<Rightarrow> bool \<Rightarrow> bool \<Rightarrow> string \<Rightarrow> bool" where
  "nests_within n inside escaped [] = True"
| "nests_within n inside escaped (c # cs) =
     (if inside then nests_within n (escaped \<or> c \<noteq> CHR 0x22) (\<not> escaped \<and> c = CHR 0x5C) cs
      else if c = CHR 0x22 then nests_within n True False cs
      else if c = CHR ''['' \<or> c = CHR ''{'' then 0 < n \<and> nests_within (n - 1) False False cs
      else if c = CHR '']'' \<or> c = CHR ''}'' then nests_within (Suc n) False False cs
      else nests_within n False False cs)"

primrec no_surrogates :: "string \<Rightarrow> bool" where
  "no_surrogates [] = True"
| "no_surrogates (c # cs) = (\<not> (c = CHR 0x5C \<and> (starts_with ''ud'' cs \<or> starts_with ''uD'' cs)) \<and> no_surrogates cs)"

definition ordinary_text :: "prims \<Rightarrow> string \<Rightarrow> bool" where
  "ordinary_text P s \<longleftrightarrow> digits_within 4300 s \<and> nests_within 200 False False s \<and> no_surrogates s \<and>
     (grammatical P s \<longrightarrow> loads P s \<noteq> None)"

definition ends_well :: "prims \<Rightarrow> command \<Rightarrow> console \<Rightarrow> bool" where
  "ends_well P c w = (case run_command P c w of
     Inl e \<Rightarrow> stops_loading P w (input_file c) = Some (exn_kind e) \<or>
       stops_loading P w (input_file c) = None \<and> exn_kind e = TypeError \<and> foreign_signature P c w
   | Inr (code, w') \<Rightarrow> stops_loading P w (input_file c) = None \<and> \<not> foreign_signature P c w \<and>
       code \<in> {0, 1, 2} \<and> (code = 2 \<longleftrightarrow> unreadable P w (input_file c)) \<and>
       (code \<noteq> 0 \<longrightarrow> co_files w' = co_files w))"

lemma unreadable_stops: "unreadable P w file \<Longrightarrow> stops_loading P w file = None"
  by (auto simp: unreadable_def stops_loading_def split: option.splits content.splits)

lemma stops_kinds:
  "stops_loading P w file = Some k \<Longrightarrow> k \<noteq> FileNotFoundError \<and> k \<noteq> InvalidJsonError \<and> k \<noteq> ModelValidationError"
  by (auto simp: stops_loading_def UnicodeDecodeError_def not_finite_def InvalidJsonError_def ModelValidationError_def
      split: option.splits content.splits if_splits)

lemma ends_well_if_loads:
  assumes "\<And>w. command_body P c w = bindE (load_json_model P (input_file c) validate w) f"
    and "\<not> foreign_signature P c w"
    and "\<And>x n w'. load_json_model P (input_file c) validate w = Inr (x, w') \<Longrightarrow> co_files w' = co_files w \<Longrightarrow>
      (\<exists>code w''. f (x, w') = Inr (code, w'') \<and> (code = 0 \<or> code = 1 \<and> co_files w'' = co_files w))"
  shows "ends_well P c w"
proof (cases rule: load_json_cases [of P w "input_file c" validate])
  case (loaded x n)
  then obtain code w'' where "command_body P c w = Inr (code, w'')" "code = 0 \<or> code = 1 \<and> co_files w'' = co_files w"
    using assms(3) [OF loaded(3)] by (auto simp: assms(1))
  with loaded(1,2) assms(2) show ?thesis by (auto simp: ends_well_def run_command_def)
qed (auto simp: ends_well_def run_command_def assms(1,2) unreadable_stops dest: stops_kinds)

lemma verification_ends_well:
  assumes "ascii_digests P"
  shows "ends_well P (VerifySignedReplay file secret) w"
proof (cases rule: load_json_cases [of P w "file" "load_signed P"])
  case (loaded s n)
  then show ?thesis
    using verify_outcome [OF assms, of s secret]
    by (auto simp: ends_well_def run_command_def foreign_signature_def throw_def)
qed (auto simp: ends_well_def run_command_def foreign_signature_def unreadable_stops dest: stops_kinds)

lemma commands_end_well:
  assumes "ascii_digests P"
  shows "ends_well P c w"
proof (cases c)
  case (VerifySignedReplay p secret)
  then show ?thesis using verification_ends_well [OF assms] by simp
qed (rule ends_well_if_loads, auto simp: Let_def foreign_signature_def split: prod.splits)+

text \<open>
  C37. Every command ends with an exit code, and the code means one thing: 2 exactly when the input
  file is missing or is no JSON text, otherwise 0 or 1; a command that does not succeed leaves every
  file as it was. Two exceptions escape, and always: \<open>UnicodeDecodeError\<close> exactly on an input file
  that is not UTF-8, and \<open>TypeError\<close> exactly when a signature to verify, of the algorithm the program
  writes, is not ASCII. For input texts within the interpreter's limits, whose numbers are finite.
\<close>

theorem command_outcomes:
  assumes "ascii_digests P"
    and "\<And>s. co_files w (path_of (input_file c)) = Some (Text s) \<Longrightarrow> ordinary_text P s"
  shows "case run_command P c w of
     Inl e \<Rightarrow> exn_kind e = UnicodeDecodeError \<and> co_files w (path_of (input_file c)) = Some Undecodable \<or>
       exn_kind e = TypeError \<and> foreign_signature P c w
   | Inr (code, w') \<Rightarrow> co_files w (path_of (input_file c)) \<noteq> Some Undecodable \<and> \<not> foreign_signature P c w \<and>
       code \<in> {0, 1, 2} \<and> (code = 2 \<longleftrightarrow> unreadable P w (input_file c)) \<and>
       (code \<noteq> 0 \<longrightarrow> co_files w' = co_files w)"
proof -
  have "stops_loading P w (input_file c) =
      (if co_files w (path_of (input_file c)) = Some Undecodable then Some UnicodeDecodeError else None)"
    using assms(2) by (auto simp: stops_loading_def ordinary_text_def split: option.splits content.splits)
  with commands_end_well [OF assms(1), of c w] show ?thesis
    by (auto simp: ends_well_def split: sum.splits if_splits)
qed

section \<open>Commands one after the other\<close>

lemma load_written_file:
  assumes "json_floats P" "wf_pyval (PDict d)" "\<And>n. validate (PDict d) n = Inr (x, n)"
    "co_files w (path_of file) = Some (Text (dumps P 2 0 (PDict d)))"
  shows "load_json_model P file validate w = Inr (x, w)"
  using assms by (simp add: load_json_model_def loads_dumped Let_def del: wf_pyval.simps dumps_as.simps)

lemma loaded_wf:
  assumes "load_json_model P file validate w = Inr (x, w')"
  shows "\<exists>v n. wf_pyval v \<and> validate v (co_ticks w) = Inr (x, n)"
  using assms by (auto simp: load_json_model_def Let_def read_content_Inr split: option.splits sum.splits if_splits dest: loads_wf)

lemma loaded_payloads_ok:
  "load_json_model P file (load_run P) w = Inr (r, w') \<Longrightarrow> payloads_ok r"
  "load_json_model P file (load_bundle P) w = Inr (b, w') \<Longrightarrow> payloads_ok b"
  by (auto dest!: loaded_wf intro: load_run_wf load_bundle_wf)

lemma redacted_ok: "payloads_ok b \<Longrightarrow> payloads_ok (apply_redaction c b)"
  by (auto simp: payloads_ok_def apply_redaction_def redact_action_def list_all_iff)

lemma redact_run_result:
  assumes "run_command P (RedactRun file out flags) w = Inr (0, w')"
  shows "\<exists>r n. load_json_model P file (load_run P) w = Inr (r, w\<lparr>co_ticks := n\<rparr>) \<and>
     co_files w' = write_model P (path_of out) (dump_run (redact_run_record r (Some (redaction_config_from_args flags)))) (co_files w)"
  using assms
  by (cases rule: load_json_cases [of P w "file" "load_run P"])
    (auto simp: run_command_def write_json_model_def Let_def split: if_splits)

lemma validate_run_result:
  assumes "load_json_model P file (load_run P) w = Inr (r, w')"
  shows "run_command P (ValidateRun file) w =
     Inr (if vr_valid (validate_run_record P r) then 0 else 1, print_report (validate_run_record P r) w')"
  using assms by (simp add: run_command_def Let_def)

text \<open>
  C38. A redacted file can be handed to the auditor: after \<open>redact-run\<close> succeeded, \<open>validate-run\<close> on
  the new file prints the same report and ends with the same code as on the original, the new file
  loads as the redacted record, whose payloads are all the marker, and no other file has changed.
\<close>

theorem redacted_file_validates_alike:
  assumes "json_floats P" "run_command P (RedactRun file out flags) w = Inr (0, w')"
  shows "\<exists>code report r v1 v2.
     run_command P (ValidateRun file) w = Inr (code, v1) \<and> co_out v1 = co_out w @ report \<and>
     run_command P (ValidateRun out) w' = Inr (code, v2) \<and> co_out v2 = co_out w' @ report \<and>
     load_json_model P out (load_run P) w' = Inr (r, w') \<and>
     list_all (\<lambda>a. ac_payload a = [(''redacted'', PBool True)]) (rb_actions r) \<and>
     co_files w' = (co_files w)(path_of out := co_files w' (path_of out))"
proof -
  define c where "c = Some (redaction_config_from_args flags)"
  obtain r n where r: "load_json_model P file (load_run P) w = Inr (r, w\<lparr>co_ticks := n\<rparr>)"
    and w': "co_files w' = write_model P (path_of out) (dump_run (redact_run_record r c)) (co_files w)"
    using redact_run_result [OF assms(2)] by (auto simp: c_def)
  have "wf_pyval (PDict (dump_run (redact_run_record r c)))"
    using loaded_payloads_ok(1) [OF r] by (simp add: wf_dump_run redact_run_record_def redacted_ok del: wf_pyval.simps)
  with assms(1) have l: "load_json_model P out (load_run P) w' = Inr (redact_run_record r c, w')"
    by (rule load_written_file) (simp_all add: load_dump_run w' write_model_def del: dumps_as.simps)
  have rep: "validate_run_record P (redact_run_record r c) = validate_run_record P r"
    using redaction_keeps_validation by blast
  have "list_all (\<lambda>a. ac_payload a = [(''redacted'', PBool True)]) (rb_actions (redact_run_record r c))"
    by (simp add: redact_run_record_def given_config_def c_def redaction_config_from_args_def apply_redaction_def
        redact_action_def list_all_iff)
  with l show ?thesis
    unfolding validate_run_result [OF r] validate_run_result [OF l] rep
    by (auto simp: w' write_model_def print_report_def simp del: dumps_as.simps)
qed

lemma sign_result:
  assumes "run_command P (SignReplay file secret out) w = Inr (0, w')"
  shows "\<exists>b n. load_json_model P file (load_bundle P) w = Inr (b, w\<lparr>co_ticks := n\<rparr>) \<and>
     co_files w' = write_model P (path_of out)
       (dump_signed (fst (sign_replay_bundle P b secret (co_uuids w) n))) (co_files w)"
  using assms
  by (cases rule: load_json_cases [of P w "file" "load_bundle P"])
    (auto simp: run_command_def write_json_model_def Let_def split: prod.splits if_splits)

lemma signed_bundle_kept: "sg_replay_bundle (fst (sign_replay_bundle P b secret u t)) = b"
  by (simp add: sign_replay_bundle_def)

text \<open>
  C35. Signatures survive the export: what \<open>sign-replay\<close> wrote, \<open>verify-signed-replay\<close> accepts with
  the same secret, and with another secret it ends with 0 or 1 as that secret gives the bundle the
  same code or not.
\<close>

theorem signed_file_verifies:
  assumes "json_floats P" "ascii_digests P" "run_command P (SignReplay file secret out) w = Inr (0, w')"
  shows "\<exists>b v. load_json_model P file (load_bundle P) w = Inr (b, v) \<and>
     (\<exists>v. run_command P (VerifySignedReplay out secret) w' = Inr (0, v)) \<and>
     (\<exists>v. run_command P (VerifySignedReplay out other) w' =
        Inr (if sign_payload P (serialise_replay_bundle P b) secret = sign_payload P (serialise_replay_bundle P b) other
          then 0 else 1, v))"
proof -
  obtain b n where b: "load_json_model P file (load_bundle P) w = Inr (b, w\<lparr>co_ticks := n\<rparr>)"
    and w': "co_files w' = write_model P (path_of out)
       (dump_signed (fst (sign_replay_bundle P b secret (co_uuids w) n))) (co_files w)"
    using sign_result [OF assms(3)] by blast
  define s where "s = fst (sign_replay_bundle P b secret (co_uuids w) n)"
  have "wf_pyval (PDict (dump_signed s))"
    using loaded_payloads_ok(2) [OF b] by (simp add: wf_dump_signed signed_bundle_kept s_def del: wf_pyval.simps)
  with assms(1) have l: "load_json_model P out (load_signed P) w' = Inr (s, w')"
    by (rule load_written_file) (simp_all add: load_dump_signed w' s_def write_model_def del: dumps_as.simps)
  have "\<exists>v. run_command P (VerifySignedReplay out k) w' =
        Inr (if sign_payload P (serialise_replay_bundle P b) secret = sign_payload P (serialise_replay_bundle P b) k
          then 0 else 1, v)" for k
    by (auto simp: run_command_def l s_def verify_signed [OF assms(2)])
  from b this [of secret] this [of other] show ?thesis by auto
qed

text \<open>
  C31. From recording to the auditor's verdict: when uuids do not repeat, after starting a fresh
  recorder and any sequence of operations \<open>export_json\<close> writes the run to the named file and no
  other, and \<open>validate-run\<close> on that file ends with 0 when every reliance record refers to a recorded
  action and with 1 otherwise.
\<close>

theorem exported_run_validates:
  assumes "inj (uuid4 P)" "json_floats P"
    and "start_run P task actor env allowed blocked version (new_recorder n m) = (run_id, rc)"
    and "rec_run P ops (rc, x) = (rc', x')"
    and "list_all (\<lambda>a. wf_pyval (PDict (ac_payload a))) (rc_actions rc')"
  shows "\<exists>fs. export_json P out rc' (co_files w) = Inr (path_of out, fs) \<and>
     fs = (co_files w)(path_of out := fs (path_of out)) \<and>
     (\<exists>v. run_command P (ValidateRun out) (w\<lparr>co_files := fs\<rparr>) =
        Inr (if list_all (references_known (ac_action_id ` set (rc_actions rc'))) (rc_reliance_records rc')
          then 0 else 1, v))"
proof -
  have "recorder_coherent P run_id rc'"
    using run_coherent [OF assms(1), of run_id "(rc, x)" ops] started_coherent(1) [OF assms(3)] assms(4) by simp
  then obtain r where r: "to_run_record rc' = Inr r" "rb_actions r = rc_actions rc'"
    "coherent r \<longleftrightarrow> list_all (references_known (ac_action_id ` set (rc_actions rc'))) (rc_reliance_records rc')"
    by (rule coherent_export) simp
  define s where "s = Text (dumps P 2 0 (PDict (dump_run r)))"
  have "wf_pyval (PDict (dump_run r))" using assms(5) by (simp only: wf_dump_run payloads_ok_def r(2))
  with assms(2) have "load_json_model P out (load_run P) (w\<lparr>co_files := (co_files w)(path_of out \<mapsto> s)\<rparr>) =
      Inr (r, w\<lparr>co_files := (co_files w)(path_of out \<mapsto> s)\<rparr>)"
    by (rule load_written_file) (simp_all add: load_dump_run s_def del: dumps_as.simps)
  from validate_run_result [OF this] show ?thesis
    by (simp add: export_json_def r write_model_def valid_iff_coherent s_def del: dumps_as.simps)
qed

section \<open>Witnesses\<close>

definition desk :: console where
  "desk = \<lparr>co_files = [path_of ''run.json'' \<mapsto> Text (dumps export_prims 2 0 (PDict (dump_run stored_run))),
     path_of ''bundle.json'' \<mapsto> Text (dumps export_prims 2 0 (PDict (dump_bundle stored_bundle)))],
     co_uuids = 0, co_ticks = 0, co_out = [], co_err = []\<rparr>"

definition no_flags :: redaction_flags where
  "no_flags = \<lparr>rf_targets = False, rf_final_output = False, rf_reasons = False, rf_replacement = ''[REDACTED]''\<rparr>"

definition after :: "command \<Rightarrow> console" where
  "after c = snd (projr (run_command export_prims c desk))"

lemma desk_paths: "path_of ''run.json'' \<noteq> path_of ''bundle.json''" "co_files desk (path_of ''none.json'') = None"
  by (simp_all add: path_of_def root_of_def desk_def)

lemma desk_run: "load_json_model export_prims ''run.json'' (load_run export_prims) desk = Inr (stored_run, desk)"
proof (rule load_written_file [OF export_floats(1)])
  show "wf_pyval (PDict (dump_run stored_run))" using stored_ok(1) by (simp only: wf_dump_run)
  show "co_files desk (path_of ''run.json'') = Some (Text (dumps export_prims 2 0 (PDict (dump_run stored_run))))"
    using desk_paths(1) by (simp add: desk_def del: dumps_as.simps)
qed (rule load_dump_run)

lemma desk_bundle:
  "load_json_model export_prims ''bundle.json'' (load_bundle export_prims) desk = Inr (stored_bundle, desk)"
proof (rule load_written_file [OF export_floats(1)])
  show "wf_pyval (PDict (dump_bundle stored_bundle))" using stored_ok(2) by (simp only: wf_dump_bundle)
  show "co_files desk (path_of ''bundle.json'') = Some (Text (dumps export_prims 2 0 (PDict (dump_bundle stored_bundle))))"
    by (simp add: desk_def del: dumps_as.simps)
qed (rule load_dump_bundle)

text \<open>A text that breaks off, and a file that is no text.\<close>

definition broken_desk :: console where
  "broken_desk = desk\<lparr>co_files := [path_of ''half.json'' \<mapsto> Text ''[1,'', path_of ''raw.json'' \<mapsto> Undecodable]\<rparr>"

lemma broken_paths: "path_of ''half.json'' \<noteq> path_of ''raw.json''"
  by (simp add: path_of_def root_of_def)

lemma half_a_text: "document nf P ''[1,'' = None" "ordinary_text P ''[1,''"
proof -
  show none: "document nf P ''[1,'' = None" for nf
    by (simp add: document_def numeral_eq_Suc is_ws_def parse.simps scan_number_def split_number_def whole_def
        fraction_def exponent_def is_digit_def Let_def after_constant_def)
  show "ordinary_text P ''[1,''"
    by (simp add: ordinary_text_def grammatical_def none is_digit_def)
qed

lemma command_outcomes_witness:
  "(\<exists>w. run_command export_prims (ValidateRun ''half.json'') broken_desk = Inr (2, w) \<and> co_files w = co_files broken_desk) \<and>
   (\<exists>m. run_command export_prims (ValidateRun ''raw.json'') broken_desk = Inl (Raise UnicodeDecodeError m))"
proof
  have half: "co_files broken_desk (path_of ''half.json'') = Some (Text ''[1,'')"
    using broken_paths by (simp add: broken_desk_def)
  then show "\<exists>w. run_command export_prims (ValidateRun ''half.json'') broken_desk = Inr (2, w) \<and> co_files w = co_files broken_desk"
    using command_outcomes [OF export_digests, of broken_desk "ValidateRun ''half.json''"]
    by (auto simp: half_a_text unreadable_def grammatical_def foreign_signature_def split: sum.splits)
  have raw: "co_files broken_desk (path_of ''raw.json'') = Some Undecodable" by (simp add: broken_desk_def)
  then obtain e where "run_command export_prims (ValidateRun ''raw.json'') broken_desk = Inl e" "exn_kind e = UnicodeDecodeError"
    using command_outcomes [OF export_digests, of broken_desk "ValidateRun ''raw.json''"]
    by (auto simp: foreign_signature_def split: sum.splits)
  then show "\<exists>m. run_command export_prims (ValidateRun ''raw.json'') broken_desk = Inl (Raise UnicodeDecodeError m)"
    by (cases e) auto
qed

lemma redacted_file_validates_alike_witness:
  "\<exists>code v1 v2. run_command export_prims (ValidateRun ''run.json'') desk = Inr (code, v1) \<and>
     run_command export_prims (ValidateRun ''out.json'') (after (RedactRun ''run.json'' ''out.json'' no_flags)) = Inr (code, v2)"
proof -
  have "run_command export_prims (RedactRun ''run.json'' ''out.json'' no_flags) desk =
      Inr (0, after (RedactRun ''run.json'' ''out.json'' no_flags))"
    by (simp add: after_def run_command_def desk_run Let_def split: prod.splits)
  from redacted_file_validates_alike [OF export_floats(1) this] show ?thesis by blast
qed

lemma signed_file_verifies_witness:
  "\<exists>v. run_command export_prims (VerifySignedReplay ''signed.json'' ''key'')
     (after (SignReplay ''bundle.json'' ''key'' ''signed.json'')) = Inr (0, v)"
proof -
  have "run_command export_prims (SignReplay ''bundle.json'' ''key'' ''signed.json'') desk =
      Inr (0, after (SignReplay ''bundle.json'' ''key'' ''signed.json''))"
    by (simp add: after_def run_command_def desk_bundle Let_def split: prod.splits)
  from signed_file_verifies [OF export_floats(1) export_digests this] show ?thesis by blast
qed

definition export_end :: recorder where
  "export_end = fst (rec_run export_prims sample_ops
     (snd (start_run export_prims ''t'' ''agent'' ''test'' [''crm''] [] ''v1'' (new_recorder 0 0)), ()))"

lemma export_end_lists: "list_all (\<lambda>a. ac_payload a = []) (rc_actions export_end)" "rc_reliance_records export_end = []"
  by (simp_all add: export_end_def rec_run_def sample_ops_def start_run_def new_recorder_def Let_def
      propose_action_def require_started_def kept_def used_def)

lemma exported_run_validates_witness:
  "\<exists>fs v. export_json export_prims ''run.json'' export_end (co_files desk) = Inr (path_of ''run.json'', fs) \<and>
     run_command export_prims (ValidateRun ''run.json'') (desk\<lparr>co_files := fs\<rparr>) = Inr (0, v)"
proof -
  have u: "inj (uuid4 export_prims)" using sample_uuids by (simp add: export_prims_def with_ratios_def)
  have p: "list_all (\<lambda>a. wf_pyval (PDict (ac_payload a))) (rc_actions export_end)"
    using export_end_lists(1) by (simp add: list_all_iff)
  have r: "rec_run export_prims sample_ops
     (snd (start_run export_prims ''t'' ''agent'' ''test'' [''crm''] [] ''v1'' (new_recorder 0 0)), ()) = (export_end, ())"
    by (simp add: export_end_def prod_eq_iff)
  show ?thesis
    using exported_run_validates [OF u export_floats(1) prod.collapse [symmetric] r p, of "''run.json''" desk]
      export_end_lists(2) by auto
qed

end
