(* ===== verification/Setup.thy ===== *)
theory Setup
  imports Recorder
begin

text \<open>
  Ready-made runs: the policy configuration of \<open>policy_config.py\<close> (loading, the frame and the
  authority records it gives) and the two recorders of \<open>demo_policies.py\<close>. Reading a file
  is an argument: that there is no such file, or what \<open>json.loads\<close> makes of it or raises.
\<close>

section \<open>Policy configuration\<close>

record policy_config =
  pc_policy_version :: string
  pc_allowed_tools :: "string list"
  pc_blocked_tools :: "string list"
  pc_authority_required :: "(string \<times> string list) list"
  pc_default_action :: gate_result

text \<open>\<open>PolicyConfig.model_validate\<close>: strings and lists of strings only, two fields with a default.\<close>

definition expect_strs :: "pyval \<Rightarrow> string list res" where
  "expect_strs v = (case v of PList xs \<Rightarrow> mapE expect_str xs | _ \<Rightarrow> throw ValidationError)"

definition expect_gate_result :: "pyval \<Rightarrow> gate_result res" where
  "expect_gate_result v =
     (if v = PStr ''allow'' then Inr Allow else if v = PStr ''block'' then Inr Block
      else if v = PStr ''escalate'' then Inr Escalate else throw ValidationError)"

definition required_field :: "pydict \<Rightarrow> string \<Rightarrow> pyval res" where
  "required_field d k = (case map_of d k of None \<Rightarrow> throw ValidationError | Some v \<Rightarrow> Inr v)"

definition validate_policy_config :: "pyval \<Rightarrow> policy_config res" where
  "validate_policy_config raw =
     bindE (expect_dict raw) (\<lambda>d.
     bindE (bindE (required_field d ''policy_version'') expect_str) (\<lambda>version.
     bindE (bindE (required_field d ''allowed_tools'') expect_strs) (\<lambda>allowed.
     bindE (bindE (required_field d ''blocked_tools'') expect_strs) (\<lambda>blocked.
     bindE (bindE (expect_dict (dget_or d ''authority_required'' (PDict [])))
        (mapE (\<lambda>(k, v). bindE (expect_strs v) (\<lambda>xs. Inr (k, xs))))) (\<lambda>authority.
     bindE (expect_gate_result (dget_or d ''default_action'' (PStr ''escalate''))) (\<lambda>action.
       Inr \<lparr>pc_policy_version = version, pc_allowed_tools = allowed, pc_blocked_tools = blocked,
            pc_authority_required = authority, pc_default_action = action\<rparr>))))))"

text \<open>A missing file goes through; text that is not JSON, or not a configuration, is a \<open>ValueError\<close>.\<close>

definition load_policy_config :: "('f \<Rightarrow> pyval res) \<Rightarrow> 'f option \<Rightarrow> policy_config res" where
  "load_policy_config read file = (case file of
      None \<Rightarrow> throw FileNotFoundError
    | Some f \<Rightarrow> bindE (read f) (\<lambda>raw. case validate_policy_config raw of
          Inl _ \<Rightarrow> throw ValueError
        | Inr c \<Rightarrow> Inr c))"

definition frame_from_policy_config ::
  "prims \<Rightarrow> nat \<Rightarrow> nat \<Rightarrow> policy_config \<Rightarrow> string \<Rightarrow> string \<Rightarrow> string \<Rightarrow> frame" where
  "frame_from_policy_config P uuids ticks c task actor environment =
     create_frame P uuids ticks task actor environment (pc_allowed_tools c) (pc_blocked_tools c) (pc_policy_version c)"

text \<open>One record per entry of \<open>authority_required\<close>; the key of the entry is not used.\<close>

definition authority_records_from_policy_config ::
  "prims \<Rightarrow> nat \<Rightarrow> nat \<Rightarrow> policy_config \<Rightarrow> string \<Rightarrow> string \<Rightarrow> string \<Rightarrow> string option \<Rightarrow> authority_record list" where
  "authority_records_from_policy_config P uuids ticks c run_id actor source expires_at =
     map (\<lambda>(n, (_, scopes)). \<lparr>au_authority_id = uuid4 P (uuids + n), au_run_id = run_id, au_actor = actor,
         au_scope = scopes, au_expires_at = expires_at, au_source = source,
         au_created_at = isoformat_utc P (clock P (ticks + n))\<rparr>)
       (enumerate 0 (pc_authority_required c))"

section \<open>Demo recorders\<close>

definition demo_recorder ::
  "prims \<Rightarrow> string \<Rightarrow> string \<Rightarrow> string \<Rightarrow> string list \<Rightarrow> string list \<Rightarrow> string \<Rightarrow> string list \<Rightarrow> nat \<Rightarrow> nat \<Rightarrow>
     recorder res" where
  "demo_recorder P task actor environment allowed blocked version scope uuids ticks =
     (case start_run P task actor environment allowed blocked version (new_recorder uuids ticks) of
        (_, rc) \<Rightarrow> bindE (add_authority_record P actor scope ''demo_policy_config'' None rc) (\<lambda>(_, rc'). Inr rc'))"

definition tools_or :: "string list option \<Rightarrow> string list \<Rightarrow> string list" where
  "tools_or given fallback = (case given of None \<Rightarrow> fallback | Some xs \<Rightarrow> xs)"

definition read_only_recorder ::
  "prims \<Rightarrow> string \<Rightarrow> string \<Rightarrow> string \<Rightarrow> string list option \<Rightarrow> string list option \<Rightarrow> string \<Rightarrow> nat \<Rightarrow> nat \<Rightarrow>
     recorder res" where
  "read_only_recorder P task actor environment allowed blocked version uuids ticks =
     demo_recorder P task actor environment (tools_or allowed [''crm_read'', ''notes_search''])
       (tools_or blocked [''email_send'', ''file_write'']) version [''read''] uuids ticks"

definition write_enabled_recorder ::
  "prims \<Rightarrow> string \<Rightarrow> string \<Rightarrow> string \<Rightarrow> string list option \<Rightarrow> string list option \<Rightarrow> string \<Rightarrow> nat \<Rightarrow> nat \<Rightarrow>
     recorder res" where
  "write_enabled_recorder P task actor environment allowed blocked version uuids ticks =
     demo_recorder P task actor environment (tools_or allowed [''crm_read'', ''crm_write'', ''notes_search''])
       (tools_or blocked [''email_send'']) version [''read'', ''write''] uuids ticks"

section \<open>What they permit\<close>

text \<open>A demo recorder is started and has one authority record, with the scope it was given.\<close>

lemma demo_recorder_shape:
  "\<exists>rc i fr au. demo_recorder P task actor environment allowed blocked version scope uuids ticks = Inr rc \<and>
     rc_run_id rc = Some i \<and> rc_frame rc = Some fr \<and> fr_allowed_tools fr = allowed \<and> fr_blocked_tools fr = blocked \<and>
     rc_authority_records rc = [au] \<and> au_scope au = scope \<and> au_run_id au = i \<and> au_actor au = fr_actor fr"
  by (simp add: demo_recorder_def start_run_def add_authority_record_def require_started_def used_def
      new_recorder_def create_frame_def Let_def)

text \<open>What a recorder allows, its authority records taken together: the tools of its frame, and reads or granted scopes.\<close>

lemma evaluate_allows:
  assumes "evaluate_action P a trace rc = Inr ((d, blk), rc')" "gd_result d = Allow" "rc_frame rc = Some fr"
  shows "ac_tool_name a \<in> set (fr_allowed_tools fr) \<and> ac_tool_name a \<notin> set (fr_blocked_tools fr) \<and>
     (ac_action_type a = ''read'' \<or> ac_action_type a \<in> {''write'', ''external_send''} \<and>
       (\<exists>r\<in>set (rc_authority_records rc). ac_action_type a \<in> set (au_scope r)))"
proof -
  have "\<exists>trs rc1. ask_gate P a fr trace rc = Inr (d, trs, rc1)"
    using assms by (cases rule: evaluate_action_cases [OF assms(1)]) auto
  then obtain trs rc1 where "ask_gate P a fr trace rc = Inr (d, trs, rc1)" by blast
  then show ?thesis
  proof (rule ask_gate_cases)
    fix t scopes
    assume sc: "active_scopes P a fr (rc_authority_records rc) t = Inr scopes" and "gd_result d = rule_outcome a fr scopes"
    with assms(2) have "ac_tool_name a \<in> set (fr_allowed_tools fr)" "ac_tool_name a \<notin> set (fr_blocked_tools fr)"
      "ac_action_type a = ''read'' \<or> ac_action_type a \<in> {''write'', ''external_send''} \<and> ac_action_type a \<in> set scopes"
      by (auto simp: rule_outcome_def split: if_splits)
    with active_scopes_member [OF sc] show ?thesis by blast
  qed
qed

text \<open>A read-only recorder allows reads alone; a write-enabled one reads and writes, and no external send.\<close>

lemma read_only_allows_reads:
  assumes "read_only_recorder P task actor environment allowed blocked version uuids ticks = Inr rc"
    and "evaluate_action P a trace rc = Inr ((d, blk), rc')" "gd_result d = Allow"
  shows "ac_action_type a = ''read'' \<and> ac_tool_name a \<in> set (tools_or allowed [''crm_read'', ''notes_search'']) \<and>
     ac_tool_name a \<notin> set (tools_or blocked [''email_send'', ''file_write''])"
proof -
  from demo_recorder_shape assms(1) [unfolded read_only_recorder_def] obtain fr au where
    "rc_frame rc = Some fr" "fr_allowed_tools fr = tools_or allowed [''crm_read'', ''notes_search'']"
    "fr_blocked_tools fr = tools_or blocked [''email_send'', ''file_write'']"
    "rc_authority_records rc = [au]" "au_scope au = [''read'']" by (metis sum.inject(2))
  with evaluate_allows [OF assms(2,3)] show ?thesis by auto
qed

lemma write_enabled_allows:
  assumes "write_enabled_recorder P task actor environment allowed blocked version uuids ticks = Inr rc"
    and "evaluate_action P a trace rc = Inr ((d, blk), rc')" "gd_result d = Allow"
  shows "ac_action_type a \<in> {''read'', ''write''} \<and>
     ac_tool_name a \<in> set (tools_or allowed [''crm_read'', ''crm_write'', ''notes_search'']) \<and>
     ac_tool_name a \<notin> set (tools_or blocked [''email_send''])"
proof -
  from demo_recorder_shape assms(1) [unfolded write_enabled_recorder_def] obtain fr au where
    "rc_frame rc = Some fr" "fr_allowed_tools fr = tools_or allowed [''crm_read'', ''crm_write'', ''notes_search'']"
    "fr_blocked_tools fr = tools_or blocked [''email_send'']"
    "rc_authority_records rc = [au]" "au_scope au = [''read'', ''write'']" by (metis sum.inject(2))
  with evaluate_allows [OF assms(2,3)] show ?thesis by auto
qed

text \<open>
  The records of a configuration grant its actor every scope listed under any action type, whatever
  the key it is listed under, and nothing else.
\<close>

lemma config_scopes:
  assumes "ac_run_id a = run_id" "fr_actor fr = actor"
  shows "active_scopes P a fr (authority_records_from_policy_config P uuids ticks c run_id actor source None) t =
     Inr (concat (map snd (pc_authority_required c)))"
proof -
  have "active_scopes P a fr (map (\<lambda>(n, (_, scopes)). \<lparr>au_authority_id = uuid4 P (uuids + n), au_run_id = run_id,
         au_actor = actor, au_scope = scopes, au_expires_at = None, au_source = source,
         au_created_at = isoformat_utc P (clock P (ticks + n))\<rparr>) (enumerate m xs)) t = Inr (concat (map snd xs))" for m xs
  proof (induction xs arbitrary: m)
    case Nil
    then show ?case by (simp add: active_scopes_def)
  next
    case (Cons x xs)
    then show ?case using assms by (cases x) (simp add: active_scopes_def record_scopes_def)
  qed
  then show ?thesis by (simp add: authority_records_from_policy_config_def)
qed

end
