(* ===== verification/Examples.thy ===== *)
theory Examples
  imports CommandLine Setup
begin

text \<open>
  The examples of the repository (\<open>examples/*.py\<close>) as functions: each returns the texts it prints,
  one per call of \<open>print\<close>, and the values or files it leaves. The lemmas run them: they do not raise,
  and the gate answers what their comments and labels announce.
\<close>

section \<open>Printed text\<close>

text \<open>Characters beyond ASCII are their UTF-8 bytes.\<close>

definition ellipsis :: string where
  "ellipsis = [CHR 0xE2, CHR 0x80, CHR 0xA6]"

definition dash :: string where
  "dash = [CHR 0xE2, CHR 0x80, CHR 0x93]"

text \<open>\<open>s[:n]\<close>, in characters, and \<open>repr\<close> of a gate result.\<close>

definition chars_up_to :: "nat \<Rightarrow> string \<Rightarrow> string" where
  "chars_up_to n s = concat (take n (utf8_chars s))"

definition word_repr :: "gate_result \<Rightarrow> string" where
  "word_repr r = [CHR 0x27] @ gate_word r @ [CHR 0x27]"

definition bool_text :: "bool \<Rightarrow> string" where
  "bool_text b = (if b then ''True'' else ''False'')"

definition opt_text :: "string option \<Rightarrow> string" where
  "opt_text s = (case s of None \<Rightarrow> ''None'' | Some t \<Rightarrow> t)"

section \<open>A simple agent run\<close>

definition simple_run ::
  "prims \<Rightarrow> string \<Rightarrow> recorder \<Rightarrow> files \<Rightarrow> (string list \<times> agent_run \<times> replay_bundle \<times> recorder \<times> files) res" where
  "simple_run P out rc fs =
     (let (run_id, rc) = start_run P ''Summarize a customer record and draft an email.'' ''agent-v1'' ''production''
        [''crm_read'', ''notes_search''] [''email_send''] ''v1.0'' rc in
     bindE (add_authority_record P ''agent-v1'' [''read''] ''user_consent'' None rc) (\<lambda>(_, rc).
     bindE (propose_action P ''crm_read'' ''read'' ''customer:42''
        (Some [(''fields'', PList [PStr ''name'', PStr ''email'', PStr ''account_status''])])
        (Some ''Retrieve customer details to prepare the summary.'') rc) (\<lambda>(read_action, rc).
     bindE (evaluate_action P read_action True rc) (\<lambda>((read_decision, _), rc).
     bindE (record_reliance P ''crm_read'' ''tool'' ''customer record fields: name, email, account_status''
        (Some (ac_action_id read_action)) rc) (\<lambda>(_, rc).
     bindE (propose_action P ''email_send'' ''external_send'' ''customer@example.com''
        (Some [(''subject'', PStr ''Your account summary''), (''body'', PStr ''<draft>'')])
        (Some ''Send the prepared email draft to the customer.'') rc) (\<lambda>(send_action, rc).
     bindE (evaluate_action P send_action True rc) (\<lambda>((send_decision, blocked), rc).
     bindE (complete_run (Some ''Draft prepared but email send blocked pending authorization.'') rc) (\<lambda>(_, rc).
     bindE (export_json P out rc fs) (\<lambda>(out_path, fs).
     bindE (generate_bundle P rc) (\<lambda>(bundle, rc).
     bindE (to_run_record rc) (\<lambda>run_record.
       Inr ([''Run started  run_id='' @ run_id,
          ''Authority record added  scope=['' @ [CHR 0x27] @ ''read'' @ [CHR 0x27] @ '']'',
          ''Policy decision  tool=crm_read  result='' @ word_repr (gd_result read_decision) @
            ''  fingerprint='' @ chars_up_to 16 (gd_fingerprint read_decision) @ ellipsis,
          ''Reliance record added  source=crm_read'',
          ''Policy decision  tool=email_send  result='' @ word_repr (gd_result send_decision) @
            ''  reason='' @ gd_reason send_decision] @
         (case blocked of None \<Rightarrow> [] | Some b \<Rightarrow> [''Blocked action recorded  blocked_id='' @ ba_blocked_id b]) @
         [''Run completed.'', ''Run record exported  path='' @ path_text out_path,
          ''Replay bundle generated  replay_bundle_id='' @ bu_replay_bundle_id bundle,
          CHR 0x0A # ''--- Run summary ---'', ''  task         : '' @ ar_task run_record,
          ''  actions      : '' @ digits_nat (length (rb_actions run_record)),
          ''  decisions    : '' @ digits_nat (length (rb_decisions run_record)),
          ''  blocked      : '' @ digits_nat (length (rb_blocked_actions run_record)),
          ''  reliances    : '' @ digits_nat (length (rb_reliance_records run_record)),
          ''  authority    : '' @ digits_nat (length (rb_authority_records run_record)),
          ''  final output : '' @ opt_text (rb_final_output run_record)],
        run_record, bundle, rc, fs))))))))))))"

section \<open>Tool adapters\<close>

definition crm_adapter :: "'x adapter" where
  "crm_adapter = \<lparr>ad_name = ''crm_read'', ad_action_type = ''read'',
     ad_execute = (\<lambda>target payload x. (Inr [(''target'', PStr target),
       (''fields'', dget_or payload ''fields'' (PList [])), (''account_status'', PStr ''active'')], x))\<rparr>"

definition email_adapter :: "'x adapter" where
  "email_adapter = \<lparr>ad_name = ''email_send'', ad_action_type = ''external_send'',
     ad_execute = (\<lambda>target payload x. (Inr [(''target'', PStr target), (''payload'', PDict payload),
       (''sent'', PBool True)], x))\<rparr>"

definition executed_text :: "tool_result option \<Rightarrow> string" where
  "executed_text r = bool_text (case r of None \<Rightarrow> False | Some t \<Rightarrow> tx_executed t)"

definition adapter_demo ::
  "prims \<Rightarrow> string \<Rightarrow> recorder \<Rightarrow> files \<Rightarrow>
     (string list \<times> (gate_decision \<times> tool_result option) \<times> (gate_decision \<times> tool_result option) \<times>
      agent_run \<times> replay_bundle \<times> recorder \<times> files) res" where
  "adapter_demo P out rc fs =
     (let (_, rc) = start_run P ''Read a customer record and decide whether an email can be sent.''
        ''tool-demo-agent'' ''sandbox'' [''crm_read'', ''email_send''] [''email_send''] ''tool-demo-v1'' rc;
        (read, rc, _) = execute_with_control P ''crm_read'' ''read'' ''customer:42''
          (Some [(''fields'', PList [PStr ''name'', PStr ''account_status''])])
          (Some ''Retrieve the customer record before drafting a response.'') (Some crm_adapter) rc () in
     bindE read (\<lambda>(read_decision, read_result).
     let (send, rc, _) = execute_with_control P ''email_send'' ''external_send'' ''customer@example.com''
          (Some [(''subject'', PStr ''Status update'')]) (Some ''Attempt external send after review.'')
          (Some email_adapter) rc () in
     bindE send (\<lambda>(send_decision, send_result).
     bindE (complete_run (Some ''Read completed; external send blocked by policy gate.'') rc) (\<lambda>(_, rc).
     bindE (export_json P out rc fs) (\<lambda>(exported_path, fs).
     bindE (generate_bundle P rc) (\<lambda>(bundle, rc).
     bindE (to_run_record rc) (\<lambda>run_record.
       Inr ([''crm_read    -> '' @ gate_word (gd_result read_decision) @
               '' (executed='' @ executed_text read_result @ '')'',
             ''email_send  -> '' @ gate_word (gd_result send_decision) @
               '' (executed='' @ executed_text send_result @ '')'',
             ''run record  -> '' @ path_text exported_path,
             ''replay      -> '' @ bu_replay_bundle_id bundle],
         (read_decision, read_result), (send_decision, send_result), run_record, bundle, rc, fs))))))))"

section \<open>An agent framework beside the control plane\<close>

text \<open>An action an agent intends: tool, action type, target, payload, reason.\<close>

record intention =
  in_tool_name :: string
  in_action_type :: string
  in_target :: string
  in_payload :: pydict
  in_reason :: string

definition intended_actions :: "intention list" where
  "intended_actions = [
     \<lparr>in_tool_name = ''crm_read'', in_action_type = ''read'', in_target = ''customer:42'',
      in_payload = [(''fields'', PList [PStr ''name'', PStr ''account_status''])],
      in_reason = ''Gather customer details for the reply.''\<rparr>,
     \<lparr>in_tool_name = ''email_send'', in_action_type = ''external_send'', in_target = ''customer@example.com'',
      in_payload = [(''subject'', PStr ''Account summary'')],
      in_reason = ''Send the drafted response to the customer.''\<rparr>]"

text \<open>The loop over the intended actions: the decisions, the tools executed, and what was printed.\<close>

fun integrate ::
  "prims \<Rightarrow> intention list \<Rightarrow> recorder \<Rightarrow> ((gate_result list \<times> string list \<times> string list) \<times> recorder) res" where
  "integrate P [] rc = Inr (([], [], []), rc)"
| "integrate P (i # is) rc =
     bindE (propose_action P (in_tool_name i) (in_action_type i) (in_target i) (Some (in_payload i))
        (Some (in_reason i)) rc) (\<lambda>(action, rc).
     bindE (evaluate_action P action True rc) (\<lambda>((d, _), rc).
     bindE (if gd_result d = Allow
        then bindE (record_reliance P (ac_tool_name action) ''tool''
            (''Executed '' @ ac_action_type action @ '' on '' @ ac_target action) (Some (ac_action_id action)) rc)
          (\<lambda>(_, rc). Inr ([ac_tool_name action], rc))
        else Inr ([], rc)) (\<lambda>(executed, rc).
     bindE (integrate P is rc) (\<lambda>((ds, more, printed), rc).
       Inr ((gd_result d # ds, executed @ more, (ac_tool_name action @ '' -> '' @ gate_word (gd_result d)) # printed), rc)))))"

definition framework_demo ::
  "prims \<Rightarrow> string \<Rightarrow> recorder \<Rightarrow> files \<Rightarrow>
     (string list \<times> gate_result list \<times> string list \<times> agent_run \<times> replay_bundle \<times> recorder \<times> files) res" where
  "framework_demo P out rc fs =
     (let (_, rc) = start_run P ''Review a customer account and decide whether to send a reply.'' ''mock-agent''
        ''sandbox'' [''crm_read''] [''email_send''] ''framework-demo-v1'' rc in
     bindE (integrate P intended_actions rc) (\<lambda>((decisions, executed, printed), rc).
     bindE (complete_run (Some ''Prepared a response draft and blocked external send.'') rc) (\<lambda>(_, rc).
     bindE (export_json P out rc fs) (\<lambda>(exported_path, fs).
     bindE (generate_bundle P rc) (\<lambda>(bundle, rc).
     bindE (to_run_record rc) (\<lambda>r.
       Inr (printed @ [''exported  '' @ path_text exported_path,
          ''actions   '' @ digits_nat (length (rb_actions r)), ''decisions '' @ digits_nat (length (rb_decisions r)),
          ''blocked   '' @ digits_nat (length (rb_blocked_actions r)),
          ''reliance  '' @ digits_nat (length (rb_reliance_records r)),
          ''bundle    '' @ bu_replay_bundle_id bundle],
        decisions, executed, r, bundle, rc, fs)))))))"

section \<open>A policy configuration\<close>

text \<open>\<open>_make_action\<close>; the proposal's time is the clock's next reading.\<close>

definition make_action :: "prims \<Rightarrow> string \<Rightarrow> string \<Rightarrow> string \<Rightarrow> nat \<Rightarrow> action_proposal" where
  "make_action P tool action_type target ticks =
     \<lparr>ac_action_id = tool @ ''-'' @ action_type, ac_run_id = ''policy-config-demo'', ac_tool_name = tool,
      ac_action_type = action_type, ac_target = target, ac_payload = [],
      ac_proposed_at = isoformat_utc P (clock P ticks), ac_reason = None\<rparr>"

definition config_demo ::
  "prims \<Rightarrow> string \<Rightarrow> nat \<times> nat \<Rightarrow> files \<Rightarrow>
     (string list \<times> policy_config \<times> authority_record list \<times> frame \<times> gate_decision list) res" where
  "config_demo P config_path counters fs =
     bindE (load_policy_config (read_content P) (fs (path_of config_path))) (\<lambda>config.
     let (uuids, ticks) = counters;
         records = authority_records_from_policy_config P uuids ticks config ''policy-config-demo'' ''demo-agent''
           ''policy_config'' None;
         uuids = uuids + length records; ticks = ticks + length records;
         fr = frame_from_policy_config P uuids ticks config ''Policy config demonstration'' ''demo-agent'' ''sandbox'';
         uuids = Suc uuids; ticks = Suc ticks;
         allowed = make_action P ''crm_read'' ''read'' ''customer:42'' ticks;
         required = make_action P ''email_send'' ''external_send'' ''customer@example.com'' (ticks + 1);
         missing = make_action P ''email_send'' ''external_send'' ''customer-without-authority@example.com'' (ticks + 2);
         escalated = make_action P ''unknown_tool'' ''read'' ''resource:unknown'' (ticks + 3)
     in
     bindE (gate_evaluate P allowed fr [] TimeNow (uuids, ticks + 4)) (\<lambda>(d1, c).
     bindE (gate_evaluate P required fr records TimeNow c) (\<lambda>(d2, c).
     bindE (gate_evaluate P missing fr [] TimeNow c) (\<lambda>(d3, c).
     bindE (gate_evaluate P escalated fr [] TimeNow c) (\<lambda>(d4, c).
       Inr ([''allow     '' @ ac_tool_name allowed @ '' -> '' @ gate_word (gd_result d1),
             ''authority '' @ ac_tool_name required @ '' -> '' @ gate_word (gd_result d2),
             ''blocked   '' @ ac_tool_name missing @ '' -> '' @ gate_word (gd_result d3),
             ''default   '' @ ac_tool_name escalated @ '' -> '' @ gate_word (gd_result d4)],
            config, records, fr, [d1, d2, d3, d4]))))))"

section \<open>The outcomes of the gate\<close>

definition scenario_action :: "prims \<Rightarrow> string \<Rightarrow> string \<Rightarrow> nat \<Rightarrow> action_proposal" where
  "scenario_action P tool action_type ticks =
     \<lparr>ac_action_id = ''action-'' @ tool @ ''-'' @ action_type, ac_run_id = ''demo-run'', ac_tool_name = tool,
      ac_action_type = action_type, ac_target = ''resource:demo'', ac_payload = [],
      ac_proposed_at = isoformat_utc P (clock P ticks), ac_reason = None\<rparr>"

definition demo_frame :: "prims \<Rightarrow> nat \<Rightarrow> frame" where
  "demo_frame P ticks =
     \<lparr>fr_frame_id = ''frame-demo'', fr_task = ''Tool policy demonstration'', fr_actor = ''demo-agent'',
      fr_environment = ''sandbox'', fr_allowed_tools = [''crm_read'', ''notes_search'', ''email_send''],
      fr_blocked_tools = [''file_delete'', ''admin_exec''], fr_policy_version = ''v1.0'',
      fr_created_at = isoformat_utc P (clock P ticks)\<rparr>"

definition demo_authority :: "prims \<Rightarrow> string \<Rightarrow> string list \<Rightarrow> nat \<Rightarrow> authority_record" where
  "demo_authority P i scope ticks =
     \<lparr>au_authority_id = i, au_run_id = ''demo-run'', au_actor = ''demo-agent'', au_scope = scope,
      au_expires_at = None, au_source = ''demo_policy'', au_created_at = isoformat_utc P (clock P ticks)\<rparr>"

definition demo_scenarios :: "prims \<Rightarrow> nat \<Rightarrow> (string \<times> action_proposal \<times> authority_record list) list" where
  "demo_scenarios P ticks =
     (let read = demo_authority P ''auth-read'' [''read''] (ticks + 1);
          write = demo_authority P ''auth-write'' [''read'', ''write''] (ticks + 2);
          send = demo_authority P ''auth-send'' [''read'', ''external_send''] (ticks + 3)
      in [(''ALLOW '' @ dash @ '' crm_read / read'', scenario_action P ''crm_read'' ''read'' (ticks + 4), [read]),
          (''ALLOW '' @ dash @ '' notes_search / read'', scenario_action P ''notes_search'' ''read'' (ticks + 5), [read]),
          (''ALLOW '' @ dash @ '' email_send / external_send (with authority)'',
             scenario_action P ''email_send'' ''external_send'' (ticks + 6), [send]),
          (''BLOCK '' @ dash @ '' file_delete (blocked tool)'', scenario_action P ''file_delete'' ''write'' (ticks + 7), [write]),
          (''BLOCK '' @ dash @ '' admin_exec (blocked tool)'', scenario_action P ''admin_exec'' ''read'' (ticks + 8), []),
          (''BLOCK '' @ dash @ '' email_send / external_send (no authority)'',
             scenario_action P ''email_send'' ''external_send'' (ticks + 9), [read]),
          (''ESCALATE '' @ dash @ '' unknown_tool / read'', scenario_action P ''unknown_tool'' ''read'' (ticks + 10), [read]),
          (''ESCALATE '' @ dash @ '' crm_read / write (no write authority)'',
             scenario_action P ''crm_read'' ''write'' (ticks + 11), [read]),
          (''ESCALATE '' @ dash @ '' crm_read / delete (unknown action type)'',
             scenario_action P ''crm_read'' ''delete'' (ticks + 12), [write])])"

fun outcome_label :: "gate_result \<Rightarrow> string" where
  "outcome_label Allow = [CHR 0xE2, CHR 0x9C, CHR 0x93] @ '' ALLOW   ''"
| "outcome_label Block = [CHR 0xE2, CHR 0x9C, CHR 0x97] @ '' BLOCK   ''"
| "outcome_label Escalate = [CHR 0xE2, CHR 0x9A, CHR 0xA0] @ '' ESCALATE''"

definition scenario_text :: "string \<Rightarrow> gate_decision \<Rightarrow> string" where
  "scenario_text description d =
     CHR 0x0A # outcome_label (gd_result d) @ ''  '' @ description @
     CHR 0x0A # ''          policy  : '' @ gd_policy_name d @
     CHR 0x0A # ''          reason  : '' @ gd_reason d @
     CHR 0x0A # ''          fp      : '' @ chars_up_to 32 (gd_fingerprint d) @ ellipsis"

fun show_scenarios ::
  "prims \<Rightarrow> frame \<Rightarrow> (string \<times> action_proposal \<times> authority_record list) list \<Rightarrow> nat \<times> nat \<Rightarrow>
     (gate_decision list \<times> string list) res" where
  "show_scenarios P fr [] c = Inr ([], [])"
| "show_scenarios P fr ((description, action, authorities) # scs) c =
     bindE (gate_evaluate P action fr authorities TimeNow c) (\<lambda>(d, c).
     bindE (show_scenarios P fr scs c) (\<lambda>(ds, printed). Inr (d # ds, scenario_text description d # printed)))"

definition policy_demo :: "prims \<Rightarrow> nat \<times> nat \<Rightarrow> (gate_decision list \<times> string list) res" where
  "policy_demo P counters = (case counters of (uuids, ticks) \<Rightarrow>
     bindE (show_scenarios P (demo_frame P ticks) (demo_scenarios P ticks) (uuids, ticks + 13)) (\<lambda>(ds, printed).
       Inr (ds, [replicate 72 (CHR ''=''), ''Agent Control Plane '' @ dash @ '' Tool Policy Demo'',
           replicate 72 (CHR ''='')] @ printed @
         [CHR 0x0A # replicate 72 (CHR ''=''), ''Demo complete.''])))"

section \<open>What the loop of an integration does\<close>

lemma proposed_frame:
  "propose_action P tool act target payload reason rc = Inr (action, rc1) \<Longrightarrow>
     rc1 = (used 1 1 rc)\<lparr>rc_actions := rc_actions rc @ [action]\<rparr> \<and> ac_tool_name action = tool \<and> ac_action_type action = act"
  by (auto simp: propose_action_def bindE_Inr_iff Let_def)

lemma evaluated_frame:
  assumes "evaluate_action P action b rc = Inr ((d, blk), rc')"
  shows "rc_frame rc' = rc_frame rc \<and> rc_authority_records rc' = rc_authority_records rc \<and>
     rc_reliance_records rc' = rc_reliance_records rc \<and> rc_decisions rc' = rc_decisions rc @ [d] \<and>
     rc_actions rc' = rc_actions rc"
  using assms by (rule evaluate_action_cases; elim ask_gate_cases) (auto simp: used_def)

lemma relied_frame:
  "record_reliance P name st scope ref rc = Inr (l, rc') \<Longrightarrow>
     rc' = (used 1 1 rc)\<lparr>rc_reliance_records := rc_reliance_records rc @ [l]\<rparr> \<and>
     rl_source_name l = name \<and> rl_referenced_action_id l = ref"
  by (auto simp: record_reliance_def bindE_Inr_iff Let_def throw_def split: option.splits)

text \<open>What the gate may allow in a frame, given the scopes on record.\<close>

definition may_run :: "frame \<Rightarrow> authority_record list \<Rightarrow> intention \<Rightarrow> bool" where
  "may_run fr records i \<longleftrightarrow> in_tool_name i \<in> set (fr_allowed_tools fr) \<and> in_tool_name i \<notin> set (fr_blocked_tools fr) \<and>
     (in_action_type i = ''read'' \<or> in_action_type i \<in> {''write'', ''external_send''} \<and>
       (\<exists>r\<in>set records. in_action_type i \<in> set (au_scope r)))"

lemma integrate_step:
  assumes "integrate P (i # is) rc = Inr ((results, executed, printed), rc')"
  obtains d action rc1 results' executed' printed' ls where
    "results = gd_result d # results'" "executed = (if gd_result d = Allow then [in_tool_name i] else []) @ executed'"
    "integrate P is rc1 = Inr ((results', executed', printed'), rc')"
    "rc_frame rc1 = rc_frame rc" "rc_authority_records rc1 = rc_authority_records rc"
    "rc_decisions rc1 = rc_decisions rc @ [d]" "rc_actions rc1 = rc_actions rc @ [action]"
    "rc_reliance_records rc1 = rc_reliance_records rc @ ls"
    "map rl_source_name ls = (if gd_result d = Allow then [in_tool_name i] else [])"
    "list_all (\<lambda>l. rl_referenced_action_id l = Some (ac_action_id action)) ls"
    "gd_result d = Allow \<Longrightarrow> rc_frame rc = Some fr \<Longrightarrow> may_run fr (rc_authority_records rc) i"
proof -
  obtain action rca d blk rcb ran rcc results' executed' printed' where
    p: "propose_action P (in_tool_name i) (in_action_type i) (in_target i) (Some (in_payload i)) (Some (in_reason i)) rc = Inr (action, rca)"
    and e: "evaluate_action P action True rca = Inr ((d, blk), rcb)"
    and r: "(if gd_result d = Allow
        then bindE (record_reliance P (ac_tool_name action) ''tool''
            (''Executed '' @ ac_action_type action @ '' on '' @ ac_target action) (Some (ac_action_id action)) rcb)
          (\<lambda>(_, rc). Inr ([ac_tool_name action], rc))
        else Inr ([], rcb)) = Inr (ran, rcc)"
    and rest: "integrate P is rcc = Inr ((results', executed', printed'), rc')"
    and out: "results = gd_result d # results'" "executed = ran @ executed'"
    using assms by (auto simp: bindE_Inr_iff)
  note frames = proposed_frame [OF p] evaluated_frame [OF e]
  obtain ls where ls: "rcc = (if ls = [] then rcb else (used 1 1 rcb)\<lparr>rc_reliance_records := rc_reliance_records rcb @ ls\<rparr>)"
    "map rl_source_name ls = ran" "list_all (\<lambda>l. rl_referenced_action_id l = Some (ac_action_id action)) ls"
    "ran = (if gd_result d = Allow then [in_tool_name i] else [])"
  proof (cases "gd_result d = Allow")
    case True
    with r frames obtain l where "record_reliance P (in_tool_name i) ''tool''
        (''Executed '' @ ac_action_type action @ '' on '' @ ac_target action) (Some (ac_action_id action)) rcb = Inr (l, rcc)"
        "ran = [in_tool_name i]"
      by (auto simp: bindE_Inr_iff)
    with True relied_frame [OF this(1)] that [of "[l]"] show thesis by simp
  next
    case False
    with r that [of "[]"] show thesis by simp
  qed
  have "may_run fr (rc_authority_records rc) i" if "gd_result d = Allow" "rc_frame rc = Some fr"
    using evaluate_allows [OF e that(1), of fr] frames that(2) by (simp add: may_run_def used_def)
  with that [of d results' executed' rcc printed' action ls] rest out frames ls show thesis
    by (auto simp: used_def split: if_splits)
qed

text \<open>
  C26. The integration loop of the examples executes only what the gate allowed, whatever actions the
  agent intends: the executed tools are those of the actions with the answer \<open>allow\<close>, in order; each
  is allowed in the frame of the run, and writes and sends have their scope on record. Every
  answer is recorded as a decision, and every executed tool, and no other, as a reliance on
  the action it came from.
\<close>

theorem integration_loop_gated:
  assumes "integrate P is rc = Inr ((results, executed, printed), rc')" "rc_frame rc = Some fr"
  shows "length results = length is \<and>
     executed = map (\<lambda>(i, r). in_tool_name i) (filter (\<lambda>(i, r). r = Allow) (zip is results)) \<and>
     list_all (\<lambda>(i, r). r = Allow \<longrightarrow> may_run fr (rc_authority_records rc) i) (zip is results) \<and>
     (\<exists>ds ls. rc_decisions rc' = rc_decisions rc @ ds \<and> map gd_result ds = results \<and>
        rc_reliance_records rc' = rc_reliance_records rc @ ls \<and> map rl_source_name ls = executed \<and>
        list_all (\<lambda>l. \<exists>a\<in>set (rc_actions rc'). rl_referenced_action_id l = Some (ac_action_id a)) ls \<and>
        (\<exists>as. rc_actions rc' = rc_actions rc @ as \<and> length as = length is))"
  using assms
proof (induction "is" arbitrary: rc results executed printed)
  case Nil
  then show ?case by auto
next
  case (Cons i "is")
  from Cons.prems(1) obtain d action rc1 results' executed' printed' ls1 where s:
    "results = gd_result d # results'" "executed = (if gd_result d = Allow then [in_tool_name i] else []) @ executed'"
    "integrate P is rc1 = Inr ((results', executed', printed'), rc')"
    "rc_frame rc1 = rc_frame rc" "rc_authority_records rc1 = rc_authority_records rc"
    "rc_decisions rc1 = rc_decisions rc @ [d]" "rc_actions rc1 = rc_actions rc @ [action]"
    "rc_reliance_records rc1 = rc_reliance_records rc @ ls1"
    "map rl_source_name ls1 = (if gd_result d = Allow then [in_tool_name i] else [])"
    "list_all (\<lambda>l. rl_referenced_action_id l = Some (ac_action_id action)) ls1"
    "gd_result d = Allow \<Longrightarrow> rc_frame rc = Some fr \<Longrightarrow> may_run fr (rc_authority_records rc) i"
    by (rule integrate_step [where fr = fr]) (rule that; blast)
  from Cons.IH [OF s(3)] Cons.prems(2) s(4) obtain ds ls as where h:
    "length results' = length is"
    "executed' = map (\<lambda>(i, r). in_tool_name i) (filter (\<lambda>(i, r). r = Allow) (zip is results'))"
    "list_all (\<lambda>(i, r). r = Allow \<longrightarrow> may_run fr (rc_authority_records rc1) i) (zip is results')"
    "rc_decisions rc' = rc_decisions rc1 @ ds" "map gd_result ds = results'"
    "rc_reliance_records rc' = rc_reliance_records rc1 @ ls" "map rl_source_name ls = executed'"
    "list_all (\<lambda>l. \<exists>a\<in>set (rc_actions rc'). rl_referenced_action_id l = Some (ac_action_id a)) ls"
    "rc_actions rc' = rc_actions rc1 @ as" "length as = length is"
    by auto
  have "list_all (\<lambda>l. \<exists>a\<in>set (rc_actions rc'). rl_referenced_action_id l = Some (ac_action_id a)) (ls1 @ ls)"
    using s(7,10) h(8,9) by (auto simp: list_all_iff)
  moreover have "rc_decisions rc' = rc_decisions rc @ d # ds" "rc_reliance_records rc' = rc_reliance_records rc @ ls1 @ ls"
      "rc_actions rc' = rc_actions rc @ action # as" "map rl_source_name (ls1 @ ls) = executed"
      "map gd_result (d # ds) = results"
    using s h by simp_all
  moreover have "list_all (\<lambda>(i, r). r = Allow \<longrightarrow> may_run fr (rc_authority_records rc) i) (zip (i # is) results)"
    using s(1,5,11) h(3) Cons.prems(2) by simp
  moreover have "executed = map (\<lambda>(i, r). in_tool_name i) (filter (\<lambda>(i, r). r = Allow) (zip (i # is) results))"
    using s(1,2) h(2) by simp
  ultimately show ?case using s(1) h(1,10)
    by (intro conjI exI [of _ "d # ds"] exI [of _ "ls1 @ ls"] exI [of _ "action # as"]) simp_all
qed

section \<open>The examples do what they announce\<close>

lemmas gate_runs = gate_evaluate_def gate_evaluate_with_trace_def gate_time_def apply_rules_def gate_rules_def
  active_scopes_def collectE_def record_scopes_def

lemmas recorder_runs = gate_runs start_run_def new_recorder_def Let_def propose_action_def require_started_def used_def
  evaluate_action_def ask_gate_def create_frame_def record_reliance_def source_type_of_def complete_run_def
  export_json_def write_model_def next_id_def next_stamp_def generate_bundle_def to_run_record_def add_authority_record_def bundle_of_run_def

lemma scenarios_as_announced:
  "\<exists>ds printed. policy_demo P c = Inr (ds, printed) \<and>
     map gd_result ds = [Allow, Allow, Allow, Block, Block, Block, Escalate, Escalate, Escalate] \<and> length printed = 14"
  by (cases c) (simp add: policy_demo_def Let_def demo_scenarios_def scenario_action_def demo_frame_def demo_authority_def
      gate_runs)

lemma framework_demo_outcome:
  "\<exists>printed r bundle rc fs'. framework_demo P out (new_recorder n m) fs =
     Inr (printed, [Allow, Block], [''crm_read''], r, bundle, rc, fs') \<and>
     length (rb_actions r) = 2 \<and> length (rb_decisions r) = 2 \<and> length (rb_blocked_actions r) = 1 \<and>
     length (rb_reliance_records r) = 1 \<and> take 2 printed = [''crm_read -> allow'', ''email_send -> block'']"
  by (simp add: framework_demo_def intended_actions_def recorder_runs del: dumps_as.simps)

lemma adapter_demo_outcome:
  "\<exists>printed d1 t1 d2 r bundle rc fs'. adapter_demo P out (new_recorder n m) fs =
     Inr (printed, (d1, Some t1), (d2, None), r, bundle, rc, fs') \<and>
     gd_result d1 = Allow \<and> tx_executed t1 \<and> tx_error t1 = None \<and>
     tx_result t1 = [(''target'', PStr ''customer:42''),
       (''fields'', PList [PStr ''name'', PStr ''account_status'']), (''account_status'', PStr ''active'')] \<and>
     gd_result d2 = Block \<and> length (rb_blocked_actions r) = 1 \<and> length (rb_reliance_records r) = 1 \<and>
     take 2 printed = [''crm_read    -> allow (executed=True)'', ''email_send  -> block (executed=False)'']"
  by (simp add: adapter_demo_def execute_with_control_def crm_adapter_def email_adapter_def executed_text_def
      bool_text_def dget_or_def recorder_runs del: dumps_as.simps)

lemma simple_run_outcome:
  "\<exists>printed r bundle rc fs'. simple_run P out (new_recorder n m) fs = Inr (printed, r, bundle, rc, fs') \<and>
     map gd_result (rb_decisions r) = [Allow, Block] \<and> length (rb_actions r) = 2 \<and>
     length (rb_blocked_actions r) = 1 \<and> length (rb_reliance_records r) = 1 \<and> length (rb_authority_records r) = 1 \<and>
     fs' = fs(path_of out := fs' (path_of out)) \<and> rb_final_output r =
       Some ''Draft prepared but email send blocked pending authorization.''"
  by (simp add: simple_run_def recorder_runs del: dumps_as.simps)

text \<open>The configuration in \<open>examples/policy_config.json\<close>.\<close>

definition shipped_config :: pydict where
  "shipped_config = [(''policy_version'', PStr ''v1.1''),
     (''allowed_tools'', PList [PStr ''crm_read'', PStr ''email_send'', PStr ''notes_write'']),
     (''blocked_tools'', PList [PStr ''file_delete'']),
     (''authority_required'', PDict [(''external_send'', PList [PStr ''external_send'']), (''write'', PList [PStr ''write''])]),
     (''default_action'', PStr ''escalate'')]"

lemma config_demo_outcome:
  assumes "fs (path_of config_path) = Some (Text s)" "loads P s = Some (PDict shipped_config)"
  shows "\<exists>printed config records fr ds. config_demo P config_path c fs = Inr (printed, config, records, fr, ds) \<and>
     map au_scope records = [[''external_send''], [''write'']] \<and> map gd_result ds = [Allow, Allow, Block, Escalate]"
proof -
  have "load_policy_config (read_content P) (Some (Text s)) = Inr \<lparr>pc_policy_version = ''v1.1'',
      pc_allowed_tools = [''crm_read'', ''email_send'', ''notes_write''], pc_blocked_tools = [''file_delete''],
      pc_authority_required = [(''external_send'', [''external_send'']), (''write'', [''write''])],
      pc_default_action = Escalate\<rparr>"
    by (simp add: load_policy_config_def read_content_def read_json_def assms(2) validate_policy_config_def shipped_config_def expect_dict_def
        required_field_def expect_str_def expect_strs_def dget_or_def expect_gate_result_def)
  then show ?thesis
    by (cases c) (simp add: config_demo_def assms(1) authority_records_from_policy_config_def frame_from_policy_config_def
        make_action_def Let_def create_frame_def gate_runs)
qed

section \<open>Witness\<close>

definition mock_start :: recorder where
  "mock_start = snd (start_run sample_prims ''t'' ''mock-agent'' ''sandbox'' [''crm_read''] [''email_send''] ''v1''
     (new_recorder 0 0))"

lemma mock_runs:
  "\<exists>printed rc'. integrate sample_prims intended_actions mock_start = Inr (([Allow, Block], [''crm_read''], printed), rc')"
  "\<exists>fr. rc_frame mock_start = Some fr"
  by (simp_all add: mock_start_def intended_actions_def recorder_runs)

lemma integration_loop_gated_witness:
  "\<exists>results printed rc' ls. integrate sample_prims intended_actions mock_start = Inr ((results, [''crm_read''], printed), rc') \<and>
     rc_reliance_records rc' = rc_reliance_records mock_start @ ls \<and> map rl_source_name ls = [''crm_read'']"
proof -
  obtain printed rc' fr where "integrate sample_prims intended_actions mock_start = Inr (([Allow, Block], [''crm_read''], printed), rc')"
      "rc_frame mock_start = Some fr"
    using mock_runs by blast
  from this(1) integration_loop_gated [OF this] show ?thesis
    by (elim conjE exE) (intro exI conjI, assumption+)
qed

end
