(* ===== verification/Spec2Isabelle.thy ===== *)
theory Spec2Isabelle
  imports System StoreProgress WorkflowFiles DestinationText Completion Mounts LocalClaim ProfileTool AgtAdapter Examples
begin

text \<open>
  A model of the Cognous agent control plane (\<open>src/src/agent_control_plane/\<close>) with the properties
  that make it correct. The package has two halves. The bounded authorization half
  (\<open>bounded.py\<close>, \<open>local_authority_effect.py\<close>, \<open>decision_input_profile.py\<close>,
  \<open>microsoft_agt.py\<close>) decides whether a proposed effect is authorized, persists the decision,
  resolves the authority again at effect time, and dispatches at most once. The recording half
  (\<open>models.py\<close>, \<open>frame.py\<close>, \<open>policy_gate.py\<close>, \<open>records.py\<close>, \<open>tools.py\<close>, \<open>replay.py\<close>,
  \<open>validation.py\<close>, \<open>redaction.py\<close>, \<open>policy_config.py\<close>, \<open>demo_policies.py\<close>) puts a rule-based gate
  in front of tools and keeps an auditable record of a run, which \<open>persistence.py\<close>, \<open>signing.py\<close> and
  \<open>cli.py\<close> export, sign, verify and redact as JSON files. The scripts under \<open>examples/\<close> put the
  recording half to use.
\<close>

section \<open>Theories and code\<close>

text \<open>
  \<^item> \<open>Prelude\<close>, \<open>PyValue\<close>, \<open>PyTime\<close>: the language of the translation. Exceptions as values, the
    checks of the source as combinators (\<open>bindE\<close>, \<open>orE\<close>, \<open>collectE\<close>, \<open>mapE\<close>, \<open>findE\<close>), untyped
    JSON values with Python's operators and the exceptions they raise, text, and time.
  \<^item> \<open>CanonicalJson\<close> (\<open>_canonical_bytes\<close>, \<open>commitment\<close>): the encoder, and that it determines its
    value up to the order of keys.
  \<^item> \<open>BoundedModels\<close>, \<open>RecordStore\<close>, \<open>Mounts\<close>, \<open>StoreConcurrency\<close>, \<open>Destination\<close>, \<open>Resolver\<close>: the records of
    \<open>bounded.py\<close>; \<open>BoundedRecordStore\<close> as atomic appends to one document, and the lock, read,
    stage, rename steps of concurrent processes that implement them, and the check of the mounts
    under the store; \<open>LocalRefundDestination\<close>;
    \<open>Resolver\<close> as a record of queries and \<open>SyntheticResolver\<close> as one such record.
  \<^item> \<open>BoundedJson\<close>, \<open>StoreText\<close>, \<open>WorkflowFiles\<close>, \<open>DestinationText\<close>, \<open>StoreProgress\<close>: the files of this half.
    The run record as a JSON document (\<open>model_dump\<close>, \<open>model_validate\<close>); \<open>_read_document\<close>, \<open>_append\<close> and
    \<open>_write\<close> of the store and \<open>apply\<close> and \<open>observe\<close> of the destination on the text of their files; a
    decision of the workflow read back from the file; and the progress of concurrent transactions.
  \<^item> \<open>Manifest\<close>, \<open>Resolve\<close>, \<open>World\<close>, \<open>Reconcile\<close>, \<open>Workflow\<close>: \<open>BoundedAuthorizationWorkflow\<close>.
    The manifest checks and the resolution return a list of reasons; \<open>World\<close> is the state a call
    changes (record file, destination, drawn uuids and clock readings); \<open>Reconcile\<close> and
    \<open>Workflow\<close> hold \<open>decide\<close>, \<open>execute\<close>, \<open>reconcile\<close> with every step in the order of the code.
  \<^item> \<open>Scenario\<close>: one worked example (a refund), on which the witnesses evaluate.
  \<^item> \<open>Calls\<close>: the calls of the workflow as trees of atomic steps, one per transaction of the store,
    operation of the destination, clock reading or fresh id; run without interruption they are the calls of
    \<open>Workflow\<close>. \<open>Interleaving\<close>: any number of calls of one process, which take their steps in turns
    and may die between any two, by what each of them relies on and guarantees.
  \<^item> \<open>Authority\<close>: what a resolution without reasons establishes. \<open>System\<close>: the invariants of the
    states that overlapping calls reach, the stronger ones of those that calls one after the other
    reach, and two overlapping calls that show the difference. \<open>Completion\<close>: the converse of
    the safety properties, that an authorized decision takes effect and executing it again finds the effect.
  \<^item> \<open>LocalClaim\<close>: issuance and verification of local execution claims. \<open>DecisionInput\<close>,
    \<open>ProfileTool\<close>: the verifier of decision-input records and the script around it. \<open>AgtAdapter\<close>: the conjunctive gate over the Microsoft
    toolkit, with the workflow as its evaluator.
  \<^item> \<open>RunModels\<close>, \<open>PolicyGate\<close>, \<open>Recorder\<close>, \<open>Setup\<close>, \<open>Validation\<close>, \<open>Redaction\<close>: the recording half,
    one theory per module, the recorder with frames, bundles and controlled tool execution.
  \<^item> \<open>JsonText\<close>, \<open>EscapedText\<close>, \<open>ModelJson\<close>, \<open>Exports\<close>, \<open>Signing\<close>, \<open>CommandLine\<close>: records outside the process.
    \<open>JsonText\<close> is \<open>json.dumps\<close> with an indent and \<open>json.loads\<close>, \<open>EscapedText\<close> the strings escaped to
    ASCII; \<open>ModelJson\<close> is \<open>model_dump\<close> and
    \<open>model_validate\<close> of the records of \<open>models.py\<close>; \<open>Exports\<close> the text of bundles (\<open>replay.py\<close>),
    \<open>export_json\<close> of the recorder and the files of \<open>persistence.py\<close> (on the paths of \<open>Paths\<close>); \<open>Signing\<close> and \<open>CommandLine\<close> the modules of these names, the
    command line as commands on a map from paths to contents.
  \<^item> \<open>Examples\<close>: the scripts under \<open>examples/\<close>, with what they print, return and write.
\<close>

section \<open>Interfaces\<close>

text \<open>
  Where one part relies on another, the contract is a locale with the operations it calls and the
  laws it needs, interpreted on the model of the provider: \<open>string_printer\<close> (a way to print JSON
  strings such that documents can be told apart, interpreted for the text of commitments and for the
  escaped text of signatures), \<open>string_writer\<close> (one such that the reader gets the string back, which gives
  \<open>string_printer\<close>; interpreted for text as it is and for escaped Unicode text), \<open>append_log\<close> (the record store),
  \<open>log_implementation\<close> (a state that stands for such a log, and an operation on it that implements the
  append; interpreted for the text of the record file),
  \<open>effect_sink\<close> with its extensions \<open>capped_sink\<close> and \<open>observable_sink\<close> (the destination), \<open>sink_implementation\<close> (a state that stands
  for a destination; interpreted for the text of its file), \<open>recorder_invariant\<close> (an invariant every operation of the
  recorder keeps, interpreted for the growth of the history and for the coherence that validation
  checks), \<open>binding_evaluator\<close> (an evaluator whose authorized decisions bind the proposal they
  were asked about, interpreted by the workflow's \<open>decide\<close>).
\<close>

section \<open>What the properties show\<close>

text \<open>
  \<^item> The workflow: an effect is dispatched only from a persisted authorized decision whose proposal
    resolves again to the same binding; what a resolution without reasons says of grant, people,
    approvals, evidence, policies and limits; how a refusal, an attempt and a reconciliation are
    recorded; the identity of effects.
  \<^item> The system: every effect is backed by a decision, and the effects of a grant stay within its
    cap, however the calls of a process overlap; each effect is dispatched at most once as long as calls do not overlap
    (the workflow as a whole is not atomic: \<open>overlapping_calls_start_twice\<close>). Every call ends, after a bounded number of
    its own steps. An authorized decision that still
    resolves does take effect, and is reported as done when executed again. The destination alone keeps
    the cap and never changes an effect, whatever requests reach it.
  \<^item> The record store: it opens only over a known local file system; appends to the text of the file
    implement appends to the record, keep all earlier entries and the fields of extensions, and never
    touch a file that does not load; what loads meets the constraints of its classes, and a decision is
    read back as it was made; the text of the destination's file implements the destination; concurrent
    transactions refine sequential appends with mutual exclusion, and under a fair scheduler
    every append of a living process completes.
  \<^item> Claims, profile records and the toolkit gate: nothing is issued, verified or authorized
    without the authority it stands for, and issued documents are tamper evident.
  \<^item> The recording half: tools run only when the gate allowed the very action, the gate
    decides by its table of rules and needs authority for writes and sends, runs that were started once validate, redaction
    hides payloads, and the integration loop of the examples executes only what the gate allowed.
  \<^item> Exports: what was written is read back, from files, from the text of a bundle and after signing;
    a signature binds its bundle; each command of the command line ends with a code that means one
    thing, and redacting a file does not change what validation says of it.
\<close>

section \<open>Parameters and bounds\<close>

text \<open>
  What the Python runtime provides and the program does not define is the record \<open>prims\<close>: SHA-256,
  printing and parsing of numbers and of ISO-8601 times, the local time zone, the text of
  containers, and the answers of \<open>uuid.uuid4\<close> and of the clock, one per call. Where a property
  depends on one of them it says so: \<open>float_repr_ok\<close> (the printed form of a float is a number and
  determines it), \<open>json_floats\<close> (it is a JSON number with a point or an exponent and reads back as
  the float), \<open>clock_trusted\<close> (the printed time of a clock reading reads back as that reading, inside the
  observation window), \<open>ascii_digests\<close> (a digest is printed in ASCII), \<open>no_collision\<close> (two given documents with one digest have one encoding), \<open>inj\<close> of
  the uuids. Recursion is structural or has a proved measure. The one exception is the JSON reader
  \<open>parse\<close>, which takes fuel; \<open>document\<close> gives it twice the length of the text and one more, and
  \<open>document_fuel\<close> shows that any more changes nothing. It stands for \<open>json.loads\<close> of the standard library. What pydantic's lax mode reads as a number from a value that is none is the record \<open>lax\<close>. Integers are
  Python's, unbounded. Floats are finite and held exactly, negative zero is zero; NaN and infinities
  are excluded, as the program's own encoder excludes them. Where \<open>json.loads\<close> reads such a number the
  model stops with the exception \<open>not_finite\<close>, which is none of Python's; the interpreter's limits on the
  digits of an integer (4300) and on nesting are not modelled, and \<open>command_outcomes\<close>, which
  depends on them, is stated for texts within them. Text is its UTF-8 bytes. The workflow runs on the
  record store of \<open>RecordStore\<close>, where the file holds a record; \<open>record_text_refines_store\<close> justifies that
  for files of Unicode text and entries with Unicode text whose tenants have 1 to 128 characters, and
  \<open>destination_text_refines\<close> does so for the destination. One operation of the destination and one
  transaction of the store are atomic steps: both hold a lock in the code (the destination's is one of
  threads, so its steps are those of one process). Whole calls are not; where a property needs them not to overlap it
  says so (\<open>serially_reachable\<close>), and the properties of a single call (\<open>Workflow\<close>, \<open>Reconcile\<close>, \<open>Completion\<close>) are of a
  call that nothing interrupts. Callers that mutate the lists a
  recorder hands out are not modelled.
\<close>

section \<open>Not modelled\<close>

text \<open>
  The parser of the command line's arguments (\<open>argparse\<close>) is a parameter of \<open>main\<close>. A file system
  that refuses an operation, links and working directories are left out, and so are lone surrogates
  in text, which Python can hold and UTF-8 cannot. The mount table the record store reads, and the
  path it resolves, are arguments. \<open>__init__.py\<close> and \<open>exceptions.py\<close> have no behaviour.
\<close>

end
